(* ===== verification/Prelude.thy ===== *)
theory Prelude
  imports Main "HOL-Library.Sublist"
begin

text \<open>
  What the components share.

  \<^item> The C library's character functions in the ``C'' locale (\<open>tolower\<close>, \<open>isspace\<close>) and
    the members of \<^verbatim>\<open>std::string\<close> the sources use (\<open>starts_with\<close>, \<open>substr\<close>).
    A \<^verbatim>\<open>std::string\<close> is a \<^typ>\<open>string\<close>: a list of bytes.
  \<^item> The exceptions the sources throw and catch (\<open>exn\<close>) and the type \<open>('s, 'a) act\<close> of
    code that reads and writes a state, and either returns a value or throws. The state is
    kept when an exception is thrown, as the objects of the program are.
  \<^item> The separator loops that \<open>joinArgs\<close>, the log context and the \<^verbatim>\<open>!commands\<close> reply use.
\<close>

named_theorems act_simps \<open>equations that run a piece of effectful code\<close>

section \<open>Characters and strings\<close>

definition tolower :: "char \<Rightarrow> char" where
  "tolower c = (if 65 \<le> (of_char c :: nat) \<and> (of_char c :: nat) \<le> 90
                then char_of ((of_char c :: nat) + 32) else c)"

definition isspace :: "char \<Rightarrow> bool" where
  "isspace c \<longleftrightarrow> (of_char c :: nat) = 32 \<or> 9 \<le> (of_char c :: nat) \<and> (of_char c :: nat) \<le> 13"

text \<open>\<^verbatim>\<open>std::transform(s.begin(), s.end(), s.begin(), ::tolower)\<close>.\<close>

definition transform_tolower :: "string \<Rightarrow> string" where
  "transform_tolower s = map tolower s"

lemma of_char_tolower:
  "(of_char (tolower c) :: nat) =
     (if 65 \<le> (of_char c :: nat) \<and> (of_char c :: nat) \<le> 90 then of_char c + 32 else of_char c)"
  by (simp add: tolower_def of_char_of)

lemma tolower_idem [simp]: "tolower (tolower c) = tolower c"
proof -
  have "\<not> (65 \<le> (of_char (tolower c) :: nat) \<and> (of_char (tolower c) :: nat) \<le> 90)"
    by (simp add: of_char_tolower)
  then show ?thesis by (simp only: tolower_def [of "tolower c"] if_False)
qed

lemma isspace_tolower [simp]: "isspace (tolower c) = isspace c"
  by (auto simp: isspace_def of_char_tolower)

lemma transform_tolower_idem [simp]:
  "transform_tolower (transform_tolower s) = transform_tolower s"
  by (simp add: transform_tolower_def)

lemma transform_tolower_Nil [simp]: "transform_tolower s = [] \<longleftrightarrow> s = []"
  by (simp add: transform_tolower_def)

definition starts_with :: "string \<Rightarrow> string \<Rightarrow> bool" where
  "starts_with s p \<longleftrightarrow> take (length p) s = p"

lemma starts_with_prefix: "starts_with s p \<longleftrightarrow> prefix p s"
  unfolding starts_with_def prefix_def by (metis append_eq_conv_conj)

lemma starts_with_append [simp]: "starts_with (p @ s) p"
  by (simp add: starts_with_def)

lemma starts_withE:
  assumes "starts_with s p"
  obtains r where "s = p @ r"
  using assms unfolding starts_with_prefix prefix_def by blast

section \<open>Exceptions and effectful code\<close>

text \<open>
  The error codes the sources compare with, and the exceptions by the handler that catches
  them: \<^verbatim>\<open>boost::system::system_error\<close> (a \<^verbatim>\<open>std::runtime_error\<close>), the other
  \<^verbatim>\<open>std::runtime_error\<close>s, and the rest of \<^verbatim>\<open>std::exception\<close>. Every one of them carries its
  \<open>what()\<close> text.
\<close>

datatype error_code = Eof | StreamTruncated | Timeout | WsClosed | OperationAborted | OtherCode nat

datatype exn =
    SystemError error_code string
  | RuntimeError string
  | OtherException string

fun what :: "exn \<Rightarrow> string" where
  "what (SystemError _ w) = w"
| "what (RuntimeError w) = w"
| "what (OtherException w) = w"

type_synonym ('s, 'a) act = "'s \<Rightarrow> (exn + 'a) \<times> 's"

definition ret :: "'a \<Rightarrow> ('s, 'a) act" where
  "ret a = (\<lambda>s. (Inr a, s))"

definition throw :: "exn \<Rightarrow> ('s, 'a) act" where
  "throw e = (\<lambda>s. (Inl e, s))"

definition lift :: "exn + 'a \<Rightarrow> ('s, 'a) act" where
  "lift r = (\<lambda>s. (r, s))"

definition bindA :: "('s, 'a) act \<Rightarrow> ('a \<Rightarrow> ('s, 'b) act) \<Rightarrow> ('s, 'b) act" where
  "bindA m f = (\<lambda>s. case m s of (Inl e, s') \<Rightarrow> (Inl e, s') | (Inr a, s') \<Rightarrow> f a s')"

definition thenA :: "('s, 'a) act \<Rightarrow> ('s, 'b) act \<Rightarrow> ('s, 'b) act" where
  "thenA m n = bindA m (\<lambda>_. n)"

definition getsA :: "('s \<Rightarrow> 'a) \<Rightarrow> ('s, 'a) act" where
  "getsA f = (\<lambda>s. (Inr (f s), s))"

definition modifyA :: "('s \<Rightarrow> 's) \<Rightarrow> ('s, unit) act" where
  "modifyA f = (\<lambda>s. (Inr (), f s))"

text \<open>\<^verbatim>\<open>try { m } catch (const std::exception &err) { h err }\<close>.\<close>

definition catchA :: "('s, 'a) act \<Rightarrow> (exn \<Rightarrow> ('s, 'a) act) \<Rightarrow> ('s, 'a) act" where
  "catchA m h = (\<lambda>s. case m s of (Inl e, s') \<Rightarrow> h e s' | (Inr a, s') \<Rightarrow> (Inr a, s'))"

text \<open>\<^verbatim>\<open>try { m } catch (const beast::system_error &err) { h (err.code(), err.what()) }\<close>.\<close>

definition catchSystemA :: "('s, 'a) act \<Rightarrow> (error_code \<Rightarrow> string \<Rightarrow> ('s, 'a) act) \<Rightarrow> ('s, 'a) act" where
  "catchSystemA m h =
     (\<lambda>s. case m s of
            (Inl e, s') \<Rightarrow> (case e of SystemError c w \<Rightarrow> h c w s' | _ \<Rightarrow> (Inl e, s'))
          | (Inr a, s') \<Rightarrow> (Inr a, s'))"

text \<open>Pure code that throws: the same, without a state.\<close>

definition bindE :: "exn + 'a \<Rightarrow> ('a \<Rightarrow> exn + 'b) \<Rightarrow> exn + 'b" where
  "bindE m f = (case m of Inl e \<Rightarrow> Inl e | Inr a \<Rightarrow> f a)"

lemma bindE_simps [simp]: "bindE (Inl e) f = Inl e" "bindE (Inr a) f = f a"
  by (simp_all add: bindE_def)

lemma bindE_Inr: "bindE m f = Inr b \<longleftrightarrow> (\<exists>a. m = Inr a \<and> f a = Inr b)"
  by (cases m) auto

lemma ret_run [act_simps]: "ret a s = (Inr a, s)"
  and throw_run [act_simps]: "throw e s = (Inl e, s)"
  and lift_run [act_simps]: "lift r s = (r, s)"
  and getsA_run [act_simps]: "getsA f s = (Inr (f s), s)"
  and modifyA_run [act_simps]: "modifyA g s = (Inr (), g s)"
  by (simp_all add: ret_def throw_def lift_def getsA_def modifyA_def)

lemma bindA_run [act_simps]:
  "bindA m f s = (case m s of (Inl e, s') \<Rightarrow> (Inl e, s') | (Inr a, s') \<Rightarrow> f a s')"
  and thenA_run [act_simps]:
  "thenA m n s = (case m s of (Inl e, s') \<Rightarrow> (Inl e, s') | (Inr a, s') \<Rightarrow> n s')"
  and catchA_run [act_simps]:
  "catchA m h s = (case m s of (Inl e, s') \<Rightarrow> h e s' | (Inr a, s') \<Rightarrow> (Inr a, s'))"
  and catchSystemA_run [act_simps]:
  "catchSystemA m hs s =
     (case m s of
        (Inl e, s') \<Rightarrow> (case e of SystemError c w \<Rightarrow> hs c w s' | _ \<Rightarrow> (Inl e, s'))
      | (Inr a, s') \<Rightarrow> (Inr a, s'))"
  by (simp_all add: bindA_def thenA_def catchA_def catchSystemA_def)

text \<open>A handler that returns makes the whole block return.\<close>

lemma catchA_total:
  assumes "\<And>e s. \<exists>a s'. h e s = (Inr a, s')"
  shows "\<exists>a s'. catchA m h s = (Inr a, s')"
  using assms by (auto simp: catchA_def split: prod.splits sum.splits)

text \<open>
  Code that relates the states before and after it, on every outcome, by a preorder. Each use
  fixes the preorder; the rules follow the structure of the code.
\<close>

definition relA :: "('s \<Rightarrow> 's \<Rightarrow> bool) \<Rightarrow> ('s, 'a) act \<Rightarrow> bool" where
  "relA R m \<longleftrightarrow> (\<forall>s. R s (snd (m s)))"

locale state_order =
  fixes R :: "'s \<Rightarrow> 's \<Rightarrow> bool"
  assumes state_refl: "R s s"
    and state_trans: "R s1 s2 \<Longrightarrow> R s2 s3 \<Longrightarrow> R s1 s3"
begin

lemma rel_bindA:
  assumes "relA R m" and "\<And>a. relA R (f a)"
  shows "relA R (bindA m f)"
  unfolding relA_def
proof
  fix s
  obtain r s' where m: "m s = (r, s')" by (cases "m s")
  with assms(1) have "R s s'" unfolding relA_def by (metis snd_conv)
  moreover have "R s' (snd (f b s'))" for b using assms(2) unfolding relA_def by blast
  ultimately show "R s (snd (bindA m f s))" using m by (cases r) (auto simp: act_simps intro: state_trans)
qed

lemma rel_catchA:
  assumes "relA R m" and "\<And>e. relA R (h e)"
  shows "relA R (catchA m h)"
  unfolding relA_def
proof
  fix s
  obtain r s' where m: "m s = (r, s')" by (cases "m s")
  with assms(1) have "R s s'" unfolding relA_def by (metis snd_conv)
  moreover have "R s' (snd (h b s'))" for b using assms(2) unfolding relA_def by blast
  ultimately show "R s (snd (catchA m h s))" using m by (cases r) (auto simp: act_simps intro: state_trans)
qed

lemma rel_thenA: "relA R m \<Longrightarrow> relA R n \<Longrightarrow> relA R (thenA m n)"
  unfolding thenA_def by (rule rel_bindA)

lemma rel_simple: "relA R (ret a)" "relA R (lift r)" "relA R (throw e)" "relA R (getsA g)"
  by (simp_all add: relA_def act_simps state_refl)

lemma rel_if: "relA R m \<Longrightarrow> relA R n \<Longrightarrow> relA R (if c then m else n)"
  by simp

lemma rel_option: "relA R m \<Longrightarrow> (\<And>a. relA R (f a)) \<Longrightarrow> relA R (case x of None \<Rightarrow> m | Some a \<Rightarrow> f a)"
  by (cases x) simp_all

lemma rel_modifyA: "(\<And>s. R s (g s)) \<Longrightarrow> relA R (modifyA g)"
  by (simp add: relA_def act_simps)

lemmas rel_rules = rel_bindA rel_catchA rel_thenA rel_simple rel_if rel_option

end

section \<open>Durations\<close>

text \<open>\<^verbatim>\<open>duration_cast<seconds>\<close> of nanoseconds drops the fraction, towards zero.\<close>

definition duration_cast_seconds :: "int \<Rightarrow> int" where
  "duration_cast_seconds d = (if 0 \<le> d then d div 10 ^ 9 else - (- d div 10 ^ 9))"

section \<open>Separator loops\<close>

text \<open>
  The loop \<^verbatim>\<open>for (i = start; i < v.size(); ++i) { if (i > start) result += sep; result += v[i]; }\<close>
  as the sources write it, and the function it computes.
\<close>

fun sep_loop :: "string \<Rightarrow> nat \<Rightarrow> nat \<Rightarrow> string list \<Rightarrow> string \<Rightarrow> string" where
  "sep_loop sep start i [] result = result"
| "sep_loop sep start i (x # xs) result =
     sep_loop sep start (Suc i) xs ((if start < i then result @ sep else result) @ x)"

fun join_with :: "string \<Rightarrow> string list \<Rightarrow> string" where
  "join_with sep [] = []"
| "join_with sep [x] = x"
| "join_with sep (x # y # xs) = x @ sep @ join_with sep (y # xs)"

lemma sep_loop_later:
  "start < i \<Longrightarrow> sep_loop sep start i xs r = r @ concat (map (\<lambda>x. sep @ x) xs)"
  by (induction xs arbitrary: i r) auto

lemma join_with_Cons: "join_with sep (x # xs) = x @ concat (map (\<lambda>y. sep @ y) xs)"
  by (induction xs arbitrary: x) auto

lemma sep_loop_join: "sep_loop sep start start xs r = r @ join_with sep xs"
  by (cases xs) (simp_all add: sep_loop_later join_with_Cons)

end
