(* ===== verification/Logging.thy ===== *)
theory Logging
  imports Prelude
begin

text \<open>
  \<^verbatim>\<open>include/seraphbot/core/logging.hpp\<close> and \<^verbatim>\<open>src/core/logging.cpp\<close>: the log levels, the
  singleton \<^verbatim>\<open>Logger\<close> with its context stack, the construction of the sinks, and the scoped
  helper \<^verbatim>\<open>LogContext\<close> behind the macro \<^verbatim>\<open>LOG_CONTEXT\<close>.

  spdlog is a library outside the sources: the model keeps what the code asks of it, the sinks
  it builds and the lines it hands to \<^verbatim>\<open>spdlog::logger::log\<close>, in the order of the calls. A
  message is the text \<^verbatim>\<open>std::format\<close> has already produced.

  The other components call the logger only for its output; their models leave these calls out,
  since no value of theirs depends on it.
\<close>

section \<open>Levels\<close>

datatype LogLevel = Trace | Debug | Info | Warn | Error | Critical | Off

fun level_value :: "LogLevel \<Rightarrow> nat" where
  "level_value Trace = 0"
| "level_value Debug = 1"
| "level_value Info = 2"
| "level_value Warn = 3"
| "level_value Error = 4"
| "level_value Critical = 5"
| "level_value Off = 6"

lemma level_value_inj [simp]: "level_value a = level_value b \<longleftrightarrow> a = b"
  by (cases a; cases b) simp_all

instantiation LogLevel :: linorder
begin

definition less_eq_LogLevel :: "LogLevel \<Rightarrow> LogLevel \<Rightarrow> bool" where
  "less_eq_LogLevel a b \<longleftrightarrow> level_value a \<le> level_value b"

definition less_LogLevel :: "LogLevel \<Rightarrow> LogLevel \<Rightarrow> bool" where
  "less_LogLevel a b \<longleftrightarrow> level_value a < level_value b"

instance
  by standard (auto simp: less_eq_LogLevel_def less_LogLevel_def)

end

datatype spdlog_level =
  spd_trace | spd_debug | spd_info | spd_warn | spd_err | spd_critical | spd_off

fun toSpdlogLevel :: "LogLevel \<Rightarrow> spdlog_level" where
  "toSpdlogLevel Trace = spd_trace"
| "toSpdlogLevel Debug = spd_debug"
| "toSpdlogLevel Info = spd_info"
| "toSpdlogLevel Warn = spd_warn"
| "toSpdlogLevel Error = spd_err"
| "toSpdlogLevel Critical = spd_critical"
| "toSpdlogLevel Off = spd_off"

section \<open>Configuration, sinks and the logger\<close>

definition c_max_size :: nat where
  "c_max_size = 10 * 1024 * 1024"

definition c_max_files :: nat where
  "c_max_files = 5"

record Config =
  console_level :: LogLevel
  file_level :: LogLevel
  log_directory :: string
  log_filename :: string
  enable_console :: bool
  enable_file :: bool
  enable_rotation :: bool
  max_file_size :: nat
  max_files :: nat
  log_pattern :: string

definition Config_default :: Config where
  "Config_default = \<lparr>console_level = Info, file_level = Debug,
     log_directory = ''logs'', log_filename = ''seraphbot.log'',
     enable_console = True, enable_file = True, enable_rotation = True,
     max_file_size = c_max_size, max_files = c_max_files,
     log_pattern = ''[%Y-%m-%d %H:%M:%S.%e] [%n] [%^%l%$] [%t] %v''\<rparr>"

datatype sink =
    StdoutColorSink spdlog_level
  | RotatingFileSink string nat nat spdlog_level
  | BasicFileSink string bool spdlog_level

record spdlog_logger =
  logger_name :: string
  logger_sinks :: "sink list"
  logger_level :: spdlog_level
  logger_pattern :: string
  logged :: "(spdlog_level \<times> string) list"
  flushes :: nat

record Logger =
  m_logger :: "spdlog_logger option"
  m_context_stack :: "string list"
  m_current_level :: LogLevel
  default_logger :: "spdlog_logger option"

definition Logger_new :: Logger where
  "Logger_new = \<lparr>m_logger = None, m_context_stack = [], m_current_level = Info,
     default_logger = None\<rparr>"

definition setupSinks :: "Config \<Rightarrow> Logger \<Rightarrow> Logger" where
  "setupSinks config L =
     (let sinks = [];
          sinks = (if enable_console config
                   then sinks @ [StdoutColorSink (toSpdlogLevel (console_level config))]
                   else sinks);
          sinks = (if enable_file config
                   then let full_path = log_directory config @ ''/'' @ log_filename config
                        in if enable_rotation config
                           then sinks @ [RotatingFileSink full_path (max_file_size config)
                                           (max_files config) (toSpdlogLevel (file_level config))]
                           else sinks @ [BasicFileSink full_path True
                                           (toSpdlogLevel (file_level config))]
                   else sinks);
          lg = \<lparr>logger_name = ''sbot'', logger_sinks = sinks, logger_level = spd_trace,
                logger_pattern = log_pattern config, logged = [], flushes = 0\<rparr>
      in L\<lparr>m_logger := Some lg, default_logger := Some lg\<rparr>)"

definition Logger_init :: "Config \<Rightarrow> Logger \<Rightarrow> Logger" where
  "Logger_init config instance = setupSinks config instance"

definition pushContext :: "string \<Rightarrow> Logger \<Rightarrow> Logger" where
  "pushContext context L = L\<lparr>m_context_stack := m_context_stack L @ [context]\<rparr>"

definition popContext :: "Logger \<Rightarrow> Logger" where
  "popContext L =
     (if m_context_stack L \<noteq> [] then L\<lparr>m_context_stack := butlast (m_context_stack L)\<rparr> else L)"

definition withContext :: "string \<Rightarrow> Logger \<Rightarrow> Logger" where
  "withContext context L = pushContext context L"

definition context_prefix :: "string list \<Rightarrow> string" where
  "context_prefix stack = sep_loop ''::'' 0 0 stack ''['' @ ''] ''"

definition Logger_log :: "LogLevel \<Rightarrow> string \<Rightarrow> Logger \<Rightarrow> Logger" where
  "Logger_log level message L =
     (case m_logger L of
        None \<Rightarrow> L
      | Some lg \<Rightarrow>
          if level < m_current_level L then L
          else let full_message =
                     (if m_context_stack L \<noteq> [] then context_prefix (m_context_stack L) @ message
                      else message)
               in L\<lparr>m_logger := Some (lg\<lparr>logged := logged lg @
                                            [(toSpdlogLevel level, full_message)]\<rparr>)\<rparr>)"

definition Logger_trace :: "string \<Rightarrow> Logger \<Rightarrow> Logger" where
  "Logger_trace = Logger_log Trace"

definition Logger_debug :: "string \<Rightarrow> Logger \<Rightarrow> Logger" where
  "Logger_debug = Logger_log Debug"

definition Logger_info :: "string \<Rightarrow> Logger \<Rightarrow> Logger" where
  "Logger_info = Logger_log Info"

definition Logger_warn :: "string \<Rightarrow> Logger \<Rightarrow> Logger" where
  "Logger_warn = Logger_log Warn"

definition Logger_error :: "string \<Rightarrow> Logger \<Rightarrow> Logger" where
  "Logger_error = Logger_log Error"

definition Logger_critical :: "string \<Rightarrow> Logger \<Rightarrow> Logger" where
  "Logger_critical = Logger_log Critical"

definition setLevel :: "LogLevel \<Rightarrow> Logger \<Rightarrow> Logger" where
  "setLevel level L = L\<lparr>m_current_level := level\<rparr>"

definition getLevel :: "Logger \<Rightarrow> LogLevel" where
  "getLevel L = m_current_level L"

definition Logger_flush :: "Logger \<Rightarrow> Logger" where
  "Logger_flush L =
     (case m_logger L of None \<Rightarrow> L | Some lg \<Rightarrow> L\<lparr>m_logger := Some (lg\<lparr>flushes := Suc (flushes lg)\<rparr>)\<rparr>)"

text \<open>
  \<^verbatim>\<open>LogContext\<close> pushes in its constructor and pops in its destructor. A thread's use of the
  logger is a sequence of these two and of log calls.
\<close>

datatype log_event = CtxEnter string | CtxLeave | Emit LogLevel string

definition LogContext_ctor :: "string \<Rightarrow> Logger \<Rightarrow> Logger" where
  "LogContext_ctor context L = pushContext context L"

definition LogContext_dtor :: "Logger \<Rightarrow> Logger" where
  "LogContext_dtor L = popContext L"

fun log_step :: "log_event \<Rightarrow> Logger \<Rightarrow> Logger" where
  "log_step (CtxEnter c) L = LogContext_ctor c L"
| "log_step CtxLeave L = LogContext_dtor L"
| "log_step (Emit l msg) L = Logger_log l msg L"

fun log_run :: "log_event list \<Rightarrow> Logger \<Rightarrow> Logger" where
  "log_run [] L = L"
| "log_run (e # es) L = log_run es (log_step e L)"

section \<open>The contract of the context stack\<close>

text \<open>
  Block-structured use of the scopes: every scope that is entered is left again, inner ones
  first.
\<close>

inductive scoped :: "log_event list \<Rightarrow> bool" where
  scoped_Nil: "scoped []"
| scoped_Emit: "scoped [Emit l msg]"
| scoped_Block: "scoped es \<Longrightarrow> scoped (CtxEnter c # es @ [CtxLeave])"
| scoped_Append: "scoped es \<Longrightarrow> scoped fs \<Longrightarrow> scoped (es @ fs)"

locale context_stack =
  fixes stack :: "'l \<Rightarrow> string list"
    and enter :: "string \<Rightarrow> 'l \<Rightarrow> 'l"
    and leave :: "'l \<Rightarrow> 'l"
    and emit :: "LogLevel \<Rightarrow> string \<Rightarrow> 'l \<Rightarrow> 'l"
    and run :: "log_event list \<Rightarrow> 'l \<Rightarrow> 'l"
  assumes stack_enter: "stack (enter c x) = stack x @ [c]"
    and stack_leave: "stack (leave x) = butlast (stack x)"
    and stack_emit: "stack (emit l msg x) = stack x"
    and run_Nil: "run [] x = x"
    and run_enter: "run (CtxEnter c # es) x = run es (enter c x)"
    and run_leave: "run (CtxLeave # es) x = run es (leave x)"
    and run_emit: "run (Emit l msg # es) x = run es (emit l msg x)"
begin

lemma run_append: "run (es @ fs) x = run fs (run es x)"
proof (induction es arbitrary: x)
  case Nil
  then show ?case by (simp add: run_Nil)
next
  case (Cons e es)
  then show ?case by (cases e) (simp_all add: run_enter run_leave run_emit)
qed

lemma scoped_keeps_stack: "scoped es \<Longrightarrow> stack (run es x) = stack x"
  by (induction arbitrary: x rule: scoped.induct)
    (simp_all add: run_Nil run_enter run_leave run_emit run_append
       stack_enter stack_leave stack_emit)

lemma scoped_inside:
  "scoped es \<Longrightarrow> stack (run (CtxEnter c # es) x) = stack x @ [c]"
  by (simp add: run_enter scoped_keeps_stack stack_enter)

end

lemma stack_pushContext [simp]: "m_context_stack (pushContext c L) = m_context_stack L @ [c]"
  by (simp add: pushContext_def)

lemma stack_popContext [simp]: "m_context_stack (popContext L) = butlast (m_context_stack L)"
  by (simp add: popContext_def)

lemma stack_Logger_log [simp]: "m_context_stack (Logger_log l msg L) = m_context_stack L"
  by (simp add: Logger_log_def Let_def split: option.splits)

lemma level_Logger_log [simp]: "m_current_level (Logger_log l msg L) = m_current_level L"
  by (simp add: Logger_log_def Let_def split: option.splits)

interpretation log_ctx: context_stack m_context_stack LogContext_ctor LogContext_dtor Logger_log log_run
  by unfold_locales (simp_all add: LogContext_ctor_def LogContext_dtor_def)

section \<open>What is logged\<close>

definition lines :: "Logger \<Rightarrow> (spdlog_level \<times> string) list" where
  "lines L = (case m_logger L of None \<Rightarrow> [] | Some lg \<Rightarrow> logged lg)"

lemma context_prefix_join: "context_prefix stack = ''['' @ join_with ''::'' stack @ ''] ''"
  by (simp add: context_prefix_def sep_loop_join)

lemma lines_Logger_log:
  "lines (Logger_log l msg L) =
     lines L @ (if m_logger L \<noteq> None \<and> m_current_level L \<le> l
                then [(toSpdlogLevel l,
                       (if m_context_stack L = [] then msg
                        else ''['' @ join_with ''::'' (m_context_stack L) @ ''] '' @ msg))]
                else [])"
  by (auto simp: lines_def Logger_log_def Let_def context_prefix_join split: option.splits)

lemma m_logger_pushContext [simp]: "m_logger (pushContext c L) = m_logger L"
  by (simp add: pushContext_def)

lemma m_logger_popContext [simp]: "m_logger (popContext L) = m_logger L"
  by (simp add: popContext_def)

lemma level_pushContext [simp]: "m_current_level (pushContext c L) = m_current_level L"
  by (simp add: pushContext_def)

lemma level_popContext [simp]: "m_current_level (popContext L) = m_current_level L"
  by (simp add: popContext_def)

lemma m_logger_Logger_log [simp]: "m_logger (Logger_log l msg L) = None \<longleftrightarrow> m_logger L = None"
  by (simp add: Logger_log_def Let_def split: option.splits)

lemma lines_pushContext [simp]: "lines (pushContext c L) = lines L"
  by (simp add: lines_def)

lemma lines_popContext [simp]: "lines (popContext L) = lines L"
  by (simp add: lines_def)

lemma log_step_logger: "m_logger (log_step e L) = None \<longleftrightarrow> m_logger L = None"
  by (cases e) (simp_all add: LogContext_ctor_def LogContext_dtor_def)

lemmas log_state_simps = LogContext_ctor_def LogContext_dtor_def lines_Logger_log


text \<open>
  The lines a sequence of events should produce: each line that passes the level carries the
  scopes open at that point, outermost first.
\<close>

fun expected_lines :: "string list \<Rightarrow> LogLevel \<Rightarrow> log_event list \<Rightarrow> (spdlog_level \<times> string) list" where
  "expected_lines ctx lv [] = []"
| "expected_lines ctx lv (CtxEnter c # es) = expected_lines (ctx @ [c]) lv es"
| "expected_lines ctx lv (CtxLeave # es) = expected_lines (butlast ctx) lv es"
| "expected_lines ctx lv (Emit l msg # es) =
     (if lv \<le> l
      then [(toSpdlogLevel l,
             if ctx = [] then msg else ''['' @ join_with ''::'' ctx @ ''] '' @ msg)]
      else []) @ expected_lines ctx lv es"

lemma log_run_lines:
  "m_logger L \<noteq> None \<Longrightarrow>
   lines (log_run es L) = lines L @ expected_lines (m_context_stack L) (m_current_level L) es"
proof (induction es arbitrary: L)
  case Nil
  then show ?case by simp
next
  case (Cons e es)
  have "lines (log_run es (log_step e L)) =
      lines (log_step e L) @
      expected_lines (m_context_stack (log_step e L)) (m_current_level (log_step e L)) es"
    using Cons.prems by (intro Cons.IH) (simp add: log_step_logger)
  with Cons.prems show ?case by (cases e) (simp_all add: log_state_simps)
qed

section \<open>Properties\<close>

text \<open>
  C40: An initialised logger prints exactly the messages at or above the current level, each
  prefixed by the scopes open when it was logged, outermost first, joined by \<^verbatim>\<open>::\<close>; and a
  block-structured use of \<^verbatim>\<open>LOG_CONTEXT\<close> leaves the context stack as it found it.
\<close>

theorem logger_refines_scoped_lines:
  assumes "m_logger L \<noteq> None" and "scoped es"
  shows "lines (log_run es L) = lines L @ expected_lines (m_context_stack L) (getLevel L) es
     \<and> m_context_stack (log_run es L) = m_context_stack L"
  using log_run_lines [OF assms(1)] log_ctx.scoped_keeps_stack [OF assms(2)]
  by (simp add: getLevel_def)

theorem logger_refines_scoped_lines_witness:
  "lines (log_run [CtxEnter ''Main'', Emit Info ''a'', Emit Trace ''b'', CtxLeave]
            (Logger_init Config_default Logger_new)) = [(spd_info, ''[Main] a'')]"
proof -
  have sc: "scoped [CtxEnter ''Main'', Emit Info ''a'', Emit Trace ''b'', CtxLeave]"
    using scoped_Block [OF scoped_Append [OF scoped_Emit scoped_Emit]] by simp
  have "m_logger (Logger_init Config_default Logger_new) \<noteq> None"
    by (simp add: Logger_init_def setupSinks_def Let_def)
  from logger_refines_scoped_lines [OF this sc] show ?thesis
    by (simp add: Logger_init_def setupSinks_def Logger_new_def getLevel_def lines_def Let_def
        less_eq_LogLevel_def)
qed

text \<open>
  The context stack is shared by all threads, and leaving a scope removes the scope that was
  entered last, whoever entered it. When two scopes overlap without nesting (\<open>a\<close> is entered,
  then \<open>b\<close>, then \<open>a\<close> is left, as a coroutine that keeps a \<^verbatim>\<open>LOG_CONTEXT\<close> across a suspension
  does), a line logged while only \<open>b\<close> is open is printed under \<open>a\<close>.
\<close>

theorem overlapping_contexts_mislabel:
  assumes "m_logger L \<noteq> None" and "m_context_stack L = []" and "getLevel L \<le> l"
  shows "lines (log_run [CtxEnter a, CtxEnter b, CtxLeave, Emit l msg] L) =
           lines L @ [(toSpdlogLevel l, ''['' @ a @ ''] '' @ msg)]"
  using log_run_lines [OF assms(1)] assms(2,3) by (simp add: getLevel_def del: log_run.simps)

theorem overlapping_contexts_mislabel_witness:
  "lines (log_run [CtxEnter ''Twitch Auth'', CtxEnter ''Main'', CtxLeave, Emit Warn ''x'']
            (Logger_init Config_default Logger_new)) = [(spd_warn, ''[Twitch Auth] x'')]"
proof -
  let ?L = "Logger_init Config_default Logger_new"
  have "m_logger ?L \<noteq> None" and "m_context_stack ?L = []" and "getLevel ?L \<le> Warn"
    by (simp_all add: Logger_init_def setupSinks_def Logger_new_def getLevel_def Let_def
        less_eq_LogLevel_def)
  from overlapping_contexts_mislabel [OF this] show ?thesis
    by (simp add: Logger_init_def setupSinks_def lines_def Let_def)
qed

end
