(* ===== verification/Network.thy ===== *)
theory Network
  imports Prelude
begin

text \<open>
  What the networking code relies on, and \<^verbatim>\<open>ConnectionManager\<close>
  (\<^verbatim>\<open>include/seraphbot/core/connection_manager.hpp\<close>, \<^verbatim>\<open>src/core/connection_manager.cpp\<close>).

  Boost.Asio, Boost.Beast and OpenSSL are outside the sources. The calls made to them are
  recorded in order in a trace, and their answers are the parameter record \<open>net_env\<close>: each
  answer is a function of the trace so far, and may be an exception. A coroutine is the
  sequence of its steps; \<^verbatim>\<open>co_await\<close> is sequencing. The state of such code is a pair of the
  trace and the objects it works on.

  JSON values (nlohmann::json) are values of a type \<open>'j\<close> with the operations of the parameter
  record \<open>json_lib\<close>.
\<close>

named_theorems keeps_intros \<open>rules that show that code keeps a property of traces\<close>
named_theorems inv_intros \<open>rules that show that code keeps an invariant of its whole state\<close>

section \<open>JSON values\<close>

record 'j json_lib =
  json_parse :: "string \<Rightarrow> exn + 'j"
  json_dump :: "'j \<Rightarrow> exn + string"
  json_contains :: "'j \<Rightarrow> string \<Rightarrow> bool"
  json_index :: "'j \<Rightarrow> string \<Rightarrow> exn + 'j"
  json_index_nat :: "'j \<Rightarrow> nat \<Rightarrow> exn + 'j"
  json_at :: "'j \<Rightarrow> string \<Rightarrow> exn + 'j"
  json_get_string :: "'j \<Rightarrow> exn + string"
  json_get_int :: "'j \<Rightarrow> exn + int"
  json_value_string :: "'j \<Rightarrow> string \<Rightarrow> string \<Rightarrow> exn + string"
  json_value_int :: "'j \<Rightarrow> string \<Rightarrow> int \<Rightarrow> exn + int"
  json_is_array :: "'j \<Rightarrow> bool"
  json_empty :: "'j \<Rightarrow> bool"
  json_elems :: "'j \<Rightarrow> 'j list"
  json_eq :: "'j \<Rightarrow> 'j \<Rightarrow> bool"
  json_string :: "string \<Rightarrow> 'j"
  json_int :: "int \<Rightarrow> 'j"
  json_bool :: "bool \<Rightarrow> 'j"
  json_array :: "'j list \<Rightarrow> 'j"
  json_object :: "(string \<times> 'j) list \<Rightarrow> 'j"
  json_set :: "'j \<Rightarrow> string \<Rightarrow> 'j \<Rightarrow> 'j"

text \<open>\<^verbatim>\<open>j[k1][k2]...\<close> and \<^verbatim>\<open>j.at(k1).at(k2)...\<close>.\<close>

fun json_path :: "'j json_lib \<Rightarrow> 'j \<Rightarrow> string list \<Rightarrow> exn + 'j" where
  "json_path J j [] = Inr j"
| "json_path J j (k # ks) = bindE (json_index J j k) (\<lambda>i. json_path J i ks)"

fun json_at_path :: "'j json_lib \<Rightarrow> 'j \<Rightarrow> string list \<Rightarrow> exn + 'j" where
  "json_at_path J j [] = Inr j"
| "json_at_path J j (k # ks) = bindE (json_at J j k) (\<lambda>i. json_at_path J i ks)"

text \<open>A concrete instance for examples, with a table in place of the parser.\<close>

datatype jval = JNull | JBool bool | JInt int | JStr string | JArr "jval list" | JObj "(string \<times> jval) list"

fun jv_index :: "jval \<Rightarrow> string \<Rightarrow> exn + jval" where
  "jv_index (JObj kvs) k = Inr (case map_of kvs k of None \<Rightarrow> JNull | Some v \<Rightarrow> v)"
| "jv_index JNull k = Inr JNull"
| "jv_index j k = Inl (OtherException ''type_error'')"

fun jv_at :: "jval \<Rightarrow> string \<Rightarrow> exn + jval" where
  "jv_at (JObj kvs) k = (case map_of kvs k of None \<Rightarrow> Inl (OtherException ''out_of_range'') | Some v \<Rightarrow> Inr v)"
| "jv_at j k = Inl (OtherException ''type_error'')"

fun jv_string :: "jval \<Rightarrow> exn + string" where
  "jv_string (JStr s) = Inr s"
| "jv_string j = Inl (OtherException ''type_error'')"

fun jv_int :: "jval \<Rightarrow> exn + int" where
  "jv_int (JInt i) = Inr i"
| "jv_int j = Inl (OtherException ''type_error'')"

fun jv_contains :: "jval \<Rightarrow> string \<Rightarrow> bool" where
  "jv_contains (JObj kvs) k = (map_of kvs k \<noteq> None)"
| "jv_contains j k = False"

fun jv_elems :: "jval \<Rightarrow> jval list" where
  "jv_elems (JArr js) = js"
| "jv_elems (JObj kvs) = map snd kvs"
| "jv_elems JNull = []"
| "jv_elems j = [j]"

fun jv_nth :: "jval \<Rightarrow> nat \<Rightarrow> exn + jval" where
  "jv_nth (JArr js) i = Inr (if i < length js then js ! i else JNull)"
| "jv_nth JNull i = Inr JNull"
| "jv_nth j i = Inl (OtherException ''type_error'')"

fun jv_value :: "(jval \<Rightarrow> exn + 'a) \<Rightarrow> jval \<Rightarrow> string \<Rightarrow> 'a \<Rightarrow> exn + 'a" where
  "jv_value f (JObj kvs) k d = (case map_of kvs k of None \<Rightarrow> Inr d | Some v \<Rightarrow> f v)"
| "jv_value f j k d = Inl (OtherException ''type_error'')"

fun jv_set :: "jval \<Rightarrow> string \<Rightarrow> jval \<Rightarrow> jval" where
  "jv_set (JObj kvs) k v = JObj (kvs @ [(k, v)])"
| "jv_set j k v = j"

definition jval_lib :: "(string \<Rightarrow> jval option) \<Rightarrow> jval json_lib" where
  "jval_lib table =
     \<lparr>json_parse = (\<lambda>s. case table s of None \<Rightarrow> Inl (OtherException ''parse_error'') | Some j \<Rightarrow> Inr j),
      json_dump = (\<lambda>j. Inr ''{}''), json_contains = jv_contains, json_index = jv_index,
      json_index_nat = jv_nth, json_at = jv_at, json_get_string = jv_string, json_get_int = jv_int,
      json_value_string = jv_value jv_string, json_value_int = jv_value jv_int,
      json_is_array = (\<lambda>j. case j of JArr js \<Rightarrow> True | _ \<Rightarrow> False), json_empty = (\<lambda>j. jv_elems j = []),
      json_elems = jv_elems, json_eq = (=), json_string = JStr, json_int = JInt, json_bool = JBool,
      json_array = JArr, json_object = JObj, json_set = jv_set\<rparr>"

section \<open>The network\<close>

text \<open>
  An HTTP request: verb, target and version, the fields in the order of their insertion, the body,
  and whether \<^verbatim>\<open>prepare_payload\<close> was called.
\<close>

datatype verb = GET | POST

record http_request =
  req_verb :: verb
  req_target :: string
  req_version :: nat
  req_fields :: "(string \<times> string) list"
  req_body :: string
  req_prepared :: bool

record http_response =
  res_status :: nat
  res_location :: string
  res_body :: string

type_synonym stream = nat

datatype net_call =
    NewStream
  | Resolve string string
  | TcpConnect stream string string
  | SetSni stream string
  | TlsHandshake stream
  | HttpWrite stream http_request
  | HttpRead stream
  | TlsShutdown stream
  | WsHandshake stream string string
  | WsRead stream
  | WsWrite stream string
  | WsClose stream
  | TimerWait int
  | LaunchProcess string
  | Random
  | SystemNow
  | Spawn string

record net_env =
  net_fails :: "net_call list \<Rightarrow> net_call \<Rightarrow> exn option"
  net_response :: "net_call list \<Rightarrow> exn + http_response"
  net_frame :: "net_call list \<Rightarrow> exn + string"
  net_sni_ok :: "net_call list \<Rightarrow> bool"
  net_is_open :: "net_call list \<Rightarrow> bool"
  net_random :: "net_call list \<Rightarrow> nat"
  net_now :: "net_call list \<Rightarrow> int"

type_synonym 'a io = "net_call list \<times> 'a"

definition call :: "net_env \<Rightarrow> net_call \<Rightarrow> ('a io, unit) act" where
  "call N c = (\<lambda>(tr, x). (case net_fails N tr c of None \<Rightarrow> Inr () | Some e \<Rightarrow> Inl e, (tr @ [c], x)))"

definition ask :: "(net_call list \<Rightarrow> 'r) \<Rightarrow> net_call \<Rightarrow> ('a io, 'r) act" where
  "ask f c = (\<lambda>(tr, x). (Inr (f tr), (tr @ [c], x)))"

definition ask_or_throw :: "(net_call list \<Rightarrow> exn + 'r) \<Rightarrow> net_call \<Rightarrow> ('a io, 'r) act" where
  "ask_or_throw f c = (\<lambda>(tr, x). (f tr, (tr @ [c], x)))"

definition get_obj :: "('a io, 'a) act" where
  "get_obj = (\<lambda>(tr, x). (Inr x, (tr, x)))"

definition modify_obj :: "('a \<Rightarrow> 'a) \<Rightarrow> ('a io, unit) act" where
  "modify_obj f = (\<lambda>(tr, x). (Inr (), (tr, f x)))"

text \<open>Code on a part of the object.\<close>

definition zoomA :: "('b \<Rightarrow> 'a) \<Rightarrow> ('a \<Rightarrow> 'b \<Rightarrow> 'b) \<Rightarrow> ('a io, 'r) act \<Rightarrow> ('b io, 'r) act" where
  "zoomA get put m = (\<lambda>(tr, b). let (r, (tr', a)) = m (tr, get b) in (r, (tr', put a b)))"

lemma call_run [act_simps]:
  "call N c (tr, x) = (case net_fails N tr c of None \<Rightarrow> Inr () | Some e \<Rightarrow> Inl e, (tr @ [c], x))"
  and ask_run [act_simps]: "ask f c (tr, x) = (Inr (f tr), (tr @ [c], x))"
  and ask_or_throw_run [act_simps]: "ask_or_throw g c (tr, x) = (g tr, (tr @ [c], x))"
  and get_obj_run [act_simps]: "get_obj (tr, x) = (Inr x, (tr, x))"
  and modify_obj_run [act_simps]: "modify_obj h (tr, x) = (Inr (), (tr, h x))"
  and zoomA_run [act_simps]:
    "zoomA get put m (tr, x) = (fst (m (tr, get x)), (fst (snd (m (tr, get x))), put (snd (snd (m (tr, get x)))) x))"
  by (simp_all add: call_def ask_def ask_or_throw_def get_obj_def modify_obj_def zoomA_def
      split: prod.splits)

section \<open>Invariants of traces\<close>

text \<open>
  Code keeps a property of traces if it can only extend a trace that has it to one that has it.
  The rules follow the structure of the code.
\<close>

definition keeps :: "(net_call list \<Rightarrow> bool) \<Rightarrow> ('a io, 'r) act \<Rightarrow> bool" where
  "keeps P m \<longleftrightarrow> (\<forall>tr x. P tr \<longrightarrow> P (fst (snd (m (tr, x)))))"

lemma keepsD: "keeps P m \<Longrightarrow> P tr \<Longrightarrow> P (fst (snd (m (tr, x))))"
  by (simp add: keeps_def)

lemma keeps_bindA [keeps_intros]:
  assumes "keeps P m" and "\<And>a. keeps P (f a)"
  shows "keeps P (bindA m f)"
  unfolding keeps_def
proof (intro allI impI)
  fix tr x assume "P tr"
  obtain r tr' x' where m: "m (tr, x) = (r, (tr', x'))" by (metis prod.collapse)
  with assms(1) \<open>P tr\<close> have "P tr'" using keepsD [of P m tr x] by simp
  with m assms(2) show "P (fst (snd (bindA m f (tr, x))))"
    by (cases r) (auto simp: act_simps keeps_def)
qed

lemma keeps_thenA [keeps_intros]: "keeps P m \<Longrightarrow> keeps P n \<Longrightarrow> keeps P (thenA m n)"
  unfolding thenA_def by (rule keeps_bindA)

lemma keeps_catchA [keeps_intros]:
  assumes "keeps P m" and "\<And>e. keeps P (h e)"
  shows "keeps P (catchA m h)"
  unfolding keeps_def
proof (intro allI impI)
  fix tr x assume "P tr"
  obtain r tr' x' where m: "m (tr, x) = (r, (tr', x'))" by (metis prod.collapse)
  with assms(1) \<open>P tr\<close> have "P tr'" using keepsD [of P m tr x] by simp
  with m assms(2) show "P (fst (snd (catchA m h (tr, x))))"
    by (cases r) (auto simp: act_simps keeps_def)
qed

lemma keeps_catchSystemA [keeps_intros]:
  assumes "keeps P m" and "\<And>c w. keeps P (h c w)"
  shows "keeps P (catchSystemA m h)"
  unfolding keeps_def
proof (intro allI impI)
  fix tr x assume "P tr"
  obtain r tr' x' where m: "m (tr, x) = (r, (tr', x'))" by (metis prod.collapse)
  with assms(1) \<open>P tr\<close> have "P tr'" using keepsD [of P m tr x] by simp
  with m assms(2) show "P (fst (snd (catchSystemA m h (tr, x))))"
    by (cases r) (auto simp: act_simps keeps_def split: exn.splits)
qed

lemma keeps_simple [keeps_intros]:
  "keeps P (ret a)" "keeps P (throw e)" "keeps P (lift r)" "keeps P (get_obj :: ('a io, 'a) act)"
  "keeps P (modify_obj g)"
  by (simp_all add: keeps_def act_simps)

lemma keeps_zoomA [keeps_intros]: "keeps P m \<Longrightarrow> keeps P (zoomA get put m)"
  by (simp add: keeps_def act_simps)

lemma keeps_if [keeps_intros]:
  "(c \<Longrightarrow> keeps P m) \<Longrightarrow> (\<not> c \<Longrightarrow> keeps P n) \<Longrightarrow> keeps P (if c then m else n)"
  by simp

lemma keeps_call: "(\<And>tr. P tr \<Longrightarrow> P (tr @ [c])) \<Longrightarrow> keeps P (call N c)"
  "(\<And>tr. P tr \<Longrightarrow> P (tr @ [c])) \<Longrightarrow> keeps P (ask f c)"
  "(\<And>tr. P tr \<Longrightarrow> P (tr @ [c])) \<Longrightarrow> keeps P (ask_or_throw g c)"
  by (simp_all add: keeps_def act_simps)

text \<open>
  The same for an invariant of the whole state, which may relate the trace and the objects. Code
  that reads the objects may use what the invariant says of them.
\<close>

definition invA :: "('s \<Rightarrow> bool) \<Rightarrow> ('s, 'r) act \<Rightarrow> bool" where
  "invA I m \<longleftrightarrow> (\<forall>s. I s \<longrightarrow> I (snd (m s)))"

lemma invA_D: "invA I m \<Longrightarrow> I s \<Longrightarrow> I (snd (m s))"
  by (simp add: invA_def)

lemma invA_bindA [inv_intros]: "invA I m \<Longrightarrow> (\<And>a. invA I (f a)) \<Longrightarrow> invA I (bindA m f)"
  by (fastforce simp: invA_def act_simps split: prod.splits sum.splits dest: spec)

lemma invA_thenA [inv_intros]: "invA I m \<Longrightarrow> invA I n \<Longrightarrow> invA I (thenA m n)"
  unfolding thenA_def by (rule invA_bindA)

lemma invA_catchA [inv_intros]: "invA I m \<Longrightarrow> (\<And>e. invA I (h e)) \<Longrightarrow> invA I (catchA m h)"
  by (fastforce simp: invA_def act_simps split: prod.splits sum.splits dest: spec)

lemma invA_simple [inv_intros]: "invA I (ret a)" "invA I (throw e)" "invA I (lift r)"
  by (simp_all add: invA_def act_simps)

lemma invA_if [inv_intros]:
  "(c \<Longrightarrow> invA I m) \<Longrightarrow> (\<not> c \<Longrightarrow> invA I n) \<Longrightarrow> invA I (if c then m else n)"
  by simp

lemma invA_get_obj:
  "(\<And>tr x. I (tr, x) \<Longrightarrow> invA I (f x)) \<Longrightarrow> invA I (bindA get_obj f)"
  by (simp add: invA_def act_simps)

lemma invA_modify_obj: "(\<And>tr x. I (tr, x) \<Longrightarrow> I (tr, g x)) \<Longrightarrow> invA I (modify_obj g)"
  by (simp add: invA_def act_simps)

lemma invA_keeps:
  assumes "keeps P m" and "\<And>s. snd (snd (m s)) = snd s"
  shows "invA (\<lambda>(tr, x). P tr \<and> Q x) m"
  unfolding invA_def
proof (intro allI impI)
  fix s assume "case s of (tr, x) \<Rightarrow> P tr \<and> Q x"
  with assms(1) assms(2) [of s] show "case snd (m s) of (tr, x) \<Rightarrow> P tr \<and> Q x"
    using keepsD [of P m "fst s" "snd s"] by (simp add: case_prod_beta)
qed

lemma invA_keeps_fst: "keeps P m \<Longrightarrow> invA (\<lambda>(tr, x). P tr) m"
  by (simp add: invA_def keeps_def case_prod_beta)

section \<open>The connection manager\<close>

text \<open>
  The objects it owns, as far as the sources set them up: the options of the TLS context, the
  work guard, whether the I/O context is stopped, and the threads of the pool, by their index.
  \<open>cm_joined\<close> lists the threads that were joined.
\<close>

datatype ssl_option = DefaultWorkarounds | NoSslv2 | NoSslv3 | NoTlsv1 | NoTlsv1_1

record ConnectionManager =
  cm_io_stopped :: bool
  cm_ssl_options :: "ssl_option list"
  cm_verify_peer :: bool
  cm_default_verify_paths :: bool
  m_work_guard :: bool
  m_thread_pool :: "nat list"
  cm_joined :: "nat list"
  m_thread_count :: nat

fun start_loop :: "nat list \<Rightarrow> ConnectionManager \<Rightarrow> ConnectionManager" where
  "start_loop [] C = C"
| "start_loop (i # is) C = start_loop is (C\<lparr>m_thread_pool := m_thread_pool C @ [i]\<rparr>)"

definition ConnectionManager_new :: "nat \<Rightarrow> ConnectionManager" where
  "ConnectionManager_new thread_count =
     (let C = \<lparr>cm_io_stopped = False, cm_ssl_options = [], cm_verify_peer = False,
               cm_default_verify_paths = False, m_work_guard = False, m_thread_pool = [],
               cm_joined = [], m_thread_count = thread_count\<rparr>;
          C1 = C\<lparr>cm_ssl_options := [DefaultWorkarounds, NoSslv2, NoSslv3, NoTlsv1, NoTlsv1_1]\<rparr>;
          C2 = C1\<lparr>cm_verify_peer := True\<rparr>;
          C3 = C2\<lparr>cm_default_verify_paths := True\<rparr>;
          C4 = C3\<lparr>m_work_guard := True\<rparr>
      in start_loop [0..<m_thread_count C4] C4)"

text \<open>
  The body of a thread of the pool, for the outcome of \<^verbatim>\<open>io_context::run\<close>: an exception of a
  handler ends the thread and goes no further.
\<close>

definition io_thread :: "exn + unit \<Rightarrow> exn + unit" where
  "io_thread run_result = (case run_result of Inr u \<Rightarrow> Inr u | Inl err \<Rightarrow> Inr ())"

fun join_loop :: "nat list \<Rightarrow> ConnectionManager \<Rightarrow> ConnectionManager" where
  "join_loop [] C = C"
| "join_loop (t # ts) C = join_loop ts (if t \<notin> set (cm_joined C) then C\<lparr>cm_joined := cm_joined C @ [t]\<rparr> else C)"

definition ConnectionManager_dtor :: "ConnectionManager \<Rightarrow> ConnectionManager" where
  "ConnectionManager_dtor C =
     (let C1 = C\<lparr>m_work_guard := False\<rparr>;
          C2 = C1\<lparr>cm_io_stopped := True\<rparr>;
          C3 = join_loop (m_thread_pool C2) C2
      in C3\<lparr>m_thread_pool := []\<rparr>)"

lemma start_loop_eq: "start_loop is C = C\<lparr>m_thread_pool := m_thread_pool C @ is\<rparr>"
  by (induction "is" arbitrary: C) simp_all

lemma join_loop_eq:
  "distinct ts \<Longrightarrow> set ts \<inter> set (cm_joined C) = {} \<Longrightarrow>
   join_loop ts C = C\<lparr>cm_joined := cm_joined C @ ts\<rparr>"
  by (induction ts arbitrary: C) auto

text \<open>Every thread started is joined, once, after the work guard is gone and the context stopped.\<close>

lemma threads_joined:
  "ConnectionManager_dtor (ConnectionManager_new n) =
     (ConnectionManager_new n)\<lparr>m_work_guard := False, cm_io_stopped := True, m_thread_pool := [],
        cm_joined := [0..<n]\<rparr>"
  by (simp add: ConnectionManager_dtor_def ConnectionManager_new_def start_loop_eq join_loop_eq Let_def)

text \<open>The name of a stream is the position of its creation in the trace.\<close>

definition makeSslStreamAsync :: "net_env \<Rightarrow> string \<Rightarrow> string \<Rightarrow> ('a io, stream) act" where
  "makeSslStreamAsync N host port =
     bindA (ask length NewStream) (\<lambda>stream.
     thenA (call N (Resolve host port)) (
     thenA (call N (TcpConnect stream host port)) (
     bindA (ask (net_sni_ok N) (SetSni stream host)) (\<lambda>sni_set.
       if \<not> sni_set then throw (RuntimeError ''Failed to set SNI'')
       else ret stream))))"

definition connect_calls :: "stream \<Rightarrow> string \<Rightarrow> string \<Rightarrow> net_call list" where
  "connect_calls s host port = [NewStream, Resolve host port, TcpConnect s host port, SetSni s host]"

text \<open>
  It makes these calls in this order up to the first one that fails, touches no object, and
  returns the fresh stream exactly if all of them succeed.
\<close>

lemma makeSslStreamAsync_run:
  "\<exists>k r. makeSslStreamAsync N host port (tr, x) =
      (r, (tr @ take k (connect_calls (length tr) host port), x)) \<and>
     (r = Inr (length tr) \<and> k = 4 \<or> (\<exists>e. r = Inl e))"
proof -
  let ?c = "connect_calls (length tr) host port"
  have 2: "take 2 ?c = [NewStream, Resolve host port]"
    and 3: "take 3 ?c = [NewStream, Resolve host port, TcpConnect (length tr) host port]"
    and 4: "take 4 ?c = ?c" by (simp_all add: connect_calls_def)
  consider (a) e where "net_fails N (tr @ [NewStream]) (Resolve host port) = Some e"
    | (b) e where "net_fails N (tr @ [NewStream]) (Resolve host port) = None"
        "net_fails N (tr @ take 2 ?c) (TcpConnect (length tr) host port) = Some e"
    | (c) "net_fails N (tr @ [NewStream]) (Resolve host port) = None"
        "net_fails N (tr @ take 2 ?c) (TcpConnect (length tr) host port) = None"
    by (cases "net_fails N (tr @ [NewStream]) (Resolve host port)";
        cases "net_fails N (tr @ take 2 ?c) (TcpConnect (length tr) host port)") auto
  then show ?thesis
  proof cases
    case a
    then show ?thesis by (intro exI [of _ 2]) (simp add: makeSslStreamAsync_def act_simps 2)
  next
    case b
    then show ?thesis by (intro exI [of _ 3]) (simp add: makeSslStreamAsync_def act_simps 2 3)
  next
    case c
    then show ?thesis
      by (intro exI [of _ 4]) (simp add: makeSslStreamAsync_def act_simps 2 connect_calls_def)
  qed
qed

end
