(* ===== verification/Http_Client.thy ===== *)
theory Http_Client
  imports Network
begin

text \<open>
  \<^verbatim>\<open>include/seraphbot/tw/config.hpp\<close> and \<^verbatim>\<open>src/tw/config.cpp\<close>: the client configuration and
  the two HTTPS functions that talk to the Twitch API and to Discord.
\<close>

section \<open>Configuration\<close>

record ClientConfig =
  cfg_host :: string
  cfg_port :: string
  helix_host :: string
  helix_port :: string
  cfg_client_id :: string
  cfg_access_token :: string
  cfg_broadcaster_id :: string

definition ClientConfig_default :: ClientConfig where
  "ClientConfig_default =
     \<lparr>cfg_host = ''eventsub.wss.twitch.tv'', cfg_port = ''443'',
      helix_host = ''api.twitch.tv'', helix_port = ''443'',
      cfg_client_id = [], cfg_access_token = [], cfg_broadcaster_id = []\<rparr>"

definition stripOauthPrefix :: "string \<Rightarrow> string" where
  "stripOauthPrefix token = (if starts_with token ''oauth:'' then drop 6 token else token)"

section \<open>Requests\<close>

text \<open>\<^verbatim>\<open>set\<close> of Beast replaces all fields of the name, whose case does not matter.\<close>

definition req_set :: "string \<Rightarrow> string \<Rightarrow> http_request \<Rightarrow> http_request" where
  "req_set name value req =
     req\<lparr>req_fields :=
           filter (\<lambda>(n, v). transform_tolower n \<noteq> transform_tolower name) (req_fields req) @ [(name, value)]\<rparr>"

fun header_loop :: "(string \<times> string) list \<Rightarrow> http_request \<Rightarrow> http_request" where
  "header_loop [] req = req"
| "header_loop (head # headers) req = header_loop headers (req_set (fst head) (snd head) req)"

definition post_request :: "string \<Rightarrow> string \<Rightarrow> string \<Rightarrow> (string \<times> string) list \<Rightarrow> http_request" where
  "post_request host target body headers =
     (let req = \<lparr>req_verb = POST, req_target = target, req_version = 11, req_fields = [],
                 req_body = [], req_prepared = False\<rparr>;
          req = req_set ''Host'' host req;
          req = req_set ''User-Agent'' ''seraphbot-eventsub/0.1'' req;
          req = req_set ''Content-Type'' ''application/json'' req;
          req = req_set ''Connection'' ''close'' req;
          req = header_loop headers req
      in req\<lparr>req_body := body, req_prepared := True\<rparr>)"

definition get_request :: "string \<Rightarrow> string \<Rightarrow> (string \<times> string) list \<Rightarrow> http_request" where
  "get_request host target headers =
     (let req = \<lparr>req_verb = GET, req_target = target, req_version = 11, req_fields = [],
                 req_body = [], req_prepared = False\<rparr>;
          req = req_set ''Host'' host req;
          req = req_set ''User-Agent'' ''seraphbot-eventsub/0.1'' req;
          req = req_set ''Connection'' ''close'' req
      in header_loop headers req)"

section \<open>The exchange\<close>

definition httpsPostAsync ::
    "net_env \<Rightarrow> string \<Rightarrow> string \<Rightarrow> string \<Rightarrow> string \<Rightarrow> (string \<times> string) list \<Rightarrow> ('a io, string) act" where
  "httpsPostAsync N host port target body headers =
     bindA (makeSslStreamAsync N host port) (\<lambda>stream.
     thenA (call N (TlsHandshake stream)) (
     thenA (call N (HttpWrite stream (post_request host target body headers))) (
     bindA (ask_or_throw (net_response N) (HttpRead stream)) (\<lambda>res.
       let response_body = res_body res
       in thenA (catchSystemA (call N (TlsShutdown stream)) (\<lambda>code what. ret ()))
            (ret response_body)))))"

definition httpsGetAsync ::
    "net_env \<Rightarrow> string \<Rightarrow> string \<Rightarrow> string \<Rightarrow> (string \<times> string) list \<Rightarrow> ('a io, string) act" where
  "httpsGetAsync N host port target headers =
     bindA (makeSslStreamAsync N host port) (\<lambda>stream.
     thenA (call N (TlsHandshake stream)) (
     thenA (call N (HttpWrite stream (get_request host target headers))) (
     bindA (ask_or_throw (net_response N) (HttpRead stream)) (\<lambda>res.
       let response_body = res_body res
       in thenA (catchSystemA (call N (TlsShutdown stream)) (\<lambda>code what. ret ()))
            (ret response_body)))))"

text \<open>What both have in common, and what \<^verbatim>\<open>Auth::getHttpAsync\<close> does up to the shutdown.\<close>

definition exchange :: "net_env \<Rightarrow> string \<Rightarrow> string \<Rightarrow> http_request \<Rightarrow> ('a io, http_response) act" where
  "exchange N host port req =
     bindA (makeSslStreamAsync N host port) (\<lambda>stream.
     thenA (call N (TlsHandshake stream)) (
     thenA (call N (HttpWrite stream req)) (
     bindA (ask_or_throw (net_response N) (HttpRead stream)) (\<lambda>res.
       thenA (catchSystemA (call N (TlsShutdown stream)) (\<lambda>code what. ret ())) (ret res)))))"

lemma https_exchange:
  "httpsPostAsync N host port target body headers =
     bindA (exchange N host port (post_request host target body headers)) (\<lambda>res. ret (res_body res))"
  "httpsGetAsync N host port target headers =
     bindA (exchange N host port (get_request host target headers)) (\<lambda>res. ret (res_body res))"
  unfolding httpsPostAsync_def httpsGetAsync_def exchange_def Let_def
  by (auto simp: fun_eq_iff act_simps split: prod.splits sum.splits)

definition exchange_calls :: "stream \<Rightarrow> string \<Rightarrow> string \<Rightarrow> http_request \<Rightarrow> net_call list" where
  "exchange_calls s host port req =
     connect_calls s host port @ [TlsHandshake s, HttpWrite s req, HttpRead s, TlsShutdown s]"

lemma exchange_calls_take:
  assumes "k \<le> 4"
  shows "take k (exchange_calls s h p req) = take k (connect_calls s h p)"
    "take 4 (exchange_calls s h p req) = connect_calls s h p"
    "take 5 (exchange_calls s h p req) = connect_calls s h p @ [TlsHandshake s]"
    "take 6 (exchange_calls s h p req) = connect_calls s h p @ [TlsHandshake s, HttpWrite s req]"
    "take 7 (exchange_calls s h p req) = connect_calls s h p @ [TlsHandshake s, HttpWrite s req, HttpRead s]"
    "take 8 (exchange_calls s h p req) =
       connect_calls s h p @ [TlsHandshake s, HttpWrite s req, HttpRead s, TlsShutdown s]"
proof -
  have l: "length (connect_calls s h p) = 4" by (simp add: connect_calls_def)
  show "take k (exchange_calls s h p req) = take k (connect_calls s h p)"
    using assms by (simp add: exchange_calls_def l)
qed (simp_all add: exchange_calls_def connect_calls_def)

text \<open>
  An exchange makes these calls in this order up to the first that fails; it writes the request
  only after the TLS handshake on the same stream has succeeded, and it returns only a response
  that was read, after the attempt to shut the stream down.
\<close>

definition exchange_outcome ::
    "net_env \<Rightarrow> net_call list \<Rightarrow> string \<Rightarrow> string \<Rightarrow> http_request \<Rightarrow> nat \<Rightarrow> exn + http_response \<Rightarrow> bool" where
  "exchange_outcome N tr host port req k r \<longleftrightarrow>
     (let cs = exchange_calls (length tr) host port req
      in (6 \<le> k \<longrightarrow> net_fails N (tr @ take 4 cs) (TlsHandshake (length tr)) = None) \<and>
         (case r of
            Inr res \<Rightarrow> k = 8 \<and> net_response N (tr @ take 6 cs) = Inr res
          | Inl e \<Rightarrow> True))"

lemma exchange_run:
  "\<exists>k r. exchange N host port req (tr, x) = (r, (tr @ take k (exchange_calls (length tr) host port req), x)) \<and>
     exchange_outcome N tr host port req k r"
proof -
  let ?s = "length tr" and ?c = "exchange_calls (length tr) host port req"
  let ?tr = "tr @ connect_calls ?s host port"
  obtain k r where m: "makeSslStreamAsync N host port (tr, x) =
      (r, (tr @ take k (connect_calls ?s host port), x))"
    and r: "r = Inr ?s \<and> k = 4 \<or> (\<exists>e. r = Inl e)"
    using makeSslStreamAsync_run [of N host port tr x] by blast
  note run = exchange_def act_simps exchange_outcome_def Let_def exchange_calls_take [OF le0]
  show ?thesis
  proof (cases r)
    case (Inl e)
    have "take k (connect_calls ?s host port) = take (min k 4) ?c"
      by (simp add: exchange_calls_def connect_calls_def take_Cons' min_def)
    with Inl m show ?thesis
      by (intro exI [of _ "min k 4"] exI [of _ "Inl e"]) (simp add: run)
  next
    case (Inr s)
    with r have s: "s = ?s" and k: "take k (connect_calls ?s host port) = connect_calls ?s host port"
      by (auto simp: connect_calls_def)
    note m = m [unfolded Inr s k]
    show ?thesis
    proof (cases "net_fails N ?tr (TlsHandshake ?s)")
      case (Some e)
      then show ?thesis by (intro exI [of _ 5] exI [of _ "Inl e"]) (simp add: run m)
    next
      case hs: None
      show ?thesis
      proof (cases "net_fails N (?tr @ [TlsHandshake ?s]) (HttpWrite ?s req)")
        case (Some e)
        with hs show ?thesis by (intro exI [of _ 6] exI [of _ "Inl e"]) (simp add: run m)
      next
        case wr: None
        show ?thesis
        proof (cases "net_response N (?tr @ [TlsHandshake ?s, HttpWrite ?s req])")
          case (Inl e)
          with hs wr show ?thesis by (intro exI [of _ 7] exI [of _ "Inl e"]) (simp add: run m)
        next
          case (Inr res)
          with hs wr show ?thesis
            by (intro exI [of _ 8]) (auto simp: run m split: option.splits exn.splits)
        qed
      qed
    qed
  qed
qed

section \<open>Where tokens go\<close>

text \<open>
  A request with an \<^verbatim>\<open>Authorization\<close> field carries the user's token. The trace is confined to a
  host if every such request is written to a stream that was connected to that host and no
  other, with the host as its server name, after a TLS handshake.
\<close>

definition carries_token :: "http_request \<Rightarrow> bool" where
  "carries_token req \<longleftrightarrow> list_ex (\<lambda>(n, v). transform_tolower n = ''authorization'') (req_fields req)"

fun stream_of :: "net_call \<Rightarrow> stream option" where
  "stream_of (TcpConnect s h p) = Some s"
| "stream_of (SetSni s h) = Some s"
| "stream_of (TlsHandshake s) = Some s"
| "stream_of (HttpWrite s req) = Some s"
| "stream_of (HttpRead s) = Some s"
| "stream_of (TlsShutdown s) = Some s"
| "stream_of c = None"

definition confined :: "string \<Rightarrow> net_call list \<Rightarrow> bool" where
  "confined h tr \<longleftrightarrow>
     (\<forall>c \<in> set tr. \<forall>s. stream_of c = Some s \<longrightarrow> s < length tr) \<and>
     (\<forall>s req. HttpWrite s req \<in> set tr \<and> carries_token req \<longrightarrow>
        (\<forall>h' p. TcpConnect s h' p \<in> set tr \<longrightarrow> h' = h) \<and>
        (\<exists>p. TcpConnect s h p \<in> set tr) \<and> SetSni s h \<in> set tr \<and> TlsHandshake s \<in> set tr)"

lemma confined_Nil: "confined h []"
  by (simp add: confined_def)

lemma confined_append:
  assumes "confined h tr"
    and "\<And>c s. c \<in> set cs \<Longrightarrow> stream_of c = Some s \<Longrightarrow> s = length tr"
    and "\<And>s req. HttpWrite s req \<in> set cs \<Longrightarrow> carries_token req \<Longrightarrow>
      (\<forall>h' p. TcpConnect s h' p \<in> set cs \<longrightarrow> h' = h) \<and> (\<exists>p. TcpConnect s h p \<in> set cs) \<and>
      SetSni s h \<in> set cs \<and> TlsHandshake s \<in> set cs"
  shows "confined h (tr @ cs)"
proof (cases "cs = []")
  case False
  have old: "s < length tr" if "c \<in> set tr" "stream_of c = Some s" for c s
    using assms(1) that by (auto simp: confined_def)
  have new: "s = length tr" if "c \<in> set cs" "stream_of c = Some s" for c s
    using assms(2) that by blast
  have 1: "s < length (tr @ cs)" if "c \<in> set (tr @ cs)" "stream_of c = Some s" for c s
    using that False old new by (fastforce simp: less_Suc_eq)
  have 2: "(\<forall>h' p. TcpConnect s h' p \<in> set (tr @ cs) \<longrightarrow> h' = h) \<and> (\<exists>p. TcpConnect s h p \<in> set (tr @ cs)) \<and>
      SetSni s h \<in> set (tr @ cs) \<and> TlsHandshake s \<in> set (tr @ cs)"
    if w: "HttpWrite s req \<in> set (tr @ cs)" "carries_token req" for s req
  proof (cases "HttpWrite s req \<in> set tr")
    case True
    then have "s < length tr" using old [of "HttpWrite s req" s] by simp
    then have "TcpConnect s h' p \<notin> set cs" for h' p using new [of "TcpConnect s h' p" s] by auto
    moreover have "(\<forall>h' p. TcpConnect s h' p \<in> set tr \<longrightarrow> h' = h) \<and> (\<exists>p. TcpConnect s h p \<in> set tr) \<and>
        SetSni s h \<in> set tr \<and> TlsHandshake s \<in> set tr"
      using assms(1) True w(2) unfolding confined_def by blast
    ultimately show ?thesis by auto
  next
    case False
    then have c: "HttpWrite s req \<in> set cs" using w by simp
    then have "s = length tr" using new [of "HttpWrite s req" s] by simp
    then have "TcpConnect s h' p \<notin> set tr" for h' p using old [of "TcpConnect s h' p" s] by auto
    then show ?thesis using assms(3) [OF c w(2)] by auto
  qed
  show ?thesis unfolding confined_def using 1 2 by blast
qed (use assms(1) in simp)

lemma confined_other:
  assumes "confined h tr" and "stream_of c = None"
  shows "confined h (tr @ [c])"
proof (rule confined_append [OF assms(1)])
  fix s req assume "HttpWrite s req \<in> set [c]"
  then show "(\<forall>h' p. TcpConnect s h' p \<in> set [c] \<longrightarrow> h' = h) \<and> (\<exists>p. TcpConnect s h p \<in> set [c]) \<and>
      SetSni s h \<in> set [c] \<and> TlsHandshake s \<in> set [c]" using assms(2) by auto
qed (use assms(2) in auto)

lemma confined_exchange_calls:
  assumes "confined h tr" and "carries_token req \<Longrightarrow> host = h"
  shows "confined h (tr @ take k (exchange_calls (length tr) host port req))"
proof (rule confined_append [OF assms(1)])
  fix c s
  assume "c \<in> set (take k (exchange_calls (length tr) host port req))" "stream_of c = Some s"
  then show "s = length tr"
    by (auto dest!: in_set_takeD simp: exchange_calls_def connect_calls_def)
next
  fix s req'
  let ?cs = "take k (exchange_calls (length tr) host port req)"
  assume w: "HttpWrite s req' \<in> set ?cs" "carries_token req'"
  then have s: "s = length tr" "req' = req"
    by (auto dest!: in_set_takeD simp: exchange_calls_def connect_calls_def)
  with w have "6 \<le> k"
    by (auto simp: exchange_calls_def connect_calls_def take_Cons' split: if_splits)
  then have "set (take 6 (exchange_calls (length tr) host port req)) \<subseteq> set ?cs"
    by (rule set_take_subset_set_take)
  moreover have "TcpConnect s h' p \<in> set ?cs \<Longrightarrow> h' = host" for h' p
    by (auto dest!: in_set_takeD simp: exchange_calls_def connect_calls_def)
  ultimately show "(\<forall>h' p. TcpConnect s h' p \<in> set ?cs \<longrightarrow> h' = h) \<and> (\<exists>p. TcpConnect s h p \<in> set ?cs) \<and>
      SetSni s h \<in> set ?cs \<and> TlsHandshake s \<in> set ?cs"
    using assms(2) w(2) s by (auto simp: exchange_calls_def connect_calls_def)
qed

lemma exchange_keeps_confined:
  assumes "carries_token req \<Longrightarrow> host = h"
  shows "keeps (confined h) (exchange N host port req)"
  unfolding keeps_def
proof (intro allI impI)
  fix tr :: "net_call list" and x :: 'a
  assume "confined h tr"
  then show "confined h (fst (snd (exchange N host port req (tr, x))))"
    using exchange_run [of N host port req tr x] confined_exchange_calls [OF _ assms] by fastforce
qed

lemma makeSslStream_keeps_confined: "keeps (confined h) (makeSslStreamAsync N host port)"
  unfolding keeps_def
proof (intro allI impI)
  fix tr :: "net_call list" and x :: 'a
  assume c: "confined h tr"
  let ?req = "\<lparr>req_verb = GET, req_target = [], req_version = 11, req_fields = [], req_body = [],
    req_prepared = False\<rparr>"
  obtain k r where m: "makeSslStreamAsync N host port (tr, x) =
      (r, (tr @ take k (connect_calls (length tr) host port), x))"
    using makeSslStreamAsync_run [of N host port tr x] by blast
  have "take k (connect_calls (length tr) host port) = take (min k 4) (exchange_calls (length tr) host port ?req)"
    by (simp add: exchange_calls_def connect_calls_def take_Cons' min_def)
  with c m show "confined h (fst (snd (makeSslStreamAsync N host port (tr, x))))"
    using confined_exchange_calls [of h tr ?req host "min k 4" port] by (simp add: carries_token_def)
qed

text \<open>The same as invariants of the whole state, with a condition on the objects.\<close>

abbreviation confined_with :: "string \<Rightarrow> ('a \<Rightarrow> bool) \<Rightarrow> 'a io \<Rightarrow> bool" where
  "confined_with h Q \<equiv> (\<lambda>(tr, x). confined h tr \<and> Q x)"

lemma confined_call [inv_intros]:
  "stream_of c = None \<Longrightarrow> invA (confined_with h Q) (call N c)"
  "stream_of c = None \<Longrightarrow> invA (confined_with h Q) (ask f c)"
  "stream_of c = None \<Longrightarrow> invA (confined_with h Q) (ask_or_throw g c)"
  by (auto simp: invA_def act_simps confined_other)

lemma confined_handshake:
  assumes "confined h tr" and "s < length tr"
  shows "confined h (tr @ [TlsHandshake s])"
  using assms unfolding confined_def by (auto simp: less_Suc_eq)

lemma invA_makeSslStream:
  assumes "\<And>s. invA (\<lambda>(tr, x). confined h tr \<and> s < length tr \<and> Q x) (f s)"
  shows "invA (confined_with h Q) (bindA (makeSslStreamAsync N host port) f)"
  unfolding invA_def
proof (intro allI impI)
  fix st :: "'a io"
  assume I: "confined_with h Q st"
  obtain tr x where st: "st = (tr, x)" by (cases st)
  obtain k r where m: "makeSslStreamAsync N host port (tr, x) =
      (r, (tr @ take k (connect_calls (length tr) host port), x))"
    and r: "r = Inr (length tr) \<and> k = 4 \<or> (\<exists>e. r = Inl e)"
    using makeSslStreamAsync_run [of N host port tr x] by blast
  have c: "confined h (tr @ take k (connect_calls (length tr) host port))"
    using I keepsD [OF makeSslStream_keeps_confined, of h tr N host port x] by (simp add: st m)
  show "confined_with h Q (snd (bindA (makeSslStreamAsync N host port) f st))"
  proof (cases r)
    case (Inl e)
    with c I show ?thesis by (simp add: st m act_simps)
  next
    case (Inr s)
    with r have "s = length tr" "k = 4" by auto
    with Inr c I invA_D [OF assms, of s "(tr @ take k (connect_calls (length tr) host port), x)"]
    show ?thesis by (simp add: st m act_simps connect_calls_def case_prod_beta)
  qed
qed

lemma carries_token_set [simp]:
  "carries_token (req_set n v req) \<longleftrightarrow> transform_tolower n = ''authorization'' \<or> carries_token req"
  by (auto simp: carries_token_def req_set_def list_ex_iff)

lemma carries_token_simps [simp]:
  "carries_token (req\<lparr>req_body := b\<rparr>) = carries_token req" "carries_token (req\<lparr>req_prepared := p\<rparr>) = carries_token req"
  "req_fields req = [] \<Longrightarrow> \<not> carries_token req"
  by (simp_all add: carries_token_def)

lemma header_loop_token:
  "carries_token (header_loop hs req) \<longleftrightarrow> list_ex (\<lambda>(n, v). transform_tolower n = ''authorization'') hs \<or> carries_token req"
proof (induction hs arbitrary: req)
  case (Cons h hs)
  then show ?case by (cases h) (simp add: disj_commute disj_left_commute)
qed simp

text \<open>No name has two fields.\<close>

definition fields_distinct :: "http_request \<Rightarrow> bool" where
  "fields_distinct req \<longleftrightarrow> distinct (map (\<lambda>(n, v). transform_tolower n) (req_fields req))"

lemma fields_distinct_set: "fields_distinct req \<Longrightarrow> fields_distinct (req_set n v req)"
  by (auto simp: fields_distinct_def req_set_def distinct_map inj_on_def)

lemma request_fields_distinct:
  "fields_distinct (post_request host target body hs)" "fields_distinct (get_request host target hs)"
proof -
  have l: "fields_distinct req \<Longrightarrow> fields_distinct (header_loop hs req)" for req
    by (induction hs arbitrary: req) (simp_all add: fields_distinct_set)
  have i: "fields_distinct req = fields_distinct req'" if "req_fields req = req_fields req'" for req req'
    using that by (simp add: fields_distinct_def)
  show "fields_distinct (get_request host target hs)"
    unfolding get_request_def Let_def by (intro l fields_distinct_set) (simp add: fields_distinct_def)
  show "fields_distinct (post_request host target body hs)"
    unfolding post_request_def Let_def
    by (subst i [of _ "header_loop hs _"]) (simp, intro l fields_distinct_set, simp add: fields_distinct_def)
qed

lemma fixed_field_names:
  "transform_tolower ''Host'' \<noteq> ''authorization''" "transform_tolower ''User-Agent'' \<noteq> ''authorization''"
  "transform_tolower ''Content-Type'' \<noteq> ''authorization''" "transform_tolower ''Connection'' \<noteq> ''authorization''"
  by code_simp+

lemma request_carries_token:
  "carries_token (post_request host target body hs) \<longleftrightarrow> list_ex (\<lambda>(n, v). transform_tolower n = ''authorization'') hs"
  "carries_token (get_request host target hs) \<longleftrightarrow> list_ex (\<lambda>(n, v). transform_tolower n = ''authorization'') hs"
  by (simp_all add: post_request_def get_request_def header_loop_token fixed_field_names Let_def)

section \<open>The contract of the HTTPS functions\<close>

abbreviation has_authorization :: "(string \<times> string) list \<Rightarrow> bool" where
  "has_authorization hs \<equiv> list_ex (\<lambda>(n, v). transform_tolower n = ''authorization'') hs"

text \<open>
  What the services rely on: requests leave the objects alone, and keep the traces good as long
  as tokens are only given to requests for the API host.
\<close>

locale https_transport =
  fixes post :: "string \<Rightarrow> string \<Rightarrow> string \<Rightarrow> string \<Rightarrow> (string \<times> string) list \<Rightarrow> ('a io, string) act"
    and get :: "string \<Rightarrow> string \<Rightarrow> string \<Rightarrow> (string \<times> string) list \<Rightarrow> ('a io, string) act"
    and good :: "net_call list \<Rightarrow> bool"
    and api_host :: string
  assumes post_good: "(has_authorization hs \<Longrightarrow> host = api_host) \<Longrightarrow> keeps good (post host port target body hs)"
    and get_good: "(has_authorization hs \<Longrightarrow> host = api_host) \<Longrightarrow> keeps good (get host port target hs)"
    and post_object: "snd (snd (post host port target body hs s)) = snd s"
    and get_object: "snd (snd (get host port target hs s)) = snd s"
begin

lemma api_post [keeps_intros]: "keeps good (post api_host port target body hs)"
  by (rule post_good) simp

lemma api_get [keeps_intros]: "keeps good (get api_host port target hs)"
  by (rule get_good) simp

lemma foreign_post: "\<not> has_authorization hs \<Longrightarrow> keeps good (post host port target body hs)"
  by (rule post_good) simp

end

lemma exchange_object: "snd (snd (exchange N host port req s)) = snd s"
  using exchange_run [of N host port req "fst s" "snd s"] by auto

lemma bindA_ret_object:
  "snd (snd (m s)) = snd s \<Longrightarrow> snd (snd (bindA m (\<lambda>a. ret (f a)) s)) = snd s"
  by (auto simp: act_simps split: prod.splits sum.splits)

interpretation helix: https_transport "httpsPostAsync N" "httpsGetAsync N" "confined h" h
  for N h
proof
  fix hs host port target body
  assume a: "has_authorization hs \<Longrightarrow> host = h"
  show "keeps (confined h) (httpsPostAsync N host port target body hs)"
    unfolding https_exchange
    by (intro keeps_intros exchange_keeps_confined) (simp add: request_carries_token a)
  show "keeps (confined h) (httpsGetAsync N host port target hs)"
    unfolding https_exchange
    by (intro keeps_intros exchange_keeps_confined) (simp add: request_carries_token a)
qed (simp_all add: https_exchange bindA_ret_object exchange_object)

text \<open>A request to the API host keeps an invariant of trace and objects.\<close>

lemma invA_helix [inv_intros]:
  "invA (confined_with h Q) (httpsPostAsync N h port target body hs)"
  "invA (confined_with h Q) (httpsGetAsync N h port target hs)"
  by (rule invA_keeps [OF helix.api_post helix.post_object] invA_keeps [OF helix.api_get helix.get_object])+

lemma invA_foreign_post:
  "\<not> has_authorization hs \<Longrightarrow> invA (confined_with h Q) (httpsPostAsync N host port target body hs)"
  by (rule invA_keeps [OF helix.foreign_post helix.post_object])

section \<open>Properties\<close>

text \<open>
  The protocol of an HTTPS request. Whatever the network answers, \<open>httpsPostAsync\<close> resolves,
  connects, sets the server name, does the TLS handshake, writes the one request, reads the
  response and shuts down, on a fresh stream, in this order, up to the first failure. The
  request is written only if the handshake succeeded, and what is returned is the body of the
  response that was read.
\<close>

theorem https_post_protocol:
  "\<exists>k r. httpsPostAsync N host port target body headers (tr, x) =
      (r, (tr @ take k (exchange_calls (length tr) host port (post_request host target body headers)), x)) \<and>
     (6 \<le> k \<longrightarrow> net_fails N (tr @ connect_calls (length tr) host port) (TlsHandshake (length tr)) = None) \<and>
     (\<forall>b. r = Inr b \<longrightarrow> k = 8 \<and>
        (\<exists>res. net_response N (tr @ connect_calls (length tr) host port @ [TlsHandshake (length tr),
             HttpWrite (length tr) (post_request host target body headers)]) = Inr res \<and> b = res_body res))"
proof -
  let ?req = "post_request host target body headers"
  obtain k r where "exchange N host port ?req (tr, x) =
      (r, (tr @ take k (exchange_calls (length tr) host port ?req), x))"
    and "exchange_outcome N tr host port ?req k r"
    using exchange_run [of N host port ?req tr x] by blast
  then show ?thesis
    by (cases r) (auto simp: https_exchange act_simps exchange_outcome_def exchange_calls_take(2-) [OF le0] Let_def)
qed

definition sample_net :: net_env where
  "sample_net = \<lparr>net_fails = (\<lambda>tr c. case c of TlsShutdown s \<Rightarrow> Some (SystemError StreamTruncated ''stream truncated'')
       | _ \<Rightarrow> None),
     net_response = (\<lambda>tr. Inr \<lparr>res_status = 200, res_location = [], res_body = ''{}''\<rparr>),
     net_frame = (\<lambda>tr. Inr ''{}''), net_sni_ok = (\<lambda>tr. True), net_is_open = (\<lambda>tr. length tr < 40),
     net_random = (\<lambda>tr. length tr), net_now = (\<lambda>tr. 0)\<rparr>"

theorem https_post_protocol_witness:
  "snd (httpsPostAsync sample_net ''api.twitch.tv'' ''443'' ''/t'' ''{}'' [] ([], ())) =
     (exchange_calls 0 ''api.twitch.tv'' ''443'' (post_request ''api.twitch.tv'' ''/t'' ''{}'' []), ())"
proof -
  let ?req = "post_request ''api.twitch.tv'' ''/t'' ''{}'' []"
  obtain k r where run: "httpsPostAsync sample_net ''api.twitch.tv'' ''443'' ''/t'' ''{}'' [] ([], ()) =
      (r, (take k (exchange_calls 0 ''api.twitch.tv'' ''443'' ?req), ()))"
    and k: "\<forall>b. r = Inr b \<longrightarrow> k = 8"
    using https_post_protocol [of sample_net "''api.twitch.tv''" "''443''" "''/t''" "''{}''" "[]" "[]" "()"]
    by auto
  have "r = Inr ''{}''"
    using run by (simp add: https_exchange exchange_def makeSslStreamAsync_def act_simps sample_net_def)
  with run k show ?thesis by (simp add: exchange_calls_def connect_calls_def)
qed

text \<open>
  A request succeeds when the exchange does. If every call up to the response succeeds, the
  body of the response is returned even if the TLS shutdown fails with a system error, as servers
  that close the connection early make it do.
\<close>

theorem https_post_tolerates_shutdown_errors:
  assumes "\<And>pre c. (\<And>s. c \<noteq> TlsShutdown s) \<Longrightarrow> net_fails N pre c = None"
    and "\<And>pre s. net_fails N pre (TlsShutdown s) = None \<or>
      (\<exists>code w. net_fails N pre (TlsShutdown s) = Some (SystemError code w))"
    and "\<And>pre. net_sni_ok N pre"
    and "\<And>pre. net_response N pre = Inr res"
  shows "fst (httpsPostAsync N host port target body headers (tr, x)) = Inr (res_body res)"
proof -
  have ok: "net_fails N pre (Resolve h p) = None" "net_fails N pre (TcpConnect i h p) = None"
    "net_fails N pre (TlsHandshake i) = None" "net_fails N pre (HttpWrite i req) = None" for pre h p i req
    by (simp_all add: assms(1))
  show ?thesis
    using assms(2) [of "tr @ [NewStream, Resolve host port, TcpConnect (length tr) host port,
        SetSni (length tr) host, TlsHandshake (length tr),
        HttpWrite (length tr) (post_request host target body headers), HttpRead (length tr)]" "length tr"]
    by (auto simp: https_exchange exchange_def makeSslStreamAsync_def act_simps ok assms(3,4))
qed

theorem https_post_tolerates_shutdown_errors_witness:
  "fst (httpsPostAsync sample_net ''api.twitch.tv'' ''443'' ''/t'' ''{}'' [] ([], ())) = Inr ''{}''"
proof -
  let ?res = "\<lparr>res_status = 200, res_location = [], res_body = ''{}''\<rparr>"
  have "net_fails sample_net pre c = None" if "\<And>s. c \<noteq> TlsShutdown s" for pre c
    using that by (cases c) (auto simp: sample_net_def)
  moreover have "net_fails sample_net pre (TlsShutdown s) = Some (SystemError StreamTruncated ''stream truncated'')"
    for pre s by (simp add: sample_net_def)
  moreover have "net_sni_ok sample_net pre" "net_response sample_net pre = Inr ?res" for pre
    by (simp_all add: sample_net_def)
  ultimately show ?thesis
    using https_post_tolerates_shutdown_errors [of sample_net ?res "''api.twitch.tv''" "''443''" "''/t''" "''{}''" "[]" "[]" "()"]
    by simp
qed

text \<open>
  \<open>stripOauthPrefix\<close> takes the prefix off a prefixed token and leaves a raw token alone.
\<close>

theorem stripOauthPrefix_roundtrip:
  "stripOauthPrefix (''oauth:'' @ t) = t \<and>
   (\<not> prefix ''oauth:'' t \<longrightarrow> stripOauthPrefix t = t)"
  by (simp add: stripOauthPrefix_def starts_with_prefix)

theorem stripOauthPrefix_roundtrip_witness: "stripOauthPrefix ''abc123'' = ''abc123''"
  using stripOauthPrefix_roundtrip [of "''abc123''"] by simp

end
