(* ===== verification/Std_Time.thy ===== *)
theory Std_Time
  imports Prelude
begin

text \<open>
  Calendar time as the sources use it: \<^verbatim>\<open>std::gmtime\<close>, \<^verbatim>\<open>timegm\<close>, \<^verbatim>\<open>std::put_time\<close> and
  \<^verbatim>\<open>std::get_time\<close> with the ISO 8601 format, and the two functions built on them,
  \<open>getIsoTimestamp\<close> of \<^verbatim>\<open>src/discord/notifications.cpp\<close> and \<open>parseTime\<close> of \<^verbatim>\<open>src/tw/auth.cpp\<close>.

  A \<^verbatim>\<open>time_t\<close> counts seconds since 1970 in the proleptic Gregorian calendar without leap
  seconds.
\<close>

section \<open>The calendar\<close>

definition leap_year :: "int \<Rightarrow> bool" where
  "leap_year y \<longleftrightarrow> 4 dvd y \<and> \<not> 100 dvd y \<or> 400 dvd y"

definition year_days :: "int \<Rightarrow> int" where
  "year_days y = (if leap_year y then 366 else 365)"

text \<open>The days from the start of 1970 to the start of a year.\<close>

definition days_before_year :: "int \<Rightarrow> int" where
  "days_before_year y =
     365 * (y - 1970) + ((y - 1) div 4 - 1969 div 4) - ((y - 1) div 100 - 1969 div 100)
       + ((y - 1) div 400 - 1969 div 400)"

definition month_days :: "int \<Rightarrow> int list" where
  "month_days y = [31, if leap_year y then 29 else 28, 31, 30, 31, 30, 31, 31, 30, 31, 30, 31]"

record tm =
  tm_sec :: int
  tm_min :: int
  tm_hour :: int
  tm_mday :: int
  tm_mon :: int
  tm_year :: int

definition timegm :: "tm \<Rightarrow> int" where
  "timegm t =
     (let y = tm_year t + 1900;
          days = days_before_year y + sum_list (take (nat (tm_mon t)) (month_days y)) + tm_mday t - 1
      in days * 86400 + tm_hour t * 3600 + tm_min t * 60 + tm_sec t)"

lemma div_step:
  fixes y k :: int
  assumes "0 < k"
  shows "y div k = (y - 1) div k + (if k dvd y then 1 else 0)"
proof (cases "k dvd y")
  case True
  then obtain q where "y = k * q" by blast
  moreover have "(k * q - 1) div k = q - 1"
    using assms by (intro int_div_pos_eq [of _ _ _ "k - 1"]) (simp_all add: algebra_simps)
  ultimately show ?thesis using assms by simp
next
  case False
  have "0 < y mod k" using False assms by (simp add: dvd_eq_mod_eq_0 order_less_le)
  moreover have "y mod k - 1 < k" using pos_mod_bound [OF assms, of y] by linarith
  ultimately have "(y - 1) div k = y div k"
    by (intro int_div_pos_eq [of _ _ _ "y mod k - 1"]) simp_all
  with False show ?thesis by simp
qed

lemma days_before_next_year: "days_before_year (y + 1) = days_before_year y + year_days y"
proof -
  have "(4 :: int) dvd 100" "(100 :: int) dvd 400" by simp_all
  then have d: "400 dvd y \<Longrightarrow> 100 dvd y" "100 dvd y \<Longrightarrow> 4 dvd y" by (blast intro: dvd_trans)+
  have "days_before_year (y + 1) = days_before_year y + 365 + (if 4 dvd y then 1 else 0)
      - (if 100 dvd y then 1 else 0) + (if 400 dvd y then 1 else 0)"
    using div_step [of 4 y] div_step [of 100 y] div_step [of 400 y]
    unfolding days_before_year_def by simp
  with d show ?thesis by (auto simp: year_days_def leap_year_def)
qed

lemma year_days_pos: "0 < year_days y"
  by (simp add: year_days_def)

lemma sum_month_days: "sum_list (month_days y) = year_days y"
  by (simp add: month_days_def year_days_def)

function year_search :: "int \<Rightarrow> int \<Rightarrow> int" where
  "year_search y d = (if days_before_year (y + 1) \<le> d then year_search (y + 1) d else y)"
  by pat_completeness auto
termination
proof (relation "measure (\<lambda>(y, d). nat (d - days_before_year y))", goal_cases)
  case (2 y d)
  moreover have "days_before_year y < days_before_year (y + 1)"
    by (simp add: days_before_next_year year_days_pos)
  ultimately show ?case by simp
qed simp

declare year_search.simps [simp del]

lemma year_search_bounds:
  "days_before_year y \<le> d \<Longrightarrow>
   days_before_year (year_search y d) \<le> d \<and> d < days_before_year (year_search y d + 1) \<and> y \<le> year_search y d"
proof (induction y d rule: year_search.induct)
  case (1 y d)
  show ?case
  proof (cases "days_before_year (y + 1) \<le> d")
    case True
    with 1 show ?thesis by (subst (1 2 3) year_search.simps) auto
  next
    case False
    with 1 show ?thesis by (subst (1 2 3) year_search.simps) auto
  qed
qed

fun month_search :: "int list \<Rightarrow> int \<Rightarrow> nat \<times> int" where
  "month_search [] r = (0, r)"
| "month_search (l # ls) r =
     (if r < l then (0, r) else let (m, q) = month_search ls (r - l) in (Suc m, q))"

lemma month_search_bounds:
  assumes "0 \<le> r" and "r < sum_list ls"
  shows "fst (month_search ls r) < length ls \<and> 0 \<le> snd (month_search ls r) \<and>
    snd (month_search ls r) < ls ! fst (month_search ls r) \<and>
    sum_list (take (fst (month_search ls r)) ls) + snd (month_search ls r) = r"
  using assms
proof (induction ls arbitrary: r)
  case (Cons l ls)
  obtain m q where "month_search ls (r - l) = (m, q)" by fastforce
  then show ?case using Cons.prems Cons.IH [of "r - l"] by (auto simp: not_less)
qed simp

text \<open>\<^verbatim>\<open>gmtime\<close>, for times from 1970 on.\<close>

definition gmtime :: "int \<Rightarrow> tm" where
  "gmtime t =
     (let d = t div 86400; s = t mod 86400;
          y = year_search 1970 d;
          (m, q) = month_search (month_days y) (d - days_before_year y)
      in \<lparr>tm_sec = s mod 60, tm_min = s div 60 mod 60, tm_hour = s div 3600, tm_mday = q + 1,
          tm_mon = int m, tm_year = y - 1900\<rparr>)"

definition tm_ok :: "tm \<Rightarrow> bool" where
  "tm_ok t \<longleftrightarrow> 0 \<le> tm_sec t \<and> tm_sec t \<le> 59 \<and> 0 \<le> tm_min t \<and> tm_min t \<le> 59 \<and> 0 \<le> tm_hour t \<and> tm_hour t \<le> 23 \<and>
     1 \<le> tm_mday t \<and> tm_mday t \<le> 31 \<and> 0 \<le> tm_mon t \<and> tm_mon t \<le> 11"

lemma month_days_le: "m < 12 \<Longrightarrow> month_days y ! m \<le> 31"
  by (auto simp: month_days_def nth_Cons' numeral_eq_Suc)

lemma mod60_le: "i mod 60 \<le> 59" for i :: int
  using pos_mod_bound [of 60 i] by linarith

lemma gmtime_fields:
  assumes "0 \<le> t"
  shows "timegm (gmtime t) = t \<and> tm_ok (gmtime t) \<and> 1970 \<le> tm_year (gmtime t) + 1900 \<and>
    days_before_year (tm_year (gmtime t) + 1900) \<le> t div 86400"
proof -
  let ?d = "t div 86400" and ?s = "t mod 86400"
  let ?y = "year_search 1970 ?d"
  have "days_before_year 1970 = 0" by (simp add: days_before_year_def)
  then have y: "days_before_year ?y \<le> ?d" "?d < days_before_year (?y + 1)" "1970 \<le> ?y"
    using year_search_bounds [of 1970 ?d] assms by (simp_all add: pos_imp_zdiv_nonneg_iff)
  obtain m q where mq: "month_search (month_days ?y) (?d - days_before_year ?y) = (m, q)" by fastforce
  have b: "m < 12 \<and> 0 \<le> q \<and> q < month_days ?y ! m \<and>
      sum_list (take m (month_days ?y)) + q = ?d - days_before_year ?y"
    using month_search_bounds [of "?d - days_before_year ?y" "month_days ?y"] y mq
    by (simp add: sum_month_days days_before_next_year) (simp add: month_days_def)
  have q: "q \<le> 30" using b month_days_le [of m ?y] by auto
  have "?s div 60 div 60 = ?s div 3600" using zdiv_zmult2_eq [of 60 ?s 60] by simp
  then have s: "?s div 3600 * 3600 + ?s div 60 mod 60 * 60 + ?s mod 60 = ?s"
    using div_mult_mod_eq [of ?s 60] div_mult_mod_eq [of "?s div 60" 60] by linarith
  have h: "0 \<le> ?s" "?s \<le> 86399" using pos_mod_bound [of 86400 t] by simp_all
  then have hour: "?s div 3600 \<le> 23" "0 \<le> ?s div 3600"
    using zdiv_mono1 [OF h(2), of 3600] by (simp_all add: pos_imp_zdiv_nonneg_iff)
  have g: "gmtime t = \<lparr>tm_sec = ?s mod 60, tm_min = ?s div 60 mod 60, tm_hour = ?s div 3600,
      tm_mday = q + 1, tm_mon = int m, tm_year = ?y - 1900\<rparr>"
    unfolding gmtime_def Let_def mq by simp
  have days: "days_before_year ?y + sum_list (take m (month_days ?y)) + (q + 1) - 1 = ?d"
    using b by simp
  have "timegm (gmtime t) = ?d * 86400 + (?s div 3600 * 3600 + ?s div 60 mod 60 * 60 + ?s mod 60)"
    unfolding g timegm_def Let_def tm.simps diff_add_cancel nat_int days by simp
  then have "timegm (gmtime t) = t" unfolding s by simp
  moreover have "tm_ok (gmtime t)"
    unfolding g tm_ok_def tm.simps using hour b q by (intro conjI mod60_le) simp_all
  moreover have "tm_year (gmtime t) + 1900 = ?y" unfolding g by simp
  ultimately show ?thesis using y(1,3) by metis
qed

section \<open>Printing and reading\<close>

definition digit_char :: "nat \<Rightarrow> char" where
  "digit_char n = char_of (48 + n)"

definition isdigit :: "char \<Rightarrow> bool" where
  "isdigit c \<longleftrightarrow> 48 \<le> (of_char c :: nat) \<and> (of_char c :: nat) \<le> 57"

definition digit_val :: "char \<Rightarrow> nat" where
  "digit_val c = of_char c - 48"

fun show_nat :: "nat \<Rightarrow> string" where
  "show_nat n = (if n < 10 then [digit_char n] else show_nat (n div 10) @ [digit_char (n mod 10)])"

declare show_nat.simps [simp del]

definition two_digits :: "int \<Rightarrow> string" where
  "two_digits i = [digit_char (nat i div 10), digit_char (nat i mod 10)]"

text \<open>\<^verbatim>\<open>std::put_time(tm, "%Y-%m-%dT%H:%M:%SZ")\<close>.\<close>

definition put_time :: "tm \<Rightarrow> string" where
  "put_time t =
     show_nat (nat (tm_year t + 1900)) @ ''-'' @ two_digits (tm_mon t + 1) @ ''-'' @ two_digits (tm_mday t) @
     ''T'' @ two_digits (tm_hour t) @ '':'' @ two_digits (tm_min t) @ '':'' @ two_digits (tm_sec t) @ ''Z''"

text \<open>
  \<^verbatim>\<open>std::get_time\<close> reads a number of at most a given count of digits, checks its range, and
  compares the other characters of the format without regard to case. What follows is left in
  the stream.
\<close>

fun get_digits :: "nat \<Rightarrow> string \<Rightarrow> nat \<Rightarrow> nat \<times> string" where
  "get_digits (Suc w) (c # cs) acc =
     (if isdigit c then get_digits w cs (acc * 10 + digit_val c) else (acc, c # cs))"
| "get_digits w s acc = (acc, s)"

definition get_num :: "nat \<Rightarrow> nat \<Rightarrow> nat \<Rightarrow> string \<Rightarrow> (nat \<times> string) option" where
  "get_num w lo hi s =
     (if s = [] \<or> \<not> isdigit (hd s) then None
      else let (v, rest) = get_digits w s 0 in if lo \<le> v \<and> v \<le> hi then Some (v, rest) else None)"

definition get_lit :: "char \<Rightarrow> string \<Rightarrow> string option" where
  "get_lit ch s = (case s of [] \<Rightarrow> None | c # cs \<Rightarrow> if tolower c = tolower ch then Some cs else None)"

definition get_time :: "string \<Rightarrow> tm option" where
  "get_time s =
     Option.bind (get_num 4 0 9999 s) (\<lambda>(y, s). Option.bind (get_lit (CHR ''-'') s) (\<lambda>s.
     Option.bind (get_num 2 1 12 s) (\<lambda>(mo, s). Option.bind (get_lit (CHR ''-'') s) (\<lambda>s.
     Option.bind (get_num 2 1 31 s) (\<lambda>(d, s). Option.bind (get_lit (CHR ''T'') s) (\<lambda>s.
     Option.bind (get_num 2 0 23 s) (\<lambda>(h, s). Option.bind (get_lit (CHR '':'') s) (\<lambda>s.
     Option.bind (get_num 2 0 59 s) (\<lambda>(mi, s). Option.bind (get_lit (CHR '':'') s) (\<lambda>s.
     Option.bind (get_num 2 0 60 s) (\<lambda>(sec, s). Option.bind (get_lit (CHR ''Z'') s) (\<lambda>s.
       Some \<lparr>tm_sec = int sec, tm_min = int mi, tm_hour = int h, tm_mday = int d,
             tm_mon = int mo - 1, tm_year = int y - 1900\<rparr>))))))))))))"

section \<open>The functions of the sources\<close>

definition getIsoTimestamp :: "int \<Rightarrow> string" where
  "getIsoTimestamp now = (let time_t = duration_cast_seconds now in put_time (gmtime time_t))"

text \<open>The time point, in seconds since the epoch, or the exception.\<close>

definition parseTime :: "string \<Rightarrow> exn + int" where
  "parseTime str =
     (case get_time str of
        None \<Rightarrow> Inl (RuntimeError (''Invalid time format: '' @ str))
      | Some time \<Rightarrow> Inr (timegm time))"

lemma digit_char_props:
  assumes "n < 10"
  shows "isdigit (digit_char n)" "digit_val (digit_char n) = n"
  using assms by (simp_all add: isdigit_def digit_val_def digit_char_def)

lemma show_nat_4:
  assumes "1000 \<le> n" "n \<le> 9999"
  shows "show_nat n = [digit_char (n div 1000), digit_char (n div 100 mod 10), digit_char (n div 10 mod 10),
    digit_char (n mod 10)]"
proof -
  have "n div 10 div 10 = n div 100" "n div 100 div 10 = n div 1000" by (simp_all flip: div_mult2_eq)
  moreover have "\<not> n < 10" "\<not> n div 10 < 10" "\<not> n div 100 < 10" "n div 1000 < 10" using assms by auto
  ultimately show ?thesis by (simp add: show_nat.simps)
qed

lemma get_digits_digit:
  "n < 10 \<Longrightarrow> get_digits (Suc w) (digit_char n # cs) acc = get_digits w cs (acc * 10 + n)"
  by (simp add: digit_char_props)

lemma get_digits_0: "get_digits 0 s acc = (acc, s)"
  by (cases s) simp_all

lemma get_num_4:
  assumes "1000 \<le> n" "n \<le> 9999"
  shows "get_num 4 0 9999 (show_nat n @ rest) = Some (n, rest)"
proof -
  have d: "n div 10 div 10 = n div 100" "n div 100 div 10 = n div 1000" by (simp_all flip: div_mult2_eq)
  have "n div 1000 * 10 + n div 100 mod 10 = n div 100"
    using div_mult_mod_eq [of "n div 100" 10] unfolding d .
  moreover have "n div 100 * 10 + n div 10 mod 10 = n div 10"
    using div_mult_mod_eq [of "n div 10" 10] unfolding d .
  moreover have "n div 10 * 10 + n mod 10 = n" by (rule div_mult_mod_eq)
  ultimately have v: "(((0 * 10 + n div 1000) * 10 + n div 100 mod 10) * 10 + n div 10 mod 10) * 10 + n mod 10 = n"
    by simp
  have lt: "n div 1000 < 10" using assms by auto
  have mod: "i mod 10 < 10" for i :: nat by simp
  have "get_digits (Suc (Suc (Suc (Suc 0)))) (show_nat n @ rest) 0 = (n, rest)"
    unfolding show_nat_4 [OF assms] append.simps get_digits_digit [OF lt] get_digits_digit [OF mod] get_digits_0 v ..
  moreover have "(4 :: nat) = Suc (Suc (Suc (Suc 0)))" by simp
  ultimately have "get_digits 4 (show_nat n @ rest) 0 = (n, rest)" by metis
  moreover have "isdigit (hd (show_nat n @ rest))" "show_nat n @ rest \<noteq> []"
    using lt by (simp_all add: show_nat_4 [OF assms] digit_char_props)
  ultimately show ?thesis using assms by (simp add: get_num_def)
qed

lemma get_num_2:
  assumes "0 \<le> i" "i \<le> 99" "lo \<le> nat i" "nat i \<le> hi"
  shows "get_num 2 lo hi (two_digits i @ rest) = Some (nat i, rest)"
proof -
  have lt: "nat i div 10 < 10" using assms by auto
  have mod: "n mod 10 < 10" for n :: nat by simp
  have v: "(0 * 10 + nat i div 10) * 10 + nat i mod 10 = nat i" by simp
  have "get_digits (Suc (Suc 0)) (two_digits i @ rest) 0 = (nat i, rest)"
    unfolding two_digits_def append.simps get_digits_digit [OF lt] get_digits_digit [OF mod] get_digits_0 v ..
  moreover have "(2 :: nat) = Suc (Suc 0)" by simp
  ultimately have "get_digits 2 (two_digits i @ rest) 0 = (nat i, rest)" by metis
  moreover have "isdigit (hd (two_digits i @ rest))" "two_digits i @ rest \<noteq> []"
    using lt by (simp_all add: two_digits_def digit_char_props)
  ultimately show ?thesis using assms by (simp add: get_num_def)
qed

lemma get_lit_same [simp]: "get_lit c (c # s) = Some s"
  by (simp add: get_lit_def)

lemma get_put_time:
  assumes "tm_ok t" and "1000 \<le> tm_year t + 1900" and "tm_year t + 1900 \<le> 9999"
  shows "get_time (put_time t) = Some t"
proof -
  have y: "1000 \<le> nat (tm_year t + 1900)" "nat (tm_year t + 1900) \<le> 9999" using assms by auto
  have "get_num 2 1 12 (two_digits (tm_mon t + 1) @ r) = Some (nat (tm_mon t + 1), r)"
    "get_num 2 1 31 (two_digits (tm_mday t) @ r) = Some (nat (tm_mday t), r)"
    "get_num 2 0 23 (two_digits (tm_hour t) @ r) = Some (nat (tm_hour t), r)"
    "get_num 2 0 59 (two_digits (tm_min t) @ r) = Some (nat (tm_min t), r)"
    "get_num 2 0 60 (two_digits (tm_sec t) @ r) = Some (nat (tm_sec t), r)" for r
    using assms(1) unfolding tm_ok_def by (intro get_num_2; linarith)+
  then show ?thesis
    using assms unfolding tm_ok_def
    by (simp add: get_time_def put_time_def get_num_4 [OF y] del: One_nat_def)
qed

lemma days_before_year_mono: "y \<le> z \<Longrightarrow> days_before_year y \<le> days_before_year z"
proof (induction z rule: int_ge_induct)
  case (step z)
  then show ?case using year_days_pos [of z] by (simp add: days_before_next_year)
qed simp

section \<open>Properties\<close>

text \<open>
  C35: Timestamps round-trip. What \<open>getIsoTimestamp\<close> writes for a time between 1970 and 9999 is
  read by \<open>parseTime\<close> as that time, to the second.
\<close>

theorem timestamp_roundtrip:
  assumes "0 \<le> now" and "now div 10 ^ 9 div 86400 < days_before_year 10000"
  shows "parseTime (getIsoTimestamp now) = Inr (now div 10 ^ 9)"
proof -
  let ?t = "now div 10 ^ 9"
  have t: "0 \<le> ?t" using assms(1) by (simp add: pos_imp_zdiv_nonneg_iff)
  note g = gmtime_fields [OF t]
  have "tm_year (gmtime ?t) + 1900 \<le> 9999"
    using g assms(2) days_before_year_mono [of 10000 "tm_year (gmtime ?t) + 1900"] by force
  with g have "get_time (put_time (gmtime ?t)) = Some (gmtime ?t)" by (intro get_put_time) auto
  with g assms(1) show ?thesis
    by (simp add: parseTime_def getIsoTimestamp_def duration_cast_seconds_def)
qed

theorem timestamp_roundtrip_witness:
  "parseTime (getIsoTimestamp 1700000000123456789) = Inr 1700000000"
  using timestamp_roundtrip [of 1700000000123456789] by (simp add: days_before_year_def)

end
