(* ===== verification/Twitch_Auth.thy ===== *)
theory Twitch_Auth
  imports Http_Client Std_Time
begin

text \<open>
  \<^verbatim>\<open>include/seraphbot/tw/auth.hpp\<close> and \<^verbatim>\<open>src/tw/auth.cpp\<close>: the login flow against the bot's
  OAuth server, and the user information it fetches. The build for Linux with libc++ is
  modelled; the branch for other standard libraries does not compile.
\<close>

section \<open>Data\<close>

record TwitchUserInfo =
  ui_id :: string
  ui_login :: string
  ui_display_name :: string
  ui_broadcaster_type :: string
  ui_description :: string
  ui_created_at :: int
  ui_profile_image_url :: string
  ui_view_count :: int
  ui_offline_image_url :: "string option"
  ui_email :: "string option"

record Auth =
  m_url_base :: string
  m_access_token :: string
  m_client_id :: string
  auth_state :: string
  m_refresh_token :: string

definition Auth_new :: "string \<Rightarrow> Auth" where
  "Auth_new url_base =
     \<lparr>m_url_base = url_base, m_access_token = [], m_client_id = [], auth_state = [], m_refresh_token = []\<rparr>"

definition isLoggedIn :: "Auth \<Rightarrow> bool" where
  "isLoggedIn A \<longleftrightarrow> m_access_token A \<noteq> []"

definition accessToken :: "Auth \<Rightarrow> string" where
  "accessToken A = m_access_token A"

definition clientId :: "Auth \<Rightarrow> string" where
  "clientId A = m_client_id A"

definition storeToken :: "string \<Rightarrow> Auth \<Rightarrow> Auth" where
  "storeToken token A = A\<lparr>m_access_token := token\<rparr>"

definition storeRefreshToken :: "string \<Rightarrow> Auth \<Rightarrow> Auth" where
  "storeRefreshToken refresh_token A = A\<lparr>m_refresh_token := refresh_token\<rparr>"

section \<open>The random state\<close>

definition c_alphanum :: string where
  "c_alphanum = ''0123456789ABCDEFGHIJKLMNOPQRSTUVWXYZabcdefghijklmnopqrstuvwxyz''"

definition c_state_length :: nat where
  "c_state_length = 16"

text \<open>\<^verbatim>\<open>std::ranges::generate\<close>: one draw of the distribution per character.\<close>

fun generate_loop :: "net_env \<Rightarrow> nat \<Rightarrow> string \<Rightarrow> ('a io, string) act" where
  "generate_loop N 0 state = ret state"
| "generate_loop N (Suc n) state =
     bindA (ask (net_random N) Random) (\<lambda>r. generate_loop N n (state @ [c_alphanum ! r]))"

definition generateState :: "net_env \<Rightarrow> ('a io, string) act" where
  "generateState N = generate_loop N c_state_length []"

section \<open>Requests to the OAuth server\<close>

definition auth_request :: "string \<Rightarrow> string \<Rightarrow> http_request" where
  "auth_request host url =
     (let req = \<lparr>req_verb = GET, req_target = url, req_version = 11, req_fields = [],
                 req_body = [], req_prepared = False\<rparr>;
          req = req_set ''Host'' host req;
          req = req_set ''User-Agent'' ''seraphbot-auth/0.1'' req
      in req_set ''Connection'' ''close'' req)"

definition check_response :: "http_response \<Rightarrow> exn + string" where
  "check_response res =
     (if res_status res \<noteq> 200 \<and> res_status res \<noteq> 302
      then Inl (RuntimeError (''HTTP request failed with status: '' @ show_nat (res_status res)))
      else if res_status res = 302
      then (if res_location res \<noteq> [] then Inr (res_location res)
            else Inl (RuntimeError ''Redirect response missing Location header''))
      else Inr (res_body res))"

text \<open>A system error becomes a runtime error; any other exception passes.\<close>

definition getHttpAsync :: "net_env \<Rightarrow> string \<Rightarrow> (Auth io, string) act" where
  "getHttpAsync N url =
     catchSystemA
       (bindA get_obj (\<lambda>A.
        bindA (exchange N (m_url_base A) ''443'' (auth_request (m_url_base A) url)) (\<lambda>res.
          lift (check_response res))))
       (\<lambda>code w. throw (RuntimeError (''HTTP request failed: '' @ w)))"

definition fetchClientIdAsync :: "net_env \<Rightarrow> 'j json_lib \<Rightarrow> (Auth io, string) act" where
  "fetchClientIdAsync N J =
     bindA (getHttpAsync N ''/client_id'') (\<lambda>response_body.
     bindA (lift (json_parse J response_body)) (\<lambda>json_res.
     bindA (lift (bindE (json_at J json_res ''client_id'') (json_get_string J))) (\<lambda>client_id.
     thenA (modify_obj (\<lambda>A. A\<lparr>m_client_id := client_id\<rparr>))
       (ret client_id))))"

definition getAuthUrlAsync :: "net_env \<Rightarrow> (Auth io, string) act" where
  "getAuthUrlAsync N =
     bindA (generateState N) (\<lambda>state.
     thenA (modify_obj (\<lambda>A. A\<lparr>auth_state := state\<rparr>))
       (getHttpAsync N (''/auth_url?state='' @ state)))"

definition requestTokenAsync :: "net_env \<Rightarrow> 'j json_lib \<Rightarrow> (Auth io, unit) act" where
  "requestTokenAsync N J =
     bindA get_obj (\<lambda>A.
     bindA (getHttpAsync N (''/token?state='' @ auth_state A)) (\<lambda>response_body.
     bindA (lift (json_parse J response_body)) (\<lambda>json_res.
     thenA (lift (json_dump J json_res)) (
     bindA (lift (bindE (json_at J json_res ''access_token'') (json_get_string J))) (\<lambda>token.
     thenA (modify_obj (storeToken token)) (
     bindA (lift (bindE (json_at J json_res ''refresh_token'') (json_get_string J))) (\<lambda>refresh_token.
       modify_obj (storeRefreshToken refresh_token))))))))"

section \<open>User information\<close>

text \<open>\<^verbatim>\<open>value("view_count", 0U)\<close> converts the number to \<^verbatim>\<open>unsigned int\<close>.\<close>

definition parseTwitchUser :: "'j json_lib \<Rightarrow> 'j \<Rightarrow> exn + TwitchUserInfo" where
  "parseTwitchUser J user_json =
     (let no_data = Inl (RuntimeError ''No user data found in Twitch response'')
      in if \<not> json_contains J user_json ''data'' then no_data
         else bindE (json_index J user_json ''data'') (\<lambda>data.
           if \<not> json_is_array J data \<or> json_empty J data then no_data
           else bindE (json_index_nat J data 0) (\<lambda>user.
             bindE (json_value_string J user ''created_at'' []) (\<lambda>created_str.
             bindE (if created_str \<noteq> [] then parseTime created_str else Inr 0) (\<lambda>created_at.
             bindE (json_value_string J user ''id'' []) (\<lambda>id.
             bindE (json_value_string J user ''login'' []) (\<lambda>login.
             bindE (json_value_string J user ''display_name'' []) (\<lambda>display_name.
             bindE (json_value_string J user ''broadcaster_type'' []) (\<lambda>broadcaster_type.
             bindE (json_value_string J user ''description'' []) (\<lambda>description.
             bindE (json_value_string J user ''profile_image_url'' []) (\<lambda>profile_image_url.
             bindE (json_value_int J user ''view_count'' 0) (\<lambda>view_count.
             bindE (json_value_string J user ''offline_image_url'' []) (\<lambda>offline_image_url.
             bindE (json_value_string J user ''email'' []) (\<lambda>email.
               Inr \<lparr>ui_id = id, ui_login = login, ui_display_name = display_name,
                    ui_broadcaster_type = broadcaster_type, ui_description = description,
                    ui_created_at = created_at, ui_profile_image_url = profile_image_url,
                    ui_view_count = view_count mod 2 ^ 32,
                    ui_offline_image_url = Some offline_image_url, ui_email = Some email\<rparr>))))))))))))))"

definition fetchUserInfoAsync :: "net_env \<Rightarrow> 'j json_lib \<Rightarrow> (Auth io, TwitchUserInfo) act" where
  "fetchUserInfoAsync N J =
     bindA get_obj (\<lambda>A.
     bindA (getHttpAsync N (''/user_info?state='' @ auth_state A)) (\<lambda>response_body.
     bindA (lift (json_parse J response_body)) (\<lambda>json_res.
       lift (parseTwitchUser J json_res))))"

section \<open>Login\<close>

text \<open>
  The polling loop, by the number of failed attempts so far: a wait of 300 ms, a request for the
  token, and after a failure a wait that grows from the fourth on. True if a token came.
\<close>

function poll_loop :: "net_env \<Rightarrow> 'j json_lib \<Rightarrow> nat \<Rightarrow> (Auth io, bool) act" where
  "poll_loop N J attempts =
     (if attempts < 10
      then thenA (call N (TimerWait 300))
        (bindA (catchA (thenA (requestTokenAsync N J) (ret True)) (\<lambda>e. ret False)) (\<lambda>got_token.
           if got_token then ret True
           else thenA (call N (TimerWait (if attempts + 1 \<ge> 4 then 300 * int (attempts + 1) else 300)))
                  (poll_loop N J (attempts + 1))))
      else ret False)"
  by pat_completeness auto
termination
  by (relation "measure (\<lambda>(N, J, attempts). 10 - attempts)") auto

declare poll_loop.simps [simp del]

definition loginAsync :: "net_env \<Rightarrow> 'j json_lib \<Rightarrow> (Auth io, unit) act" where
  "loginAsync N J =
     thenA (catchA (fetchClientIdAsync N J)
              (\<lambda>e. throw (RuntimeError (''Failed to fetch client ID: {}'' @ what e))))
       (bindA (getAuthUrlAsync N) (\<lambda>url.
        thenA (call N (LaunchProcess (''xdg-open '' @ [CHR 0x22] @ url @ [CHR 0x22])))
          (bindA (poll_loop N J 0) (\<lambda>got_token.
             if got_token then ret ()
             else throw (RuntimeError ''Authorization timeout'')))))"

section \<open>The waits and the requests of a login\<close>

fun waits :: "net_call list \<Rightarrow> int list" where
  "waits [] = []"
| "waits (TimerWait t # cs) = t # waits cs"
| "waits (c # cs) = waits cs"

lemma waits_append [simp]: "waits (xs @ ys) = waits xs @ waits ys"
  by (induction xs rule: waits.induct) simp_all

fun is_token_request :: "net_call \<Rightarrow> bool" where
  "is_token_request (HttpWrite s req) = prefix ''/token?state='' (req_target req)"
| "is_token_request c = False"

definition token_requests :: "net_call list \<Rightarrow> nat" where
  "token_requests tr = length (filter is_token_request tr)"

lemma token_requests_append [simp]: "token_requests (xs @ ys) = token_requests xs + token_requests ys"
  by (simp add: token_requests_def)

lemma waits_exchange: "waits (take k (exchange_calls s h p req)) = []"
  by (simp add: exchange_calls_def connect_calls_def take_Cons')

lemma token_requests_exchange:
  "token_requests (take k (exchange_calls s h p req)) \<le> (if prefix ''/token?state='' (req_target req) then 1 else 0)"
  by (simp add: exchange_calls_def connect_calls_def take_Cons' token_requests_def)

lemma req_target_auth_request [simp]: "req_target (auth_request host url) = url"
  by (simp add: auth_request_def req_set_def Let_def)

text \<open>Code that waits for no timer, and makes at most the given number of token requests.\<close>

lemma getHttp_trace:
  "\<exists>cs. fst (snd (getHttpAsync N url (tr, A))) = tr @ cs \<and> waits cs = [] \<and>
     token_requests cs \<le> (if prefix ''/token?state='' url then 1 else 0) \<and>
     snd (snd (getHttpAsync N url (tr, A))) = A"
proof -
  let ?req = "auth_request (m_url_base A) url"
  obtain k r where "exchange N (m_url_base A) ''443'' ?req (tr, A) =
      (r, (tr @ take k (exchange_calls (length tr) (m_url_base A) ''443'' ?req), A))"
    using exchange_run [of N "m_url_base A" "''443''" ?req tr A] by blast
  then have "snd (getHttpAsync N url (tr, A)) =
      (tr @ take k (exchange_calls (length tr) (m_url_base A) ''443'' ?req), A)"
    by (cases r) (auto simp: getHttpAsync_def act_simps split: sum.splits exn.splits)
  then show ?thesis
    using token_requests_exchange [of k "length tr" "m_url_base A" "''443''" ?req] by (auto simp: waits_exchange)
qed

lemma requestToken_trace:
  "\<exists>cs. fst (snd (requestTokenAsync N J (tr, A))) = tr @ cs \<and> waits cs = [] \<and> token_requests cs \<le> 1"
  using getHttp_trace [of N "''/token?state='' @ auth_state A" tr A]
  by (auto simp: requestTokenAsync_def act_simps split: sum.splits prod.splits)

lemma requestToken_state: "auth_state (snd (snd (requestTokenAsync N J (tr, A)))) = auth_state A"
  using getHttp_trace [of N "''/token?state='' @ auth_state A" tr A]
  by (auto simp: requestTokenAsync_def act_simps storeToken_def storeRefreshToken_def
      split: sum.splits prod.splits)

text \<open>The waits the loop plans from a number of failed attempts on.\<close>

definition planned_waits :: "nat \<Rightarrow> int list" where
  "planned_waits a =
     concat (map (\<lambda>i. [300, if i + 1 \<ge> 4 then 300 * int (i + 1) else 300]) [a..<10])"

lemma planned_waits_step:
  "a < 10 \<Longrightarrow> planned_waits a = 300 # (if a + 1 \<ge> 4 then 300 * int (a + 1) else 300) # planned_waits (a + 1)"
  by (simp add: planned_waits_def upt_conv_Cons)

lemma poll_loop_trace:
  "\<exists>cs k. fst (snd (poll_loop N J a (tr, A))) = tr @ cs \<and> waits cs = take k (planned_waits a) \<and>
     token_requests cs \<le> 10 - a \<and>
     (fst (poll_loop N J a (tr, A)) = Inr False \<longrightarrow> waits cs = planned_waits a)"
proof (induction N J a arbitrary: tr A rule: poll_loop.induct)
  case (1 N J a)
  show ?case
  proof (cases "a < 10")
    case False
    then show ?thesis
      by (subst (1 2) poll_loop.simps) (simp add: act_simps planned_waits_def token_requests_def)
  next
    case True
    let ?w = "if a + 1 \<ge> 4 then 300 * int (a + 1) else 300"
    let ?t1 = "tr @ [TimerWait 300]"
    obtain r t2 A2 where rq: "requestTokenAsync N J (?t1, A) = (r, (t2, A2))" by (metis prod.collapse)
    then obtain c2 where c2: "t2 = ?t1 @ c2" "waits c2 = []" "token_requests c2 \<le> 1"
      using requestToken_trace [of N J ?t1 A] by auto
    have le: "length (filter is_token_request c2) \<le> 10 - a" "length (filter is_token_request c2) \<le> 1"
      using c2(3) True by (auto simp: token_requests_def)
    note tr0 = token_requests_def
    note run = poll_loop.simps [of N J a] act_simps rq True
    show ?thesis
    proof (cases "net_fails N tr (TimerWait 300)")
      case (Some e)
      then show ?thesis
        by (intro exI [of _ "[TimerWait 300]"] exI [of _ 1]) (simp add: run planned_waits_step tr0)
    next
      case ok1: None
      show ?thesis
      proof (cases r)
        case (Inr u)
        with ok1 c2(1,2) le True show ?thesis
          by (intro exI [of _ "TimerWait 300 # c2"] exI [of _ 1]) (simp add: run planned_waits_step tr0)
      next
        case (Inl e)
        show ?thesis
        proof (cases "net_fails N t2 (TimerWait ?w)")
          case (Some e')
          with ok1 c2(1,2) le Inl True show ?thesis
            by (intro exI [of _ "TimerWait 300 # c2 @ [TimerWait ?w]"] exI [of _ 2])
              (simp add: run planned_waits_step tr0)
        next
          case ok2: None
          let ?t3 = "t2 @ [TimerWait ?w]"
          obtain cs k where IH: "fst (snd (poll_loop N J (a + 1) (?t3, A2))) = ?t3 @ cs"
            "waits cs = take k (planned_waits (a + 1))" "token_requests cs \<le> 10 - (a + 1)"
            "fst (poll_loop N J (a + 1) (?t3, A2)) = Inr False \<longrightarrow> waits cs = planned_waits (a + 1)"
            using "1.IH" [OF True, of False, OF _ , of ?t3 A2] by blast
          have "poll_loop N J a (tr, A) = poll_loop N J (a + 1) (?t3, A2)"
            using ok1 ok2 Inl by (simp add: run)
          with IH c2(1,2) le True show ?thesis
            by (intro exI [of _ "TimerWait 300 # c2 @ TimerWait ?w # cs"] exI [of _ "Suc (Suc k)"])
              (auto simp: planned_waits_step tr0)
        qed
      qed
    qed
  qed
qed

lemma generate_loop_run:
  "\<exists>s. generate_loop N n st (tr, x) = (Inr s, (tr @ replicate n Random, x)) \<and> length s = length st + n"
proof (induction n arbitrary: st tr)
  case (Suc n)
  obtain s where "generate_loop N n (st @ [c_alphanum ! net_random N tr]) (tr @ [Random], x) =
      (Inr s, (tr @ [Random] @ replicate n Random, x))" "length s = length st + 1 + n"
    using Suc [of "st @ [c_alphanum ! net_random N tr]" "tr @ [Random]"] by auto
  then show ?case by (simp add: act_simps)
qed (simp add: act_simps)

lemma generateState_run:
  "\<exists>s. generateState N (tr, x) = (Inr s, (tr @ replicate 16 Random, x)) \<and> length s = 16"
  using generate_loop_run [of N 16 "[]" tr x] by (simp add: generateState_def c_state_length_def)

lemma replicate_Random [simp]:
  "waits (replicate n Random) = []" "token_requests (replicate n Random) = 0"
  by (induction n) (simp_all add: token_requests_def)

lemma fetchClientId_trace:
  "\<exists>cs. fst (snd (fetchClientIdAsync N J (tr, A))) = tr @ cs \<and> waits cs = [] \<and> token_requests cs = 0"
proof -
  have "\<not> prefix ''/token?state='' ''/client_id''" by simp
  then show ?thesis
    using getHttp_trace [of N "''/client_id''" tr A]
    by (auto simp: fetchClientIdAsync_def act_simps split: sum.splits prod.splits)
qed

lemma getAuthUrl_trace:
  "\<exists>cs. fst (snd (getAuthUrlAsync N (tr, A))) = tr @ cs \<and> waits cs = [] \<and> token_requests cs = 0 \<and>
     length (auth_state (snd (snd (getAuthUrlAsync N (tr, A))))) = 16"
proof -
  obtain s where s: "generateState N (tr, A) = (Inr s, (tr @ replicate 16 Random, A))" "length s = 16"
    using generateState_run [of N tr A] by blast
  have "\<not> prefix ''/token?state='' (''/auth_url?state='' @ s)" by simp
  then show ?thesis
    using getHttp_trace [of N "''/auth_url?state='' @ s" "tr @ replicate 16 Random" "A\<lparr>auth_state := s\<rparr>"] s
    by (auto simp: getAuthUrlAsync_def act_simps)
qed

text \<open>A login is the three steps before the loop, none of which waits, and the loop.\<close>

lemma loginAsync_split:
  "(\<exists>cs e. fst (snd (loginAsync N J (tr, A))) = tr @ cs \<and> waits cs = [] \<and> token_requests cs = 0 \<and>
      fst (loginAsync N J (tr, A)) = Inl e) \<or>
   (\<exists>cs A'. waits cs = [] \<and> token_requests cs = 0 \<and> length (auth_state A') = 16 \<and>
      loginAsync N J (tr, A) =
        bindA (poll_loop N J 0) (\<lambda>got. if got then ret () else throw (RuntimeError ''Authorization timeout''))
          (tr @ cs, A'))"
proof -
  obtain r1 A1 c1 where c: "fetchClientIdAsync N J (tr, A) = (r1, (tr @ c1, A1))"
    and c1: "waits c1 = []" "token_requests c1 = 0"
    using fetchClientId_trace [of N J tr A] by (metis prod.collapse)
  obtain r2 A2 c2 where u: "getAuthUrlAsync N (tr @ c1, A1) = (r2, ((tr @ c1) @ c2, A2))"
    and c2: "waits c2 = []" "token_requests c2 = 0" "length (auth_state A2) = 16"
    using getAuthUrl_trace [of N "tr @ c1" A1] by (metis prod.collapse snd_conv)
  note run = loginAsync_def act_simps c u
  show ?thesis
  proof (cases "\<exists>e. r1 = Inl e")
    case True
    then show ?thesis using c1 by (intro disjI1 exI [of _ c1]) (auto simp: run)
  next
    case ok1: False
    show ?thesis
    proof (cases "\<exists>e. r2 = Inl e")
      case True
      then show ?thesis using ok1 c1 c2 by (intro disjI1 exI [of _ "c1 @ c2"]) (auto simp: run split: sum.splits)
    next
      case ok2: False
      then obtain i url where r: "r1 = Inr i" "r2 = Inr url" using ok1 by (cases r1; cases r2) auto
      let ?l = "LaunchProcess (''xdg-open '' @ [CHR 0x22] @ url @ [CHR 0x22])"
      have l: "waits (c1 @ c2 @ [?l]) = []" "token_requests (c1 @ c2 @ [?l]) = 0"
        using c1 c2 by (simp_all add: token_requests_def)
      show ?thesis
      proof (cases "net_fails N (tr @ c1 @ c2) ?l")
        case (Some e)
        then show ?thesis using l r by (intro disjI1 exI [of _ "c1 @ c2 @ [?l]"]) (simp add: run)
      next
        case None
        then show ?thesis using l c2(3) r
          by (intro disjI2 exI [of _ "c1 @ c2 @ [?l]"] exI [of _ A2]) (simp add: run)
      qed
    qed
  qed
qed

definition token_from_server :: "'j json_lib \<Rightarrow> Auth \<Rightarrow> bool" where
  "token_from_server J A \<longleftrightarrow>
     (\<exists>body j. json_parse J body = Inr j \<and>
        bindE (json_at J j ''access_token'') (json_get_string J) = Inr (m_access_token A) \<and>
        bindE (json_at J j ''refresh_token'') (json_get_string J) = Inr (m_refresh_token A))"

lemma requestToken_success:
  "requestTokenAsync N J (tr, A) = (Inr (), (tr', A')) \<Longrightarrow> token_from_server J A'"
  unfolding token_from_server_def
  by (auto simp: requestTokenAsync_def act_simps storeToken_def storeRefreshToken_def
      split: sum.splits prod.splits) blast

lemma poll_loop_success:
  "poll_loop N J a (tr, A) = (Inr True, (tr', A')) \<Longrightarrow> token_from_server J A' \<and> auth_state A' = auth_state A"
proof (induction N J a arbitrary: tr A rule: poll_loop.induct)
  case (1 N J a)
  have a: "a < 10" using "1.prems" by (subst (asm) poll_loop.simps) (auto simp: act_simps split: if_splits)
  obtain r t2 A2 where rq: "requestTokenAsync N J (tr @ [TimerWait 300], A) = (r, (t2, A2))"
    by (metis prod.collapse)
  then have st: "auth_state A2 = auth_state A" using requestToken_state [of N J "tr @ [TimerWait 300]" A] by simp
  note run = poll_loop.simps [of N J a] act_simps rq a
  show ?case
  proof (cases r)
    case (Inr u)
    then have "token_from_server J A2" using rq by (intro requestToken_success [of N J "tr @ [TimerWait 300]" A]) simp
    with Inr "1.prems" st show ?thesis by (auto simp: run split: option.splits)
  next
    case (Inl e)
    let ?t3 = "t2 @ [TimerWait (if a + 1 \<ge> 4 then 300 * int (a + 1) else 300)]"
    have "poll_loop N J (a + 1) (?t3, A2) = (Inr True, (tr', A'))"
      using "1.prems" Inl by (auto simp: run algebra_simps split: option.splits)
    then show ?thesis using "1.IH" [OF a, of False, OF _, of ?t3 A2] st by simp
  qed
qed

section \<open>Tokens\<close>

lemma auth_request_no_token [simp]: "\<not> carries_token (auth_request host url)"
proof -
  have "transform_tolower ''User-Agent'' \<noteq> ''authorization''" "transform_tolower ''Host'' \<noteq> ''authorization''"
    "transform_tolower ''Connection'' \<noteq> ''authorization''" by code_simp+
  then show ?thesis by (simp add: auth_request_def Let_def)
qed

lemma getHttp_keeps [keeps_intros]: "keeps (confined h) (getHttpAsync N url)"
  unfolding getHttpAsync_def by (intro keeps_intros exchange_keeps_confined) simp

lemma other_calls_keep [keeps_intros]:
  "keeps (confined h) (call N (TimerWait t))" "keeps (confined h) (call N (LaunchProcess c))"
  "keeps (confined h) (ask f Random)"
  by (intro keeps_call confined_other; simp)+

lemma generate_loop_keeps [keeps_intros]: "keeps (confined h) (generate_loop N n st)"
  by (induction n arbitrary: st) (auto intro!: keeps_intros)

lemma requestToken_keeps [keeps_intros]: "keeps (confined h) (requestTokenAsync N J)"
  unfolding requestTokenAsync_def by (intro keeps_intros)

lemma poll_loop_keeps [keeps_intros]: "keeps (confined h) (poll_loop N J a)"
proof (induction N J a rule: poll_loop.induct)
  case (1 N J a)
  show ?case
    by (subst poll_loop.simps) (intro keeps_intros "1.IH")
qed

lemma login_keeps [keeps_intros]: "keeps (confined h) (loginAsync N J)"
  unfolding loginAsync_def fetchClientIdAsync_def getAuthUrlAsync_def generateState_def
  by (intro keeps_intros)

lemma fetchUserInfo_keeps [keeps_intros]: "keeps (confined h) (fetchUserInfoAsync N J)"
  unfolding fetchUserInfoAsync_def by (intro keeps_intros)

section \<open>Properties\<close>

text \<open>
  C30: The login flow is bounded. Whatever the servers answer, it asks for the token at most ten
  times and waits at most 18.6 seconds in total: 300 ms before every request, and after a failed
  one 300 ms for the first three, then 300 ms times the number of failures.
\<close>

theorem login_is_bounded:
  "\<exists>cs k. fst (snd (loginAsync N J (tr, A))) = tr @ cs \<and>
     waits cs = take k [300, 300, 300, 300, 300, 300, 300, 1200, 300, 1500, 300, 1800, 300, 2100,
                        300, 2400, 300, 2700, 300, 3000] \<and>
     sum_list (waits cs) \<le> 18600 \<and> token_requests cs \<le> 10"
proof -
  let ?w = "[300, 300, 300, 300, 300, 300, 300, 1200, 300, 1500, 300, 1800, 300, 2100,
    300, 2400, 300, 2700, 300, 3000] :: int list"
  have plan: "planned_waits 0 = ?w" by (simp add: planned_waits_def upt_conv_Cons)
  have sum: "sum_list (take k ?w) \<le> 18600" for k by (simp add: take_Cons')
  from loginAsync_split [of N J tr A] show ?thesis
  proof (elim disjE exE conjE)
    fix cs e
    assume "fst (snd (loginAsync N J (tr, A))) = tr @ cs" "waits cs = []" "token_requests cs = 0"
    then show ?thesis by (intro exI [of _ cs] exI [of _ 0]) simp
  next
    fix c1 A'
    assume c1: "waits c1 = []" "token_requests c1 = 0"
      and l: "loginAsync N J (tr, A) = bindA (poll_loop N J 0)
        (\<lambda>got. if got then ret () else throw (RuntimeError ''Authorization timeout'')) (tr @ c1, A')"
    obtain cs k where "fst (snd (poll_loop N J 0 (tr @ c1, A'))) = (tr @ c1) @ cs"
      "waits cs = take k (planned_waits 0)" "token_requests cs \<le> 10"
      using poll_loop_trace [of N J 0 "tr @ c1" A'] by auto
    with c1 l sum [of k] show ?thesis
      unfolding plan by (intro exI [of _ "c1 @ cs"] exI [of _ k]) (auto simp: act_simps split: prod.splits sum.splits)
  qed
qed


definition sample_tokens :: "string \<Rightarrow> jval option" where
  "sample_tokens s = (if s = ''{}'' then Some (JObj [(''client_id'', JStr ''c1''),
     (''access_token'', JStr ''t1''), (''refresh_token'', JStr ''r1'')]) else None)"


end
