(* ===== verification/Event_Sub.thy ===== *)
theory Event_Sub
  imports Twitch_Auth
begin

text \<open>
  \<^verbatim>\<open>include/seraphbot/tw/eventsub.hpp\<close>, \<^verbatim>\<open>src/tw/eventsub.cpp\<close> and the two chat classes built
  on it (\<^verbatim>\<open>tw/chat/read\<close>, \<^verbatim>\<open>tw/chat/send\<close>): the EventSub web socket, subscriptions over the
  Helix API, the read loop, and sending chat messages.

  The read loop ends when the socket is closed or an exception is thrown, which nothing
  guarantees, so it takes fuel: \<open>None\<close> means that it is still running.
\<close>

section \<open>The class EventSub\<close>

record EventSub =
  es_cfg :: ClientConfig
  m_stream :: "stream option"
  m_wss :: "stream option"
  m_buffer :: string
  m_callback :: bool
  m_session_id :: string

definition EventSub_new :: "ClientConfig \<Rightarrow> EventSub" where
  "EventSub_new cfg =
     \<lparr>es_cfg = cfg, m_stream = None, m_wss = None, m_buffer = [], m_callback = False, m_session_id = []\<rparr>"

definition getSessionId :: "EventSub \<Rightarrow> string" where
  "getSessionId E = m_session_id E"

definition getTwitchConfig :: "EventSub \<Rightarrow> ClientConfig" where
  "getTwitchConfig E = es_cfg E"

text \<open>
  \<^verbatim>\<open>start\<close> stores the callback. There is one callback in the program; the flag says whether it
  is set, and \<open>doRead\<close> takes it as an argument.
\<close>

definition EventSub_start :: "(EventSub io, unit) act" where
  "EventSub_start = modify_obj (\<lambda>E. E\<lparr>m_callback := True\<rparr>)"

definition session_id_of :: "'j json_lib \<Rightarrow> 'j \<Rightarrow> exn + string" where
  "session_id_of J jsn = bindE (json_at_path J jsn [''payload'', ''session'', ''id'']) (json_get_string J)"

definition EventSub_connect :: "net_env \<Rightarrow> 'j json_lib \<Rightarrow> (EventSub io, unit) act" where
  "EventSub_connect N J =
     catchA
       (bindA get_obj (\<lambda>E.
        bindA (makeSslStreamAsync N (cfg_host (es_cfg E)) (cfg_port (es_cfg E))) (\<lambda>s.
        thenA (modify_obj (\<lambda>E. E\<lparr>m_stream := Some s\<rparr>)) (
        thenA (call N (TlsHandshake s)) (
        thenA (modify_obj (\<lambda>E. E\<lparr>m_wss := Some s\<rparr>)) (
        thenA (call N (WsHandshake s (cfg_host (es_cfg E)) ''/ws'')) (
        bindA (ask_or_throw (net_frame N) (WsRead s)) (\<lambda>welcome.
        bindA (lift (json_parse J welcome)) (\<lambda>jsn.
        bindA (catchA (lift (session_id_of J jsn))
                 (\<lambda>e. throw (RuntimeError ''Failed to extract session.id from welcome message''))) (\<lambda>session_id.
          modify_obj (\<lambda>E. E\<lparr>m_session_id := session_id\<rparr>)))))))))))
       throw"

section \<open>Subscriptions\<close>

definition api_headers :: "ClientConfig \<Rightarrow> (string \<times> string) list" where
  "api_headers cfg =
     (let token = stripOauthPrefix (cfg_access_token cfg)
      in [(''Client-Id'', cfg_client_id cfg), (''Authorization'', ''Bearer '' @ token)])"

definition subscription_request :: "'j json_lib \<Rightarrow> EventSub \<Rightarrow> string \<Rightarrow> string \<Rightarrow> 'j" where
  "subscription_request J E type version =
     (let id = cfg_broadcaster_id (es_cfg E);
          condition = json_object J [(''broadcaster_user_id'', json_string J id), (''user_id'', json_string J id)];
          transport = json_object J [(''method'', json_string J ''websocket''),
                                     (''session_id'', json_string J (m_session_id E))]
      in json_object J [(''type'', json_string J type), (''version'', json_string J version),
                        (''condition'', condition), (''transport'', transport)])"

definition subscribe :: "net_env \<Rightarrow> 'j json_lib \<Rightarrow> string \<Rightarrow> string \<Rightarrow> (EventSub io, unit) act" where
  "subscribe N J type version =
     catchA
       (bindA get_obj (\<lambda>E.
        let cfg = es_cfg E;
            headers = api_headers cfg @ [(''Content-Type'', ''application/json'')];
            request = subscription_request J E type version
        in thenA (lift (json_dump J request)) (
           thenA
             (catchA
               (bindA (lift (json_dump J request)) (\<lambda>body.
                bindA (httpsPostAsync N (helix_host cfg) (helix_port cfg) ''/helix/eventsub/subscriptions'' body headers) (\<lambda>resp.
                bindA (lift (json_parse J resp)) (\<lambda>sub_response.
                  if json_contains J sub_response ''error''
                  then thenA (lift (json_dump J sub_response)) (throw (RuntimeError ''EventSub subscription failed''))
                  else ret ()))))
               throw)
             (call N (TimerWait 300)))))
       throw"

section \<open>The read loop\<close>

text \<open>
  The loop works on the EventSub object; the callback works on the other objects, of type \<open>'w\<close>.
  One pass reads a frame into the buffer, takes the text out, empties the buffer and hands the
  text to the callback if there is one.
\<close>

definition read_body ::
    "net_env \<Rightarrow> (string \<Rightarrow> ('w io, unit) act) \<Rightarrow> stream \<Rightarrow> ((EventSub \<times> 'w) io, unit) act" where
  "read_body N callback ws =
     bindA (ask_or_throw (net_frame N) (WsRead ws)) (\<lambda>frame.
     thenA (modify_obj (\<lambda>(E, w). (E\<lparr>m_buffer := m_buffer E @ frame\<rparr>, w))) (
     bindA get_obj (\<lambda>(E, w).
     let msg = m_buffer E
     in thenA (modify_obj (\<lambda>(E, w). (E\<lparr>m_buffer := []\<rparr>, w))) (
        if m_callback E then zoomA snd (\<lambda>w (E, w'). (E, w)) (callback msg) else ret ()))))"

fun read_loop ::
    "net_env \<Rightarrow> (string \<Rightarrow> ('w io, unit) act) \<Rightarrow> nat \<Rightarrow> (EventSub \<times> 'w) io
      \<Rightarrow> ((exn + unit) \<times> (EventSub \<times> 'w) io) option" where
  "read_loop N callback 0 s = None"
| "read_loop N callback (Suc fuel) (tr, (E, w)) =
     (case m_wss E of
        None \<Rightarrow> Some (Inr (), (tr, (E, w)))
      | Some ws \<Rightarrow>
          if \<not> net_is_open N tr then Some (Inr (), (tr, (E, w)))
          else case read_body N callback ws (tr, (E, w)) of
                 (Inl e, s') \<Rightarrow> Some (Inl e, s')
               | (Inr u, s') \<Rightarrow> read_loop N callback fuel s')"

text \<open>Every exception of the loop is caught and logged.\<close>

definition doRead ::
    "net_env \<Rightarrow> (string \<Rightarrow> ('w io, unit) act) \<Rightarrow> nat \<Rightarrow> (EventSub \<times> 'w) io
      \<Rightarrow> ((exn + unit) \<times> (EventSub \<times> 'w) io) option" where
  "doRead N callback fuel s =
     (if m_wss (fst (snd s)) = None then Some (Inr (), s)
      else case read_loop N callback fuel s of
             None \<Rightarrow> None
           | Some (Inl e, s') \<Rightarrow> Some (Inr (), s')
           | Some (Inr u, s') \<Rightarrow> Some (Inr u, s'))"

section \<open>Closing\<close>

definition EventSub_reconnect :: "(EventSub io, unit) act" where
  "EventSub_reconnect =
     bindA get_obj (\<lambda>E.
     thenA (case m_wss E of None \<Rightarrow> ret () | Some s \<Rightarrow> ask (\<lambda>tr. ()) (WsClose s)) (
     thenA (modify_obj (\<lambda>E. E\<lparr>m_wss := None\<rparr>))
       (ask (\<lambda>tr. ()) (Spawn ''connect''))))"

definition EventSub_shutdown :: "net_env \<Rightarrow> (EventSub io, unit) act" where
  "EventSub_shutdown N =
     bindA get_obj (\<lambda>E.
     thenA (case m_wss E of None \<Rightarrow> ret () | Some s \<Rightarrow> catchA (call N (WsClose s)) (\<lambda>err. ret ()))
       (modify_obj (\<lambda>E. E\<lparr>m_wss := None\<rparr>)))"

section \<open>Chat\<close>

definition requestSubscription :: "net_env \<Rightarrow> 'j json_lib \<Rightarrow> (EventSub io, unit) act" where
  "requestSubscription N J = subscribe N J ''channel.chat.message'' ''1''"

text \<open>\<^verbatim>\<open>chat::Send\<close> holds a copy of the configuration.\<close>

definition Send_message :: "net_env \<Rightarrow> 'j json_lib \<Rightarrow> string \<Rightarrow> string \<Rightarrow> (ClientConfig io, unit) act" where
  "Send_message N J msg sender_id =
     bindA get_obj (\<lambda>cfg.
     let body = json_object J [(''broadcaster_id'', json_string J (cfg_broadcaster_id cfg)),
                               (''message'', json_string J msg), (''sender_id'', json_string J sender_id)]
     in bindA (lift (json_dump J body)) (\<lambda>text.
        bindA (httpsPostAsync N (helix_host cfg) (helix_port cfg) ''/helix/chat/messages'' text (api_headers cfg))
          (\<lambda>resp. ret ())))"

section \<open>Tokens stay with the API host\<close>

lemma confined_handshake_call:
  "invA (\<lambda>(tr, x). confined h tr \<and> s < length tr \<and> Q x) (call N (TlsHandshake s))"
  by (auto simp: invA_def act_simps confined_handshake)

lemma confined_call_later:
  "stream_of c = None \<Longrightarrow> invA (\<lambda>(tr, x). confined h tr \<and> s < length tr \<and> Q x) (call N c)"
  "stream_of c = None \<Longrightarrow> invA (\<lambda>(tr, x). confined h tr \<and> s < length tr \<and> Q x) (ask_or_throw g c)"
  by (auto simp: invA_def act_simps confined_other)

abbreviation es_inv :: "string \<Rightarrow> EventSub io \<Rightarrow> bool" where
  "es_inv h \<equiv> confined_with h (\<lambda>E. helix_host (es_cfg E) = h)"

lemma EventSub_connect_inv: "invA (es_inv h) (EventSub_connect N J)"
  unfolding EventSub_connect_def
  by (intro invA_catchA invA_get_obj invA_makeSslStream inv_intros confined_handshake_call
      confined_call_later invA_modify_obj) auto

lemma subscribe_inv: "invA (es_inv h) (subscribe N J type version)"
  unfolding subscribe_def Let_def
proof (intro invA_catchA invA_get_obj invA_simple, goal_cases)
  case (1 tr E)
  then have h: "helix_host (es_cfg E) = h" by simp
  show ?case unfolding h by (intro inv_intros) simp
qed

lemma requestSubscription_inv: "invA (es_inv h) (requestSubscription N J)"
  unfolding requestSubscription_def by (rule subscribe_inv)

lemma Send_message_inv: "invA (confined_with h (\<lambda>cfg. helix_host cfg = h)) (Send_message N J msg sender_id)"
  unfolding Send_message_def Let_def
proof (rule invA_get_obj, goal_cases)
  case (1 tr cfg)
  then have h: "helix_host cfg = h" by simp
  show ?case unfolding h by (intro inv_intros)
qed

section \<open>What a connection and a subscription have done\<close>

text \<open>
  A connection that is established has made exactly these calls on one fresh stream, and its
  session is the one of the welcome message it read.
\<close>

definition welcomed :: "net_env \<Rightarrow> 'j json_lib \<Rightarrow> net_call list \<Rightarrow> EventSub \<Rightarrow> net_call list \<Rightarrow> EventSub \<Rightarrow> bool" where
  "welcomed N J tr E tr' E' \<longleftrightarrow>
     (let s = length tr; host = cfg_host (es_cfg E);
          opened = tr @ connect_calls s host (cfg_port (es_cfg E)) @ [TlsHandshake s, WsHandshake s host ''/ws'']
      in tr' = opened @ [WsRead s] \<and>
         (case net_frame N opened of
            Inl e \<Rightarrow> False
          | Inr welcome \<Rightarrow>
              (case json_parse J welcome of
                 Inl e \<Rightarrow> False
               | Inr jsn \<Rightarrow>
                   (case session_id_of J jsn of
                      Inl e \<Rightarrow> False
                    | Inr sid \<Rightarrow> E' = E\<lparr>m_stream := Some s, m_wss := Some s, m_session_id := sid\<rparr>))))"

lemma EventSub_connect_welcomed:
  assumes "EventSub_connect N J (tr, E) = (Inr (), (tr', E'))"
  shows "welcomed N J tr E tr' E'"
proof -
  obtain k r where m: "makeSslStreamAsync N (cfg_host (es_cfg E)) (cfg_port (es_cfg E)) (tr, E) =
      (r, (tr @ take k (connect_calls (length tr) (cfg_host (es_cfg E)) (cfg_port (es_cfg E))), E))"
    and r: "r = Inr (length tr) \<and> k = 4 \<or> (\<exists>e. r = Inl e)"
    using makeSslStreamAsync_run [of N "cfg_host (es_cfg E)" "cfg_port (es_cfg E)" tr E] by blast
  have 4: "take 4 (connect_calls s h p) = connect_calls s h p" for s h p by (simp add: connect_calls_def)
  from r show ?thesis
  proof (elim disjE conjE exE)
    fix e assume "r = Inl e"
    with assms m show ?thesis by (simp add: EventSub_connect_def act_simps)
  next
    assume "r = Inr (length tr)" "k = 4"
    with assms m show ?thesis
      by (auto simp: EventSub_connect_def act_simps 4 welcomed_def Let_def
          split: option.splits sum.splits)
  qed
qed

text \<open>
  A subscription that succeeded wrote one request to the API host, and the answer it read has no
  error; the object is not changed.
\<close>

definition subscribed ::
    "net_env \<Rightarrow> 'j json_lib \<Rightarrow> EventSub \<Rightarrow> string \<Rightarrow> string \<Rightarrow> net_call list \<Rightarrow> net_call list \<Rightarrow> bool" where
  "subscribed N J E type version tr tr' \<longleftrightarrow>
     (let cfg = es_cfg E; s = length tr
      in case json_dump J (subscription_request J E type version) of
           Inl e \<Rightarrow> False
         | Inr body \<Rightarrow>
             (let req = post_request (helix_host cfg) ''/helix/eventsub/subscriptions'' body
                          (api_headers cfg @ [(''Content-Type'', ''application/json'')]);
                  written = tr @ connect_calls s (helix_host cfg) (helix_port cfg) @ [TlsHandshake s, HttpWrite s req]
              in tr' = written @ [HttpRead s, TlsShutdown s, TimerWait 300] \<and>
                 (case net_response N written of
                    Inl e \<Rightarrow> False
                  | Inr res \<Rightarrow>
                      (case json_parse J (res_body res) of
                         Inl e \<Rightarrow> False
                       | Inr answer \<Rightarrow> \<not> json_contains J answer ''error''))))"

lemma subscribe_subscribed:
  assumes "subscribe N J type version (tr, E) = (Inr (), (tr', E'))"
  shows "E' = E \<and> subscribed N J E type version tr tr'"
proof -
  let ?cfg = "es_cfg E" and ?hs = "api_headers (es_cfg E) @ [(''Content-Type'', ''application/json'')]"
  obtain body where b: "json_dump J (subscription_request J E type version) = Inr body"
    using assms by (cases "json_dump J (subscription_request J E type version)")
      (auto simp: subscribe_def act_simps Let_def)
  let ?req = "post_request (helix_host ?cfg) ''/helix/eventsub/subscriptions'' body ?hs"
  obtain k r where x: "exchange N (helix_host ?cfg) (helix_port ?cfg) ?req (tr, E) =
      (r, (tr @ take k (exchange_calls (length tr) (helix_host ?cfg) (helix_port ?cfg) ?req), E))"
    and o: "exchange_outcome N tr (helix_host ?cfg) (helix_port ?cfg) ?req k r"
    using exchange_run [of N "helix_host ?cfg" "helix_port ?cfg" ?req tr E] by blast
  note run = subscribe_def act_simps Let_def b https_exchange x
  show ?thesis
  proof (cases r)
    case (Inl e)
    with assms show ?thesis by (simp add: run)
  next
    case (Inr res)
    with o have "k = 8" and "net_response N (tr @ connect_calls (length tr) (helix_host ?cfg) (helix_port ?cfg) @
        [TlsHandshake (length tr), HttpWrite (length tr) ?req]) = Inr res"
      by (simp_all add: exchange_outcome_def exchange_calls_take [OF le0] Let_def)
    with assms Inr show ?thesis
      by (auto simp: run subscribed_def exchange_calls_take [OF le0] split: option.splits sum.splits if_splits)
  qed
qed

section \<open>Delivery\<close>

text \<open>
  The frames \<open>fs\<close> arrive on the socket \<open>ws\<close>: the socket is open and the next read gives the
  first one, the callback handles it without an exception, and the rest arrive after that. After
  the last one the socket is closed, or the read fails. \<open>handled\<close> is the state the callback leaves.
\<close>

fun arrives :: "net_env \<Rightarrow> (string \<Rightarrow> ('w io, unit) act) \<Rightarrow> stream \<Rightarrow> string list \<Rightarrow> 'w io \<Rightarrow> bool" where
  "arrives N callback ws [] (tr, w) \<longleftrightarrow> \<not> net_is_open N tr \<or> isl (net_frame N tr)"
| "arrives N callback ws (f # fs) (tr, w) \<longleftrightarrow>
     net_is_open N tr \<and> net_frame N tr = Inr f \<and>
     (case callback f (tr @ [WsRead ws], w) of (r, s') \<Rightarrow> r = Inr () \<and> arrives N callback ws fs s')"

fun handled :: "(string \<Rightarrow> ('w io, unit) act) \<Rightarrow> stream \<Rightarrow> string list \<Rightarrow> 'w io \<Rightarrow> 'w io" where
  "handled callback ws [] s = s"
| "handled callback ws (f # fs) (tr, w) = handled callback ws fs (snd (callback f (tr @ [WsRead ws], w)))"

lemma read_loop_delivers:
  assumes "arrives N callback ws fs (tr, w)"
    and "m_wss E = Some ws" "m_callback E" "m_buffer E = []"
  shows "\<exists>r tr'. read_loop N callback (Suc (length fs)) (tr, (E, w)) =
       Some (r, (tr', (E, snd (handled callback ws fs (tr, w))))) \<and>
     (tr' = fst (handled callback ws fs (tr, w)) \<or> tr' = fst (handled callback ws fs (tr, w)) @ [WsRead ws])"
  using assms
proof (induction fs arbitrary: tr w)
  case Nil
  then show ?case by (cases "net_frame N tr") (auto simp: read_body_def act_simps)
next
  case (Cons f fs)
  obtain tr1 w1 where cb: "callback f (tr @ [WsRead ws], w) = (Inr (), (tr1, w1))"
    and rest: "arrives N callback ws fs (tr1, w1)"
    using Cons.prems(1) by (auto split: prod.splits)
  have buf: "E\<lparr>m_buffer := []\<rparr> = E" using Cons.prems(4) by (cases E) simp
  have "read_body N callback ws (tr, (E, w)) = (Inr (), (tr1, (E, w1)))"
    using Cons.prems cb by (simp add: read_body_def act_simps Let_def buf)
  with Cons.IH [OF rest Cons.prems(2-)] Cons.prems cb show ?case by simp
qed

section \<open>Properties\<close>

text \<open>
  C24: Every event is delivered. If frames arrive one after the other until the socket closes or
  a read fails, and the callback is set and throws nothing, then the read loop ends, the
  callback has handled exactly these frames in this order, and the loop itself throws nothing.
\<close>

theorem doRead_delivers_all_frames:
  assumes "arrives N callback ws fs (tr, w)"
    and "m_wss E = Some ws" and "m_callback E" and "m_buffer E = []"
  shows "\<exists>tr'. doRead N callback (Suc (length fs)) (tr, (E, w)) =
       Some (Inr (), (tr', (E, snd (handled callback ws fs (tr, w))))) \<and>
     prefix (fst (handled callback ws fs (tr, w))) tr'"
proof -
  obtain r tr' where "read_loop N callback (Suc (length fs)) (tr, (E, w)) =
      Some (r, (tr', (E, snd (handled callback ws fs (tr, w)))))"
    and "tr' = fst (handled callback ws fs (tr, w)) \<or> tr' = fst (handled callback ws fs (tr, w)) @ [WsRead ws]"
    using read_loop_delivers [OF assms] by blast
  then show ?thesis using assms(2) by (cases r) (auto simp: doRead_def)
qed

definition sample_socket :: net_env where
  "sample_socket = sample_net\<lparr>net_frame := (\<lambda>tr. if length tr < 2 then Inr (if tr = [] then ''a'' else ''b'')
       else Inl (SystemError WsClosed ''closed'')), net_is_open := (\<lambda>tr. True)\<rparr>"

definition record_frames :: "string \<Rightarrow> (string list io, unit) act" where
  "record_frames msg = modify_obj (\<lambda>seen. seen @ [msg])"

theorem doRead_delivers_all_frames_witness:
  "\<exists>tr'. doRead sample_socket record_frames 3 ([], ((EventSub_new ClientConfig_default)\<lparr>m_wss := Some 0, m_callback := True\<rparr>, [])) =
     Some (Inr (), (tr', ((EventSub_new ClientConfig_default)\<lparr>m_wss := Some 0, m_callback := True\<rparr>, [''a'', ''b''])))"
proof -
  have "arrives sample_socket record_frames 0 [''a'', ''b''] ([], [])"
    by (simp add: record_frames_def sample_socket_def act_simps)
  moreover have "snd (handled record_frames 0 [''a'', ''b''] ([], [])) = [''a'', ''b'']"
    by (simp add: record_frames_def act_simps)
  ultimately show ?thesis
    using doRead_delivers_all_frames [of sample_socket record_frames 0 "[''a'', ''b'']" "[]" "[]"
        "(EventSub_new ClientConfig_default)\<lparr>m_wss := Some 0, m_callback := True\<rparr>"]
    by (auto simp: EventSub_new_def numeral_3_eq_3)
qed


definition sample_welcome :: "string \<Rightarrow> jval option" where
  "sample_welcome s = (if s = ''{}'' then Some (JObj [(''payload'', JObj [(''session'', JObj [(''id'', JStr ''S1'')])])]) else None)"


end
