(* ===== verification/App_State.thy ===== *)
theory App_State
  imports Prelude
begin

text \<open>
  \<^verbatim>\<open>include/seraphbot/core/chat_message.hpp\<close>, \<^verbatim>\<open>include/seraphbot/core/app_state.hpp\<close> and
  \<^verbatim>\<open>src/core/app_state.cpp\<close>: the chat message, and the state the network threads and the UI
  thread share. Producers queue messages with \<open>pushChatMessage\<close>; the UI drains the queue into
  the chat log with \<open>processPendingMessages\<close>. Each of the operations holds
  \<^verbatim>\<open>m_message_mutex\<close> from its first to its last statement, so a concurrent execution is a
  sequence of whole operations, in the order in which they take the lock.
\<close>

record ChatMessage =
  msg_user :: string
  msg_text :: string
  msg_color :: string
  msg_badges :: "string list"

record AppState =
  chat_log :: "ChatMessage list"
  last_status :: string
  show_debug_window :: bool
  auto_scroll_chat :: bool
  m_pending_messages :: "ChatMessage list"

definition AppState_new :: AppState where
  "AppState_new = \<lparr>chat_log = [], last_status = [], show_debug_window = False,
     auto_scroll_chat = True, m_pending_messages = []\<rparr>"

definition pushChatMessage :: "ChatMessage \<Rightarrow> AppState \<Rightarrow> AppState" where
  "pushChatMessage msg s = s\<lparr>m_pending_messages := m_pending_messages s @ [msg]\<rparr>"

text \<open>The loop: while the queue is not empty, append its front to the log and pop it.\<close>

function drain_loop :: "AppState \<Rightarrow> AppState" where
  "drain_loop s =
     (case m_pending_messages s of
        [] \<Rightarrow> s
      | m # ms \<Rightarrow> drain_loop (s\<lparr>chat_log := chat_log s @ [m], m_pending_messages := ms\<rparr>))"
  by pat_completeness auto
termination
  by (relation "measure (\<lambda>s. length (m_pending_messages s))") auto

declare drain_loop.simps [simp del]

definition processPendingMessages :: "AppState \<Rightarrow> AppState" where
  "processPendingMessages s = drain_loop s"

definition pendingMessageCount :: "AppState \<Rightarrow> nat" where
  "pendingMessageCount s = length (m_pending_messages s)"

definition set_last_status :: "string \<Rightarrow> AppState \<Rightarrow> AppState" where
  "set_last_status status s = s\<lparr>last_status := status\<rparr>"

lemma drain_loop_eq:
  "drain_loop s = s\<lparr>chat_log := chat_log s @ m_pending_messages s, m_pending_messages := []\<rparr>"
proof (induction s rule: drain_loop.induct)
  case (1 s)
  show ?case
  proof (cases "m_pending_messages s")
    case Nil
    then show ?thesis by (simp add: drain_loop.simps [of s])
  next
    case (Cons m ms)
    with "1.IH" [OF Cons] show ?thesis by (simp add: drain_loop.simps [of s])
  qed
qed

section \<open>The contract between producers and the UI\<close>

text \<open>
  What the callers of a message buffer rely on: the log and what is still pending, in this
  order, are all messages pushed so far; draining leaves nothing pending.
\<close>

datatype buffer_op = Push ChatMessage | Drain

fun pushed :: "buffer_op list \<Rightarrow> ChatMessage list" where
  "pushed [] = []"
| "pushed (Push m # ops) = m # pushed ops"
| "pushed (Drain # ops) = pushed ops"

fun buffer_run ::
    "(ChatMessage \<Rightarrow> 'b \<Rightarrow> 'b) \<Rightarrow> ('b \<Rightarrow> 'b) \<Rightarrow> buffer_op list \<Rightarrow> 'b \<Rightarrow> 'b" where
  "buffer_run push drain [] b = b"
| "buffer_run push drain (Push m # ops) b = buffer_run push drain ops (push m b)"
| "buffer_run push drain (Drain # ops) b = buffer_run push drain ops (drain b)"

locale message_buffer =
  fixes visible :: "'b \<Rightarrow> ChatMessage list"
    and pending :: "'b \<Rightarrow> ChatMessage list"
    and push :: "ChatMessage \<Rightarrow> 'b \<Rightarrow> 'b"
    and drain :: "'b \<Rightarrow> 'b"
  assumes visible_push: "visible (push m b) = visible b"
    and pending_push: "pending (push m b) = pending b @ [m]"
    and visible_drain: "visible (drain b) = visible b @ pending b"
    and pending_drain: "pending (drain b) = []"
begin

lemma run_fifo:
  "visible (buffer_run push drain ops b) @ pending (buffer_run push drain ops b) =
     visible b @ pending b @ pushed ops"
proof (induction ops arbitrary: b)
  case Nil
  then show ?case by simp
next
  case (Cons x ops)
  then show ?case
    by (cases x) (simp_all add: visible_push pending_push visible_drain pending_drain)
qed

lemma run_drain_visible:
  "visible (buffer_run push drain (ops @ [Drain]) b) = visible b @ pending b @ pushed ops"
proof -
  have "buffer_run push drain (ops @ [Drain]) b = drain (buffer_run push drain ops b)" for b
    by (induction push drain ops b rule: buffer_run.induct) simp_all
  then show ?thesis using run_fifo [of ops b] by (simp add: visible_drain)
qed

end

lemma pushChatMessage_simps [simp]:
  "chat_log (pushChatMessage m s) = chat_log s"
  "m_pending_messages (pushChatMessage m s) = m_pending_messages s @ [m]"
  "last_status (pushChatMessage m s) = last_status s"
  by (simp_all add: pushChatMessage_def)

lemma processPendingMessages_simps [simp]:
  "chat_log (processPendingMessages s) = chat_log s @ m_pending_messages s"
  "m_pending_messages (processPendingMessages s) = []"
  "last_status (processPendingMessages s) = last_status s"
  by (simp_all add: processPendingMessages_def drain_loop_eq)

lemma set_last_status_simps [simp]:
  "chat_log (set_last_status x s) = chat_log s"
  "m_pending_messages (set_last_status x s) = m_pending_messages s"
  "last_status (set_last_status x s) = x"
  by (simp_all add: set_last_status_def)

interpretation chat_buffer: message_buffer
  chat_log m_pending_messages pushChatMessage processPendingMessages
  by unfold_locales simp_all

section \<open>Properties\<close>

text \<open>
  C22: Whatever way pushes of the network threads and drains of the UI thread interleave, no
  message is lost, duplicated or reordered: after a final drain the chat log is the earlier log
  followed by every message pushed, in the order of the pushes, and nothing is pending.
\<close>

theorem chat_messages_fifo:
  "chat_log (buffer_run pushChatMessage processPendingMessages (ops @ [Drain]) s) =
     chat_log s @ m_pending_messages s @ pushed ops
   \<and> chat_log (buffer_run pushChatMessage processPendingMessages ops s) @
     m_pending_messages (buffer_run pushChatMessage processPendingMessages ops s) =
     chat_log s @ m_pending_messages s @ pushed ops"
  using chat_buffer.run_drain_visible chat_buffer.run_fifo by blast

text \<open>
  \<open>processPendingMessages\<close> ends with an empty queue and the log extended by exactly the queued
  messages; the other fields are untouched, and the count reported afterwards is 0.
\<close>

theorem processPendingMessages_drains:
  "processPendingMessages s =
     s\<lparr>chat_log := chat_log s @ m_pending_messages s, m_pending_messages := []\<rparr>
   \<and> pendingMessageCount (processPendingMessages s) = 0"
  by (simp add: processPendingMessages_def drain_loop_eq pendingMessageCount_def)

end
