(* ===== verification/Twitch_Service.thy ===== *)
theory Twitch_Service
  imports Event_Sub App_State
begin

text \<open>
  \<^verbatim>\<open>include/seraphbot/core/twitch_service.hpp\<close> and \<^verbatim>\<open>src/core/twitch_service.cpp\<close>: the service
  that logs in, connects to chat, sends messages and turns EventSub notifications into chat
  messages.

  The service is used by the UI thread and by coroutines on the I/O threads. \<^verbatim>\<open>co_spawn\<close> adds a
  task; a task is a coroutine at the point where it will resume. One resumption runs a coroutine
  from one suspension to the next, with the awaited operation of another class as a part of it.
  \<^verbatim>\<open>TwitchService\<close> holds EventSub objects by pointer, and coroutines keep raw pointers to them, so
  the objects have addresses: an object lives as long as the service or the chat reader points
  to it.

  The two callbacks are parameters here, and given by \<^verbatim>\<open>Application\<close>: \<open>on_status\<close> works on the
  application's objects \<open>'w\<close>, \<open>on_message\<close> on everything.
\<close>

section \<open>Data\<close>

datatype State = Disconnected | LoggingIn | LoggedIn | ConnectingToChat | ChatConnected | ErrorState

record TwitchService =
  ts_auth :: Auth
  m_eventsub :: "nat option"
  m_chat_read :: "nat option"
  m_chat_send :: "ClientConfig option"
  m_config :: ClientConfig
  m_state :: State
  m_current_user :: string
  m_message_callback :: bool
  m_status_callback :: bool

definition TwitchService_new :: "ClientConfig \<Rightarrow> TwitchService" where
  "TwitchService_new cfg =
     \<lparr>ts_auth = Auth_new ''seraphbot-oauth-server.onrender.com'', m_eventsub = None, m_chat_read = None,
      m_chat_send = None, m_config = cfg, m_state = Disconnected, m_current_user = [],
      m_message_callback = False, m_status_callback = False\<rparr>"

text \<open>
  The tasks: the login coroutine; \<open>connectToChat\<close> at its start, while it awaits
  \<open>EventSub::connect\<close> on an object, and while it awaits the timer; the read loop before and
  after it entered \<open>doRead\<close>; \<open>EventSub::start\<close>; a subscription; and a message to be sent.
\<close>

datatype task =
    LoginTask
  | ConnectTask
  | OpenTask nat
  | SubscribeChatTask
  | ReadTask
  | ReadingTask nat
  | StartTask nat
  | SubscribeTask nat string string
  | SendTask string

record 'w tw_world =
  tw_service :: TwitchService
  tw_objects :: "EventSub list"
  tw_tasks :: "task list"
  tw_app :: 'w

record 'w tw_callbacks =
  on_message :: "ChatMessage \<Rightarrow> ('w tw_world io, unit) act"
  on_status :: "string \<Rightarrow> 'w \<Rightarrow> 'w"

definition update_service :: "(TwitchService \<Rightarrow> TwitchService) \<Rightarrow> 'w tw_world \<Rightarrow> 'w tw_world" where
  "update_service f W = W\<lparr>tw_service := f (tw_service W)\<rparr>"

definition co_spawn :: "task \<Rightarrow> 'w tw_world \<Rightarrow> 'w tw_world" where
  "co_spawn t W = W\<lparr>tw_tasks := tw_tasks W @ [t]\<rparr>"

text \<open>Code of another class, on its object.\<close>

definition on_auth :: "(Auth io, 'r) act \<Rightarrow> ('w tw_world io, 'r) act" where
  "on_auth m = zoomA (\<lambda>W. ts_auth (tw_service W)) (\<lambda>A. update_service (\<lambda>S. S\<lparr>ts_auth := A\<rparr>)) m"

definition on_object :: "nat \<Rightarrow> (EventSub io, 'r) act \<Rightarrow> ('w tw_world io, 'r) act" where
  "on_object a m = zoomA (\<lambda>W. tw_objects W ! a) (\<lambda>E W. W\<lparr>tw_objects := (tw_objects W)[a := E]\<rparr>) m"

definition on_sender :: "ClientConfig \<Rightarrow> (ClientConfig io, 'r) act \<Rightarrow> ('w tw_world io, 'r) act" where
  "on_sender cfg m = zoomA (\<lambda>W. cfg) (\<lambda>c W. W) m"

section \<open>State\<close>

definition getState :: "'w tw_world \<Rightarrow> State" where
  "getState W = m_state (tw_service W)"

definition canConnectToChat :: "'w tw_world \<Rightarrow> bool" where
  "canConnectToChat W \<longleftrightarrow> m_state (tw_service W) = LoggedIn"

definition canSendMessages :: "'w tw_world \<Rightarrow> bool" where
  "canSendMessages W \<longleftrightarrow> m_state (tw_service W) = ChatConnected"

definition getCurrentUser :: "'w tw_world \<Rightarrow> string" where
  "getCurrentUser W = m_current_user (tw_service W)"

definition setMessageCallback :: "'w tw_world \<Rightarrow> 'w tw_world" where
  "setMessageCallback W = update_service (\<lambda>S. S\<lparr>m_message_callback := True\<rparr>) W"

definition setStatusCallback :: "'w tw_world \<Rightarrow> 'w tw_world" where
  "setStatusCallback W = update_service (\<lambda>S. S\<lparr>m_status_callback := True\<rparr>) W"

definition report_status :: "'w tw_callbacks \<Rightarrow> string \<Rightarrow> 'w tw_world \<Rightarrow> 'w tw_world" where
  "report_status C status W =
     (if m_status_callback (tw_service W) then W\<lparr>tw_app := on_status C status (tw_app W)\<rparr> else W)"

definition setState :: "'w tw_callbacks \<Rightarrow> State \<Rightarrow> string \<Rightarrow> 'w tw_world \<Rightarrow> 'w tw_world" where
  "setState C state status W =
     (let W1 = update_service (\<lambda>S. S\<lparr>m_state := state\<rparr>) W
      in if status \<noteq> [] then report_status C status W1 else W1)"

section \<open>Login\<close>

definition startLogin :: "'w tw_callbacks \<Rightarrow> 'w tw_world \<Rightarrow> 'w tw_world" where
  "startLogin C W =
     (if m_state (tw_service W) \<noteq> Disconnected then W
      else co_spawn LoginTask (setState C LoggingIn ''Starting login process...'' W))"

definition store_login :: "TwitchUserInfo \<Rightarrow> TwitchService \<Rightarrow> TwitchService" where
  "store_login user_info S =
     (let cfg = m_config S
      in S\<lparr>m_current_user := ui_display_name user_info,
           m_config := cfg\<lparr>cfg_access_token := accessToken (ts_auth S),
                           cfg_broadcaster_id := ui_id user_info,
                           cfg_client_id := clientId (ts_auth S)\<rparr>\<rparr>)"

definition login_task :: "net_env \<Rightarrow> 'j json_lib \<Rightarrow> 'w tw_callbacks \<Rightarrow> ('w tw_world io, unit) act" where
  "login_task N J C =
     catchA
       (thenA (on_auth (loginAsync N J)) (
        bindA (on_auth (fetchUserInfoAsync N J)) (\<lambda>user_info.
        thenA (modify_obj (update_service (store_login user_info)))
          (modify_obj (\<lambda>W. setState C LoggedIn (''Logged in as '' @ m_current_user (tw_service W)) W)))))
       (\<lambda>err. modify_obj (setState C ErrorState (''Login failed: '' @ what err)))"

section \<open>Connecting\<close>

text \<open>The new EventSub object gets the next address.\<close>

definition setupChatServices :: "'w tw_world \<Rightarrow> 'w tw_world" where
  "setupChatServices W =
     (let a = length (tw_objects W);
          cfg = m_config (tw_service W);
          W1 = W\<lparr>tw_objects := tw_objects W @ [EventSub_new cfg]\<rparr>
      in update_service (\<lambda>S. S\<lparr>m_eventsub := Some a, m_chat_read := Some a, m_chat_send := Some cfg\<rparr>) W1)"

definition connect_failed :: "'w tw_callbacks \<Rightarrow> exn \<Rightarrow> ('w tw_world io, unit) act" where
  "connect_failed C err = modify_obj (setState C ErrorState (''Chat connection failed: '' @ what err))"

text \<open>\<open>connectToChat\<close>, from each suspension to the next.\<close>

definition connectToChat :: "'w tw_callbacks \<Rightarrow> ('w tw_world io, unit) act" where
  "connectToChat C =
     bindA get_obj (\<lambda>W.
       if m_state (tw_service W) \<noteq> LoggedIn then ret ()
       else thenA (modify_obj (setState C ConnectingToChat ''Connecting to chat...'')) (
            thenA (modify_obj setupChatServices)
              (modify_obj (\<lambda>W. co_spawn (OpenTask (the (m_eventsub (tw_service W)))) W))))"

definition connect_opened :: "net_env \<Rightarrow> 'j json_lib \<Rightarrow> 'w tw_callbacks \<Rightarrow> nat \<Rightarrow> ('w tw_world io, unit) act" where
  "connect_opened N J C a =
     catchA
       (thenA (on_object a (EventSub_connect N J)) (
        thenA (modify_obj (co_spawn ReadTask)) (
        thenA (modify_obj (\<lambda>W. co_spawn (StartTask (the (m_eventsub (tw_service W)))) W))
          (modify_obj (co_spawn SubscribeChatTask)))))
       (connect_failed C)"

definition c_subscriptions :: "(string \<times> string) list" where
  "c_subscriptions =
     [(''channel.update'', ''2''), (''channel.ad_break.begin'', ''1''), (''channel.chat.clear'', ''1''),
      (''channel.chat.clear_user_messages'', ''1''), (''channel.chat.message_delete'', ''1''),
      (''channel.chat.notification'', ''1''), (''stream.online'', ''1'')]"

definition spawn_subscriptions :: "'w tw_world \<Rightarrow> 'w tw_world" where
  "spawn_subscriptions W =
     fold (\<lambda>(type, version) W. co_spawn (SubscribeTask (the (m_eventsub (tw_service W))) type version) W)
       c_subscriptions W"

definition connect_subscribe :: "net_env \<Rightarrow> 'j json_lib \<Rightarrow> 'w tw_callbacks \<Rightarrow> ('w tw_world io, unit) act" where
  "connect_subscribe N J C =
     catchA
       (thenA (call N (TimerWait 500)) (
        bindA get_obj (\<lambda>W.
        thenA (on_object (the (m_chat_read (tw_service W))) (requestSubscription N J)) (
        thenA (modify_obj spawn_subscriptions)
          (modify_obj (setState C ChatConnected ''Connected to chat''))))))
       (connect_failed C)"

section \<open>Messages\<close>

definition TwitchService_sendMessage :: "string \<Rightarrow> 'w tw_world \<Rightarrow> 'w tw_world" where
  "TwitchService_sendMessage message W =
     (if m_state (tw_service W) \<noteq> ChatConnected then W else co_spawn (SendTask message) W)"

definition send_task ::
    "net_env \<Rightarrow> 'j json_lib \<Rightarrow> 'w tw_callbacks \<Rightarrow> string \<Rightarrow> ('w tw_world io, unit) act" where
  "send_task N J C message =
     catchA
       (bindA get_obj (\<lambda>W.
          on_sender (the (m_chat_send (tw_service W)))
            (Send_message N J message (cfg_broadcaster_id (m_config (tw_service W))))))
       (\<lambda>err. modify_obj (report_status C (''Failed to send message: '' @ what err)))"

definition disconnect :: "'w tw_callbacks \<Rightarrow> 'w tw_world \<Rightarrow> 'w tw_world" where
  "disconnect C W =
     update_service (\<lambda>S. S\<lparr>m_chat_read := None, m_chat_send := None, m_eventsub := None, m_current_user := []\<rparr>)
       (setState C Disconnected ''Disconnected'' W)"

section \<open>Notifications\<close>

definition json_string_at :: "'j json_lib \<Rightarrow> 'j \<Rightarrow> string list \<Rightarrow> exn + string" where
  "json_string_at J j ks = bindE (json_path J j ks) (json_get_string J)"

fun badge_loop :: "'j json_lib \<Rightarrow> 'j list \<Rightarrow> string list \<Rightarrow> exn + string list" where
  "badge_loop J [] badges = Inr badges"
| "badge_loop J (badge # rest) badges =
     bindE (json_string_at J badge [''set_id'']) (\<lambda>set_id. badge_loop J rest (badges @ [set_id]))"

text \<open>The branch for chat messages; \<open>None\<close> is the early return for an incomplete one.\<close>

definition chat_notification :: "'j json_lib \<Rightarrow> 'j \<Rightarrow> exn + ChatMessage option" where
  "chat_notification J raw_msg =
     bindE (json_path J raw_msg [''payload'', ''event'']) (\<lambda>event.
     if \<not> json_contains J event ''chatter_user_name'' \<or> \<not> json_contains J event ''message'' then Inr None
     else bindE (json_path J event [''message'']) (\<lambda>message.
       if \<not> json_contains J message ''text'' then Inr None
       else bindE (json_string_at J event [''chatter_user_name'']) (\<lambda>chatter.
            bindE (json_string_at J event [''message'', ''text'']) (\<lambda>text.
            bindE (json_string_at J event [''color'']) (\<lambda>color.
            bindE (json_path J event [''badges'']) (\<lambda>badge_list.
            bindE (badge_loop J (json_elems J badge_list) []) (\<lambda>badges.
              Inr (Some \<lparr>msg_user = chatter, msg_text = text, msg_color = color, msg_badges = badges\<rparr>))))))))"

definition system_message :: "string \<Rightarrow> ChatMessage" where
  "system_message text = \<lparr>msg_user = ''System'', msg_text = text, msg_color = ''#AAAAAA'', msg_badges = []\<rparr>"

definition on_chat_message :: "'j json_lib \<Rightarrow> 'w tw_callbacks \<Rightarrow> 'j \<Rightarrow> ('w tw_world io, unit) act" where
  "on_chat_message J C raw_msg =
     bindA (lift (chat_notification J raw_msg)) (\<lambda>chat_msg.
       case chat_msg of None \<Rightarrow> ret () | Some m \<Rightarrow> on_message C m)"

definition on_ad_break :: "'j json_lib \<Rightarrow> 'w tw_callbacks \<Rightarrow> 'j \<Rightarrow> ('w tw_world io, unit) act" where
  "on_ad_break J C raw_msg =
     bindA (lift (json_string_at J raw_msg [''payload'', ''event'', ''duration_seconds''])) (\<lambda>text.
       on_message C (system_message (text @ '' second ad break beginning.'')))"

definition handleEventSubMessage ::
    "'j json_lib \<Rightarrow> 'w tw_callbacks \<Rightarrow> string \<Rightarrow> ('w tw_world io, unit) act" where
  "handleEventSubMessage J C msg =
     catchA
       (bindA (lift (json_parse J msg)) (\<lambda>raw_msg.
        if \<not> json_contains J raw_msg ''metadata'' then ret ()
        else bindA (lift (json_path J raw_msg [''metadata'', ''message_type''])) (\<lambda>message_type.
        if \<not> json_eq J message_type (json_string J ''notification'') then ret ()
        else bindA (lift (json_string_at J raw_msg [''metadata'', ''subscription_type''])) (\<lambda>type.
        bindA get_obj (\<lambda>W.
        let callback = m_message_callback (tw_service W)
        in thenA (if type = ''channel.chat.message'' \<and> callback then on_chat_message J C raw_msg else ret ()) (
           thenA (if type = ''channel.ad_break.begin'' \<and> callback then on_ad_break J C raw_msg else ret ())
             (if type = ''channel.chat.clear'' \<and> callback
              then on_message C (system_message ''Chat clear requested'') else ret ())))))))
       (\<lambda>err. ret ())"

text \<open>The callback that \<open>connectToChat\<close> hands to \<open>EventSub::start\<close>.\<close>

definition eventsub_callback ::
    "'j json_lib \<Rightarrow> 'w tw_callbacks \<Rightarrow> string \<Rightarrow> ('w tw_world io, unit) act" where
  "eventsub_callback J C msg = catchA (handleEventSubMessage J C msg) (\<lambda>err. ret ())"

section \<open>Resuming a task\<close>

text \<open>
  The read coroutine: entering \<open>doRead\<close>, and one pass of its loop. Exceptions of the loop are
  caught and logged in \<open>doRead\<close>, so a failed read ends the task.
\<close>

definition read_task :: "('w tw_world io, unit) act" where
  "read_task =
     bindA get_obj (\<lambda>W.
     let a = the (m_eventsub (tw_service W))
     in if m_wss (tw_objects W ! a) = None then ret () else modify_obj (co_spawn (ReadingTask a)))"

definition put_object :: "nat \<Rightarrow> EventSub \<Rightarrow> 'w tw_world \<Rightarrow> 'w tw_world" where
  "put_object a E W = W\<lparr>tw_objects := (tw_objects W)[a := E]\<rparr>"

definition reading_task :: "net_env \<Rightarrow> 'j json_lib \<Rightarrow> 'w tw_callbacks \<Rightarrow> nat \<Rightarrow> ('w tw_world io, unit) act" where
  "reading_task N J C a = (\<lambda>(tr, W).
     case m_wss (tw_objects W ! a) of
       None \<Rightarrow> (Inr (), (tr, W))
     | Some ws \<Rightarrow>
         if \<not> net_is_open N tr then (Inr (), (tr, W))
         else case read_body N (eventsub_callback J C) ws (tr, (tw_objects W ! a, W)) of
                (Inl err, (tr', (E, W'))) \<Rightarrow> (Inr (), (tr', put_object a E W'))
              | (Inr u, (tr', (E, W'))) \<Rightarrow> (Inr (), (tr', co_spawn (ReadingTask a) (put_object a E W'))))"

fun resume :: "net_env \<Rightarrow> 'j json_lib \<Rightarrow> 'w tw_callbacks \<Rightarrow> task \<Rightarrow> ('w tw_world io, unit) act" where
  "resume N J C LoginTask = login_task N J C"
| "resume N J C ConnectTask = connectToChat C"
| "resume N J C (OpenTask a) = connect_opened N J C a"
| "resume N J C SubscribeChatTask = connect_subscribe N J C"
| "resume N J C ReadTask = read_task"
| "resume N J C (ReadingTask a) = reading_task N J C a"
| "resume N J C (StartTask a) = on_object a EventSub_start"
| "resume N J C (SubscribeTask a type version) =
     catchA (on_object a (subscribe N J type version)) (\<lambda>err. ret ())"
| "resume N J C (SendTask message) = send_task N J C message"

text \<open>
  The pointers a resumption dereferences. An EventSub object is alive while the service or the
  chat reader owns it.
\<close>

definition alive :: "nat \<Rightarrow> 'w tw_world \<Rightarrow> bool" where
  "alive a W \<longleftrightarrow> m_eventsub (tw_service W) = Some a \<or> m_chat_read (tw_service W) = Some a"

fun pointers_ok :: "task \<Rightarrow> 'w tw_world \<Rightarrow> bool" where
  "pointers_ok LoginTask W \<longleftrightarrow> True"
| "pointers_ok ConnectTask W \<longleftrightarrow> True"
| "pointers_ok (OpenTask a) W \<longleftrightarrow> alive a W \<and> m_eventsub (tw_service W) \<noteq> None"
| "pointers_ok SubscribeChatTask W \<longleftrightarrow> m_chat_read (tw_service W) \<noteq> None \<and> m_eventsub (tw_service W) \<noteq> None"
| "pointers_ok ReadTask W \<longleftrightarrow> m_eventsub (tw_service W) \<noteq> None"
| "pointers_ok (ReadingTask a) W \<longleftrightarrow> alive a W"
| "pointers_ok (StartTask a) W \<longleftrightarrow> alive a W"
| "pointers_ok (SubscribeTask a type version) W \<longleftrightarrow> alive a W"
| "pointers_ok (SendTask message) W \<longleftrightarrow> m_chat_send (tw_service W) \<noteq> None"

section \<open>The contract of the message callback\<close>

text \<open>
  What the service relies on: the callback leaves the service, its objects and the network alone,
  and spawns nothing but messages to be sent, and those only while the service can send.
\<close>

definition only_sends :: "'w tw_world io \<Rightarrow> 'w tw_world io \<Rightarrow> bool" where
  "only_sends s s' \<longleftrightarrow>
     fst s' = fst s \<and> tw_service (snd s') = tw_service (snd s) \<and> tw_objects (snd s') = tw_objects (snd s) \<and>
     (\<exists>ms. tw_tasks (snd s') = tw_tasks (snd s) @ map SendTask ms \<and> (ms \<noteq> [] \<longrightarrow> canSendMessages (snd s)))"

lemma only_sends_refl [simp]: "only_sends s s"
  by (auto simp: only_sends_def)

lemma only_sends_trans: "only_sends s1 s2 \<Longrightarrow> only_sends s2 s3 \<Longrightarrow> only_sends s1 s3"
  unfolding only_sends_def canSendMessages_def
  by (elim conjE exE, intro conjI) (simp, simp, simp, metis append_assoc append_is_Nil_conv map_append)

lemma only_sends_app [simp]: "only_sends (tr, W) (tr, W\<lparr>tw_app := x\<rparr>)"
  by (auto simp: only_sends_def)

lemma only_sends_sendMessage: "only_sends (tr, W) (tr, TwitchService_sendMessage m W)"
proof (cases "canSendMessages W")
  case True
  then have "tw_tasks (TwitchService_sendMessage m W) = tw_tasks W @ map SendTask [m]"
    by (simp add: TwitchService_sendMessage_def canSendMessages_def co_spawn_def)
  with True show ?thesis
    unfolding only_sends_def by (intro conjI exI [of _ "[m]"]) (simp_all add: TwitchService_sendMessage_def co_spawn_def)
qed (simp add: TwitchService_sendMessage_def canSendMessages_def)

text \<open>Code that only sends, by its structure.\<close>

named_theorems sends_intros \<open>rules that show that code only sends\<close>

abbreviation sends :: "('w tw_world io, 'r) act \<Rightarrow> bool" where
  "sends m \<equiv> relA only_sends m"

interpretation sending: state_order only_sends
  by unfold_locales (simp, rule only_sends_trans)

lemmas sending_rules [sends_intros] = sending.rel_rules

lemma sends_simple [sends_intros]: "sends get_obj" "sends (modify_obj (TwitchService_sendMessage msg))"
  by (auto simp: relA_def act_simps only_sends_sendMessage)

locale message_callback =
  fixes C :: "'w tw_callbacks"
  assumes message_sends: "sends (on_message C m)"
begin

lemma handle_sends: "sends (handleEventSubMessage J C msg)"
  unfolding handleEventSubMessage_def on_chat_message_def on_ad_break_def Let_def
  by (intro sends_intros message_sends)

lemma callback_sends: "sends (eventsub_callback J C msg)"
  unfolding eventsub_callback_def by (intro sends_intros handle_sends)

end

section \<open>What a notification does\<close>

text \<open>The frame \<open>msg\<close> is a notification of the given subscription type, with the JSON value \<open>raw\<close>.\<close>

definition is_notification :: "'j json_lib \<Rightarrow> string \<Rightarrow> 'j \<Rightarrow> string \<Rightarrow> bool" where
  "is_notification J msg raw type \<longleftrightarrow>
     json_parse J msg = Inr raw \<and> json_contains J raw ''metadata'' \<and>
     (case json_path J raw [''metadata'', ''message_type''] of
        Inl e \<Rightarrow> False | Inr kind \<Rightarrow> json_eq J kind (json_string J ''notification'')) \<and>
     json_string_at J raw [''metadata'', ''subscription_type''] = Inr type"

text \<open>What a notification does, by its type.\<close>

definition notify :: "'j json_lib \<Rightarrow> 'w tw_callbacks \<Rightarrow> 'j \<Rightarrow> string \<Rightarrow> ('w tw_world io, unit) act" where
  "notify J C raw type =
     (if type = ''channel.chat.message'' then on_chat_message J C raw
      else if type = ''channel.ad_break.begin'' then on_ad_break J C raw
      else if type = ''channel.chat.clear'' then on_message C (system_message ''Chat clear requested'')
      else ret ())"

lemma thenA_ret: "thenA (ret a) m = m" "thenA m (ret ()) = m"
  by (auto simp: fun_eq_iff act_simps split: prod.splits sum.splits)

lemma notification_run:
  assumes "is_notification J msg raw type" and "m_message_callback (tw_service W)"
  shows "handleEventSubMessage J C msg (tr, W) = catchA (notify J C raw type) (\<lambda>err. ret ()) (tr, W)"
proof -
  obtain kind where n: "json_parse J msg = Inr raw" "json_contains J raw ''metadata''"
    "json_path J raw [''metadata'', ''message_type''] = Inr kind"
    "json_eq J kind (json_string J ''notification'')"
    "json_string_at J raw [''metadata'', ''subscription_type''] = Inr type"
    using assms(1) unfolding is_notification_def by (auto split: sum.splits)
  have types: "''channel.chat.message'' \<noteq> ''channel.ad_break.begin''"
    "''channel.chat.message'' \<noteq> ''channel.chat.clear''" "''channel.ad_break.begin'' \<noteq> ''channel.chat.clear''"
    by simp_all
  have "handleEventSubMessage J C msg (tr, W) =
    catchA (thenA (if type = ''channel.chat.message'' then on_chat_message J C raw else ret ()) (
      thenA (if type = ''channel.ad_break.begin'' then on_ad_break J C raw else ret ())
        (if type = ''channel.chat.clear'' then on_message C (system_message ''Chat clear requested'') else ret ())))
      (\<lambda>err. ret ()) (tr, W)"
    unfolding handleEventSubMessage_def catchA_run bindA_run lift_run get_obj_run Let_def
    by (simp only: n assms(2) prod.case sum.case not_True_eq_False if_False HOL.simp_thms get_obj_run bindA_run lift_run)
  also have "\<dots> = catchA (notify J C raw type) (\<lambda>err. ret ()) (tr, W)"
    unfolding notify_def using types by (cases "type = ''channel.chat.message''"; cases "type = ''channel.ad_break.begin''")
      (simp_all only: thenA_ret if_True if_False simp_thms)
  finally show ?thesis .
qed

lemma handle_returns: "fst (handleEventSubMessage J C msg s) = Inr ()"
  unfolding handleEventSubMessage_def by (auto simp: catchA_run ret_run split: prod.splits sum.splits)

lemma badge_loop_all:
  "list_all2 (\<lambda>b n. json_string_at J b [''set_id''] = Inr n) bs ns \<Longrightarrow>
   badge_loop J bs acc = Inr (acc @ ns)"
  by (induction bs ns arbitrary: acc rule: list_all2_induct) simp_all

section \<open>Properties\<close>

text \<open>
  A chat message is handed on exactly once and unchanged. For a notification of a chat message
  with a chatter, a text, a colour and badges, \<open>handleEventSubMessage\<close> does what the message
  callback does with the message of these fields, the badges in their order, and returns even if
  the callback throws.
\<close>

theorem chat_message_delivered:
  assumes "is_notification J msg raw ''channel.chat.message''" and "m_message_callback (tw_service W)"
    and "json_path J raw [''payload'', ''event''] = Inr event"
    and "json_contains J event ''chatter_user_name''" and "json_contains J event ''message''"
    and "json_path J event [''message''] = Inr body" and "json_contains J body ''text''"
    and "json_string_at J event [''chatter_user_name''] = Inr user"
    and "json_string_at J event [''message'', ''text''] = Inr text"
    and "json_string_at J event [''color''] = Inr color"
    and "json_path J event [''badges''] = Inr badge_list"
    and "list_all2 (\<lambda>b n. json_string_at J b [''set_id''] = Inr n) (json_elems J badge_list) badges"
  shows "handleEventSubMessage J C msg (tr, W) =
    (Inr (), snd (on_message C \<lparr>msg_user = user, msg_text = text, msg_color = color, msg_badges = badges\<rparr> (tr, W)))"
proof -
  have "chat_notification J raw =
      Inr (Some \<lparr>msg_user = user, msg_text = text, msg_color = color, msg_badges = badges\<rparr>)"
    unfolding chat_notification_def using assms(3-11) badge_loop_all [OF assms(12), of "[]"]
    by (simp del: json_path.simps)
  then show ?thesis
    unfolding notification_run [OF assms(1,2)] notify_def on_chat_message_def
    by (auto simp: catchA_run bindA_run lift_run ret_run split: prod.splits sum.splits)
qed

definition sample_callbacks :: "ChatMessage list tw_callbacks" where
  "sample_callbacks = \<lparr>on_message = (\<lambda>m. modify_obj (\<lambda>W. W\<lparr>tw_app := tw_app W @ [m]\<rparr>)), on_status = (\<lambda>status x. x)\<rparr>"

definition sample_notification :: jval where
  "sample_notification = JObj
     [(''metadata'', JObj [(''message_type'', JStr ''notification''), (''subscription_type'', JStr ''channel.chat.message'')]),
      (''payload'', JObj [(''event'', JObj
         [(''chatter_user_name'', JStr ''ann''), (''message'', JObj [(''text'', JStr ''!hi'')]), (''color'', JStr ''#FF0000''),
          (''badges'', JArr [JObj [(''set_id'', JStr ''vip'')], JObj [(''set_id'', JStr ''subscriber'')]])])])]"

definition sample_table :: "string \<Rightarrow> jval option" where
  "sample_table s = (if s = ''frame'' then Some sample_notification else None)"

definition sample_world :: "'w \<Rightarrow> 'w tw_world" where
  "sample_world x = \<lparr>tw_service = (TwitchService_new ClientConfig_default)\<lparr>m_message_callback := True\<rparr>,
     tw_objects = [], tw_tasks = [], tw_app = x\<rparr>"

theorem chat_message_delivered_witness:
  "handleEventSubMessage (jval_lib sample_table) sample_callbacks ''frame'' ([], sample_world []) =
    (Inr (), ([], sample_world
      [\<lparr>msg_user = ''ann'', msg_text = ''!hi'', msg_color = ''#FF0000'', msg_badges = [''vip'', ''subscriber'']\<rparr>]))"
proof -
  let ?J = "jval_lib sample_table" and ?event = "JObj
         [(''chatter_user_name'', JStr ''ann''), (''message'', JObj [(''text'', JStr ''!hi'')]), (''color'', JStr ''#FF0000''),
          (''badges'', JArr [JObj [(''set_id'', JStr ''vip'')], JObj [(''set_id'', JStr ''subscriber'')]])]"
  note d = jval_lib_def sample_table_def sample_notification_def json_string_at_def
  have "is_notification ?J ''frame'' sample_notification ''channel.chat.message''"
    by (simp add: is_notification_def d)
  moreover have "m_message_callback (tw_service (sample_world []))" by (simp add: sample_world_def)
  ultimately show ?thesis
    using chat_message_delivered [of ?J "''frame''" sample_notification "sample_world []" ?event
        "JObj [(''text'', JStr ''!hi'')]" "''ann''" "''!hi''" "''#FF0000''"
        "JArr [JObj [(''set_id'', JStr ''vip'')], JObj [(''set_id'', JStr ''subscriber'')]]" "[''vip'', ''subscriber'']"
        sample_callbacks "[]"]
    by (simp add: d sample_callbacks_def sample_world_def act_simps)
qed

end
