(* ===== verification/Service_Runs.thy ===== *)
theory Service_Runs
  imports Twitch_Service
begin

text \<open>
  The runs of \<^verbatim>\<open>TwitchService\<close>: tasks resume in any order, and between resumptions the UI calls
  the service. A run ends in \<open>None\<close> if a task dereferences a null pointer or a destroyed object.

  The UI offers its buttons by the state (\<^verbatim>\<open>ImGuiManager::manageAuth\<close>): it calls \<open>disconnect\<close>
  only in the states \<open>LoggedIn\<close>, \<open>ChatConnected\<close> and \<open>ErrorState\<close>. The theory \<^verbatim>\<open>Application\<close>
  shows that the frames of the program make only such steps.
\<close>

section \<open>Steps and runs\<close>

datatype tw_event = Resume nat | Login | Connect | Send string | Disconnect | AppStep

definition remove_task :: "nat \<Rightarrow> 'w tw_world \<Rightarrow> 'w tw_world" where
  "remove_task i W = W\<lparr>tw_tasks := take i (tw_tasks W) @ drop (Suc i) (tw_tasks W)\<rparr>"

definition may_disconnect :: "State \<Rightarrow> bool" where
  "may_disconnect st \<longleftrightarrow> st = LoggedIn \<or> st = ChatConnected \<or> st = ErrorState"

inductive tw_step ::
    "net_env \<Rightarrow> 'j json_lib \<Rightarrow> 'w tw_callbacks \<Rightarrow> 'w tw_world io \<Rightarrow> tw_event \<Rightarrow> 'w tw_world io option \<Rightarrow> bool"
  for N J C where
    step_resume: "i < length (tw_tasks W) \<Longrightarrow> pointers_ok (tw_tasks W ! i) W \<Longrightarrow>
      tw_step N J C (tr, W) (Resume i) (Some (snd (resume N J C (tw_tasks W ! i) (tr, remove_task i W))))"
  | step_crash: "i < length (tw_tasks W) \<Longrightarrow> \<not> pointers_ok (tw_tasks W ! i) W \<Longrightarrow>
      tw_step N J C (tr, W) (Resume i) None"
  | step_login: "tw_step N J C (tr, W) Login (Some (tr, startLogin C W))"
  | step_connect: "tw_step N J C (tr, W) Connect (Some (tr, co_spawn ConnectTask W))"
  | step_send: "tw_step N J C (tr, W) (Send m) (Some (tr, TwitchService_sendMessage m W))"
  | step_disconnect: "may_disconnect (m_state (tw_service W)) \<Longrightarrow>
      tw_step N J C (tr, W) Disconnect (Some (tr, disconnect C W))"
  | step_app: "tw_step N J C (tr, W) AppStep (Some (tr, W\<lparr>tw_app := x\<rparr>))"

inductive tw_run ::
    "net_env \<Rightarrow> 'j json_lib \<Rightarrow> 'w tw_callbacks \<Rightarrow> 'w tw_world io \<Rightarrow> tw_event list \<Rightarrow> 'w tw_world io option \<Rightarrow> bool"
  for N J C where
    run_nil: "tw_run N J C s [] (Some s)"
  | run_step: "tw_run N J C s evs (Some s') \<Longrightarrow> tw_step N J C s' ev r \<Longrightarrow> tw_run N J C s (evs @ [ev]) r"

inductive_cases tw_run_NilE: "tw_run N J C s [] r"

definition tw_initial :: "ClientConfig \<Rightarrow> 'w \<Rightarrow> 'w tw_world" where
  "tw_initial cfg x =
     setStatusCallback (setMessageCallback
       \<lparr>tw_service = TwitchService_new cfg, tw_objects = [], tw_tasks = [], tw_app = x\<rparr>)"

section \<open>What a resumption changes\<close>

text \<open>
  Most tasks are calm: they leave the service and the configurations of the EventSub objects
  alone and add tasks at the end.
\<close>

definition calm :: "task list \<Rightarrow> 'w tw_world \<Rightarrow> 'w tw_world \<Rightarrow> bool" where
  "calm new W W' \<longleftrightarrow>
     tw_service W' = tw_service W \<and> map es_cfg (tw_objects W') = map es_cfg (tw_objects W) \<and>
     tw_tasks W' = tw_tasks W @ new"

lemma calm_refl [simp]: "calm [] W W"
  by (simp add: calm_def)

lemma calm_app [simp]: "calm [] W (W\<lparr>tw_app := x\<rparr>)"
  by (simp add: calm_def)

lemma map_update_same: "f x = f (xs ! i) \<Longrightarrow> map f (xs[i := x]) = map f xs"
  by (metis list_update_id map_update)

lemma calm_put_object: "es_cfg E = es_cfg (tw_objects W ! a) \<Longrightarrow> calm [] W (put_object a E W)"
  by (simp add: calm_def put_object_def map_update_same)

lemma calm_trans: "calm n1 W W1 \<Longrightarrow> calm n2 W1 W2 \<Longrightarrow> calm (n1 @ n2) W W2"
  by (simp add: calm_def)

lemma on_object_put: "on_object a m (tr, W) =
    (fst (m (tr, tw_objects W ! a)), (fst (snd (m (tr, tw_objects W ! a))), put_object a (snd (snd (m (tr, tw_objects W ! a)))) W))"
  by (simp add: on_object_def act_simps put_object_def)

definition keeps_cfg :: "(EventSub io, 'r) act \<Rightarrow> bool" where
  "keeps_cfg m \<longleftrightarrow> (\<forall>tr E. es_cfg (snd (snd (m (tr, E)))) = es_cfg E)"

lemma keeps_cfg_inv: "(\<And>c. invA (\<lambda>(tr, E). es_cfg E = c) m) \<Longrightarrow> keeps_cfg m"
  unfolding keeps_cfg_def invA_def by (metis (mono_tags, lifting) case_prod_beta fst_conv snd_conv)

lemma invA_other_object: "(\<And>s. snd (snd (m s)) = snd s) \<Longrightarrow> invA (\<lambda>(tr, x). Q x) m"
  by (simp add: invA_def case_prod_beta)

lemma makeSslStream_object: "snd (snd (makeSslStreamAsync N host port s)) = snd s"
  using makeSslStreamAsync_run [of N host port "fst s" "snd s"] by auto

lemma call_object: "snd (snd (call N c s)) = snd s" "snd (snd (ask f c s)) = snd s"
  "snd (snd (ask_or_throw g c s)) = snd s"
  by (cases s; simp add: act_simps)+

lemma EventSub_keeps_cfg:
  "keeps_cfg (EventSub_connect N J)" "keeps_cfg (subscribe N J type version)"
  "keeps_cfg (requestSubscription N J)" "keeps_cfg EventSub_start"
proof -
  note rules = invA_catchA invA_get_obj inv_intros invA_other_object makeSslStream_object call_object
    helix.post_object invA_modify_obj
  show "keeps_cfg (EventSub_connect N J)"
    unfolding EventSub_connect_def by (rule keeps_cfg_inv) (intro rules; simp)
  show s: "keeps_cfg (subscribe N J type version)" for type version
    unfolding subscribe_def Let_def by (rule keeps_cfg_inv) (intro rules; simp)
  show "keeps_cfg (requestSubscription N J)" unfolding requestSubscription_def by (rule s)
  show "keeps_cfg EventSub_start" by (simp add: keeps_cfg_def EventSub_start_def act_simps)
qed

lemma on_object_calm:
  assumes "keeps_cfg m"
  shows "\<exists>r tr' W'. on_object a m (tr, W) = (r, (tr', W')) \<and> calm [] W W'"
  using assms unfolding on_object_put keeps_cfg_def by (metis calm_put_object)

lemma login_effect:
  "\<exists>tr' W'. login_task N J C (tr, W) = (Inr (), (tr', W')) \<and>
     tw_objects W' = tw_objects W \<and> tw_tasks W' = tw_tasks W \<and>
     m_eventsub (tw_service W') = m_eventsub (tw_service W) \<and>
     m_chat_read (tw_service W') = m_chat_read (tw_service W) \<and>
     m_chat_send (tw_service W') = m_chat_send (tw_service W) \<and>
     m_message_callback (tw_service W') = m_message_callback (tw_service W) \<and>
     (m_state (tw_service W') = ErrorState \<and> m_config (tw_service W') = m_config (tw_service W) \<or>
      m_state (tw_service W') = LoggedIn)"
proof -
  let ?S = "tw_service W"
  obtain r1 tr1 A1 where 1: "loginAsync N J (tr, ts_auth ?S) = (r1, (tr1, A1))"
    by (metis prod.collapse)
  obtain r2 tr2 A2 where 2: "fetchUserInfoAsync N J (tr1, A1) = (r2, (tr2, A2))"
    by (metis prod.collapse)
  note run = login_task_def on_auth_def act_simps update_service_def setState_def report_status_def
    store_login_def Let_def 1 2
  show ?thesis by (cases r1; cases r2) (simp_all add: run)
qed

lemma connect_effect:
  "connectToChat C (tr, W) =
     (Inr (), (tr, if m_state (tw_service W) \<noteq> LoggedIn then W
        else co_spawn (OpenTask (length (tw_objects W)))
               (setupChatServices (setState C ConnectingToChat ''Connecting to chat...'' W))))"
  by (simp add: connectToChat_def act_simps setupChatServices_def update_service_def Let_def setState_def
      report_status_def)

lemma setState_simps [simp]:
  "tw_objects (setState C st x W) = tw_objects W" "tw_tasks (setState C st x W) = tw_tasks W"
  "tw_service (setState C st x W) = (tw_service W)\<lparr>m_state := st\<rparr>"
  by (simp_all add: setState_def report_status_def update_service_def Let_def)

lemma opened_effect:
  "\<exists>tr' W'. connect_opened N J C a (tr, W) = (Inr (), (tr', W')) \<and>
     (\<exists>W1. calm [] W W1 \<and>
       (tw_tasks W' = tw_tasks W \<and> tw_objects W' = tw_objects W1 \<and>
          tw_service W' = (tw_service W)\<lparr>m_state := ErrorState\<rparr> \<or>
        calm [ReadTask, StartTask (the (m_eventsub (tw_service W))), SubscribeChatTask] W W'))"
proof -
  obtain r tr1 W1 where o: "on_object a (EventSub_connect N J) (tr, W) = (r, (tr1, W1))" and c: "calm [] W W1"
    using on_object_calm [OF EventSub_keeps_cfg(1)] by blast
  note run = connect_opened_def act_simps o connect_failed_def co_spawn_def
  show ?thesis
  proof (cases r)
    case (Inl e)
    with c show ?thesis by (intro exI conjI) (auto simp: run calm_def)
  next
    case (Inr u)
    with c show ?thesis by (intro exI conjI) (auto simp: run calm_def)
  qed
qed

lemma spawn_subscriptions_eq:
  "spawn_subscriptions W =
     W\<lparr>tw_tasks := tw_tasks W @ map (\<lambda>(ty, v). SubscribeTask (the (m_eventsub (tw_service W))) ty v) c_subscriptions\<rparr>"
  by (simp add: spawn_subscriptions_def c_subscriptions_def co_spawn_def)

lemma subscribe_effect:
  "\<exists>tr' W'. connect_subscribe N J C (tr, W) = (Inr (), (tr', W')) \<and>
     (\<exists>W1 new st. calm [] W W1 \<and> tw_objects W' = tw_objects W1 \<and>
       tw_service W' = (tw_service W)\<lparr>m_state := st\<rparr> \<and> tw_tasks W' = tw_tasks W @ new \<and>
       (st = ErrorState \<and> new = [] \<or>
        st = ChatConnected \<and>
          new = map (\<lambda>(ty, v). SubscribeTask (the (m_eventsub (tw_service W))) ty v) c_subscriptions))"
proof (cases "net_fails N tr (TimerWait 500)")
  case (Some e)
  then show ?thesis
    by (auto simp: connect_subscribe_def act_simps connect_failed_def intro!: exI [of _ W] exI [of _ ErrorState])
next
  case None
  let ?a = "the (m_chat_read (tw_service W))"
  obtain r tr1 W1 where o: "on_object ?a (requestSubscription N J) (tr @ [TimerWait 500], W) = (r, (tr1, W1))"
    and c: "calm [] W W1" using on_object_calm [OF EventSub_keeps_cfg(3)] by blast
  note run = connect_subscribe_def act_simps None o connect_failed_def spawn_subscriptions_eq
  show ?thesis
  proof (cases r)
    case (Inl e)
    with c show ?thesis
      by (auto simp: run calm_def intro!: exI [of _ W1] exI [of _ ErrorState])
  next
    case (Inr u)
    with c show ?thesis
      by (auto simp: run calm_def intro!: exI [of _ W1] exI [of _ ChatConnected])
  qed
qed

lemma read_body_effect:
  assumes "\<And>msg. sends (callback msg)"
  shows "\<exists>r tr' E' W'. read_body N callback ws (tr, (E, W)) = (r, (tr', (E', W'))) \<and>
    es_cfg E' = es_cfg E \<and> only_sends (tr @ [WsRead ws], W) (tr', W')"
proof (cases "net_frame N tr")
  case (Inl e)
  then show ?thesis by (simp add: read_body_def act_simps)
next
  case (Inr frame)
  let ?E = "E\<lparr>m_buffer := []\<rparr>" and ?msg = "m_buffer E @ frame"
  obtain r tr' W' where cb: "callback ?msg (tr @ [WsRead ws], W) = (r, (tr', W'))" by (metis prod.collapse)
  then have "only_sends (tr @ [WsRead ws], W) (tr', W')" using assms unfolding relA_def by (metis snd_conv)
  with Inr cb show ?thesis by (simp add: read_body_def act_simps Let_def)
qed

definition calm_task :: "task \<Rightarrow> bool" where
  "calm_task t \<longleftrightarrow>
     (case t of LoginTask \<Rightarrow> False | ConnectTask \<Rightarrow> False | OpenTask a \<Rightarrow> False | SubscribeChatTask \<Rightarrow> False
      | _ \<Rightarrow> True)"

definition calm_result :: "task \<Rightarrow> 'w tw_world \<Rightarrow> 'w tw_world \<Rightarrow> bool" where
  "calm_result t W W' \<longleftrightarrow>
     (\<exists>ms new. calm (map SendTask ms @ new) W W' \<and> (ms \<noteq> [] \<longrightarrow> canSendMessages W) \<and>
        (new = [] \<or> (\<exists>a. new = [ReadingTask a] \<and>
            (t = ReadingTask a \<or> t = ReadTask \<and> a = the (m_eventsub (tw_service W))))))"

lemma calm_result_simple: "calm [] W W' \<Longrightarrow> calm_result t W W'"
  unfolding calm_result_def by (intro exI [of _ "[]"]) simp

lemma read_effect: "calm_result ReadTask W (snd (snd (read_task (tr, W))))"
proof -
  let ?a = "the (m_eventsub (tw_service W))"
  have "read_task (tr, W) = (Inr (), (tr, if m_wss (tw_objects W ! ?a) = None then W else co_spawn (ReadingTask ?a) W))"
    by (simp add: read_task_def act_simps Let_def)
  moreover have "calm [ReadingTask ?a] W (co_spawn (ReadingTask ?a) W)" by (simp add: calm_def co_spawn_def)
  ultimately show ?thesis
    unfolding calm_result_def
    by (intro exI [of _ "[]"] exI [of _ "if m_wss (tw_objects W ! ?a) = None then [] else [ReadingTask ?a]"]) auto
qed

lemma send_effect: "calm [] W (snd (snd (send_task N J C m (tr, W))))"
  by (auto simp: send_task_def act_simps on_sender_def report_status_def split: prod.splits sum.splits)

context message_callback
begin

lemma reading_effect: "calm_result (ReadingTask a) W (snd (snd (reading_task N J C a (tr, W))))"
proof (cases "m_wss (tw_objects W ! a) = None \<or> \<not> net_is_open N tr")
  case True
  then show ?thesis by (auto simp: reading_task_def calm_result_simple split: option.splits)
next
  case False
  then obtain ws where ws: "m_wss (tw_objects W ! a) = Some ws" "net_is_open N tr" by auto
  obtain r tr' E' W' where b: "read_body N (eventsub_callback J C) ws (tr, (tw_objects W ! a, W)) = (r, (tr', (E', W')))"
    and E: "es_cfg E' = es_cfg (tw_objects W ! a)" and o: "only_sends (tr @ [WsRead ws], W) (tr', W')"
    using read_body_effect [of "eventsub_callback J C", OF callback_sends] by blast
  from o obtain ms where W': "tw_service W' = tw_service W" "tw_objects W' = tw_objects W"
    "tw_tasks W' = tw_tasks W @ map SendTask ms" "ms \<noteq> [] \<longrightarrow> canSendMessages W"
    by (auto simp: only_sends_def)
  have c: "calm (map SendTask ms) W (put_object a E' W')"
    using W' E by (simp add: calm_def put_object_def map_update_same)
  show ?thesis
  proof (cases r)
    case (Inl e)
    with ws b have "snd (snd (reading_task N J C a (tr, W))) = put_object a E' W'" by (simp add: reading_task_def)
    with c W'(4) show ?thesis unfolding calm_result_def by (intro exI [of _ ms] exI [of _ "[]"]) simp
  next
    case (Inr u)
    with ws b have "snd (snd (reading_task N J C a (tr, W))) = co_spawn (ReadingTask a) (put_object a E' W')"
      by (simp add: reading_task_def)
    moreover have "calm (map SendTask ms @ [ReadingTask a]) W (co_spawn (ReadingTask a) (put_object a E' W'))"
      using c by (simp add: calm_def co_spawn_def)
    ultimately show ?thesis using W'(4) unfolding calm_result_def by (intro exI [of _ ms] exI [of _ "[ReadingTask a]"]) simp
  qed
qed

lemma resume_calm:
  assumes "calm_task t"
  shows "calm_result t W (snd (snd (resume N J C t (tr, W))))"
proof (cases t)
  case (StartTask a)
  then show ?thesis
    using on_object_calm [OF EventSub_keeps_cfg(4), of a tr W] by (auto intro: calm_result_simple)
next
  case (SubscribeTask a ty v)
  obtain r tr' W' where "on_object a (subscribe N J ty v) (tr, W) = (r, (tr', W'))" "calm [] W W'"
    using on_object_calm [OF EventSub_keeps_cfg(2)] by blast
  with SubscribeTask show ?thesis by (cases r) (auto simp: act_simps intro: calm_result_simple)
qed (use assms in \<open>simp_all add: calm_task_def read_effect reading_effect send_effect calm_result_simple\<close>)

end

section \<open>The invariant of the service\<close>

text \<open>
  The services of a connection exist together, with the configuration of the login; a login
  coroutine exists exactly while the service is logging in, and one connection coroutine exactly
  while it is connecting.
\<close>

definition is_connecting :: "task \<Rightarrow> bool" where
  "is_connecting t \<longleftrightarrow> (case t of OpenTask a \<Rightarrow> True | SubscribeChatTask \<Rightarrow> True | _ \<Rightarrow> False)"

definition opens :: "nat option \<Rightarrow> task \<Rightarrow> bool" where
  "opens es t \<longleftrightarrow> (case t of OpenTask a \<Rightarrow> es = Some a | _ \<Rightarrow> True)"

definition services_ok :: "TwitchService \<Rightarrow> ClientConfig list \<Rightarrow> bool" where
  "services_ok S cfgs \<longleftrightarrow>
     m_chat_read S = m_eventsub S \<and>
     (case m_eventsub S of
        None \<Rightarrow> m_chat_send S = None
      | Some a \<Rightarrow> a < length cfgs \<and> cfgs ! a = m_config S \<and> m_chat_send S = Some (m_config S)) \<and>
     (m_state S = ConnectingToChat \<or> m_state S = ChatConnected \<longrightarrow> m_eventsub S \<noteq> None) \<and>
     (m_state S = Disconnected \<or> m_state S = LoggingIn \<or> m_state S = LoggedIn \<longrightarrow> m_eventsub S = None)"

definition tasks_ok :: "TwitchService \<Rightarrow> task list \<Rightarrow> bool" where
  "tasks_ok S ts \<longleftrightarrow>
     length (filter (\<lambda>t. t = LoginTask) ts) = (if m_state S = LoggingIn then 1 else 0) \<and>
     length (filter is_connecting ts) = (if m_state S = ConnectingToChat then 1 else 0) \<and>
     list_all (opens (m_eventsub S)) ts"

definition tw_inv :: "'w tw_world \<Rightarrow> bool" where
  "tw_inv W \<longleftrightarrow> services_ok (tw_service W) (map es_cfg (tw_objects W)) \<and> tasks_ok (tw_service W) (tw_tasks W)"

lemma filter_remove:
  assumes "i < length ts"
  shows "length (filter P ts) = (if P (ts ! i) then 1 else 0) + length (filter P (take i ts @ drop (Suc i) ts))"
proof -
  have "filter P ts = filter P (take i ts @ ts ! i # drop (Suc i) ts)" using assms by (simp add: id_take_nth_drop [symmetric])
  then show ?thesis by simp
qed

lemma all_remove: "list_all P ts \<Longrightarrow> list_all P (take i ts @ drop (Suc i) ts)"
  by (auto simp: list_all_iff dest: in_set_takeD in_set_dropD)

lemma opens_other: "\<not> is_connecting t \<Longrightarrow> opens es t"
  by (cases t) (simp_all add: is_connecting_def opens_def)

lemma tasks_ok_calm:
  assumes "tasks_ok S ts" and "i < length ts" and "ts ! i \<noteq> LoginTask" and "\<not> is_connecting (ts ! i)"
    and "\<And>t. t \<in> set new \<Longrightarrow> t \<noteq> LoginTask \<and> \<not> is_connecting t"
  shows "tasks_ok S ((take i ts @ drop (Suc i) ts) @ new)"
proof -
  have "filter (\<lambda>t. t = LoginTask) new = []" "filter is_connecting new = []"
    using assms(5) by (auto simp: filter_empty_conv)
  moreover have "list_all (opens (m_eventsub S)) new"
    using assms(5) opens_other by (auto simp: list_all_iff)
  ultimately show ?thesis
    using assms filter_remove [OF assms(2), of "\<lambda>t. t = LoginTask"] filter_remove [OF assms(2), of is_connecting]
      all_remove [of "opens (m_eventsub S)" ts i]
    by (simp add: tasks_ok_def)
qed

lemma remove_task_simps [simp]:
  "tw_service (remove_task i W) = tw_service W" "tw_objects (remove_task i W) = tw_objects W"
  "tw_tasks (remove_task i W) = take i (tw_tasks W) @ drop (Suc i) (tw_tasks W)" "tw_app (remove_task i W) = tw_app W"
  by (simp_all add: remove_task_def)

text \<open>A login or connection coroutine that runs is the only one, and tells the state.\<close>

lemma tasks_ok_login:
  assumes "tasks_ok S ts" and "i < length ts" and "ts ! i = LoginTask"
  shows "m_state S = LoggingIn \<and> (\<forall>S'. m_state S' \<noteq> LoggingIn \<and> m_state S' \<noteq> ConnectingToChat \<and>
    m_eventsub S' = m_eventsub S \<longrightarrow> tasks_ok S' (take i ts @ drop (Suc i) ts))"
  using assms filter_remove [OF assms(2), of "\<lambda>t. t = LoginTask"] filter_remove [OF assms(2), of is_connecting]
    all_remove [of "opens (m_eventsub S)" ts i]
  by (auto simp: tasks_ok_def is_connecting_def split: if_splits)

lemma tasks_ok_connecting:
  assumes "tasks_ok S ts" and "i < length ts" and "is_connecting (ts ! i)"
  shows "m_state S = ConnectingToChat \<and> (\<forall>S' new. m_state S' \<noteq> LoggingIn \<and> m_eventsub S' = m_eventsub S \<and>
    list_all (\<lambda>t. t \<noteq> LoginTask \<and> opens (m_eventsub S) t) new \<and>
    length (filter is_connecting new) = (if m_state S' = ConnectingToChat then 1 else 0)
    \<longrightarrow> tasks_ok S' ((take i ts @ drop (Suc i) ts) @ new))"
proof -
  have st: "m_state S = ConnectingToChat"
    using assms filter_remove [OF assms(2), of is_connecting] by (auto simp: tasks_ok_def split: if_splits)
  have l: "ts ! i \<noteq> LoginTask" using assms(3) by (auto simp: is_connecting_def)
  have "filter (\<lambda>t. t = LoginTask) new = []" if "list_all (\<lambda>t. t \<noteq> LoginTask \<and> opens (m_eventsub S) t) new" for new
    using that by (auto simp: filter_empty_conv list_all_iff)
  moreover have "list_all (opens (m_eventsub S)) new"
    if "list_all (\<lambda>t. t \<noteq> LoginTask \<and> opens (m_eventsub S) t) new" for new
    using that by (auto simp: list_all_iff)
  ultimately show ?thesis
    using assms st l filter_remove [OF assms(2), of "\<lambda>t. t = LoginTask"] filter_remove [OF assms(2), of is_connecting]
      all_remove [of "opens (m_eventsub S)" ts i]
    by (simp add: tasks_ok_def)
qed

lemma services_ok_state:
  "services_ok S cfgs \<Longrightarrow> m_eventsub S \<noteq> None \<Longrightarrow> st = ErrorState \<or> st = ChatConnected \<Longrightarrow>
   services_ok (S\<lparr>m_state := st\<rparr>) cfgs"
  by (auto simp: services_ok_def split: option.splits)

lemma login_keeps_inv:
  assumes "tw_inv W" and i: "i < length (tw_tasks W)" and l: "tw_tasks W ! i = LoginTask"
  shows "tw_inv (snd (snd (login_task N J C (tr, remove_task i W))))"
proof -
  let ?W = "remove_task i W" and ?S = "tw_service W"
  have s: "services_ok ?S (map es_cfg (tw_objects W))" and t: "tasks_ok ?S (tw_tasks W)"
    using assms(1) by (simp_all add: tw_inv_def)
  obtain tr' W' where "login_task N J C (tr, ?W) = (Inr (), (tr', W'))"
    and W': "tw_objects W' = tw_objects W" "tw_tasks W' = tw_tasks ?W"
      "m_eventsub (tw_service W') = m_eventsub ?S" "m_chat_read (tw_service W') = m_chat_read ?S"
      "m_chat_send (tw_service W') = m_chat_send ?S"
      "m_state (tw_service W') = ErrorState \<or> m_state (tw_service W') = LoggedIn"
    using login_effect [of N J C tr ?W] by auto
  moreover have "m_eventsub ?S = None" "m_chat_read ?S = None" "m_chat_send ?S = None"
    using s tasks_ok_login [OF t i l] by (auto simp: services_ok_def)
  moreover have "tasks_ok (tw_service W') (tw_tasks ?W)"
    using tasks_ok_login [OF t i l] W' by auto
  ultimately show ?thesis by (auto simp: tw_inv_def services_ok_def)
qed

lemma connect_keeps_inv:
  assumes "tw_inv W" and i: "i < length (tw_tasks W)" and l: "tw_tasks W ! i = ConnectTask"
  shows "tw_inv (snd (snd (connectToChat C (tr, remove_task i W))))"
proof -
  let ?W = "remove_task i W" and ?S = "tw_service W"
  have s: "services_ok ?S (map es_cfg (tw_objects W))" and t: "tasks_ok ?S (tw_tasks W)"
    using assms(1) by (simp_all add: tw_inv_def)
  have rest: "tasks_ok ?S (tw_tasks ?W)"
    using tasks_ok_calm [OF t i, of "[]"] l by (simp add: is_connecting_def)
  show ?thesis
  proof (cases "m_state ?S = LoggedIn")
    case False
    with s rest show ?thesis by (simp add: connect_effect tw_inv_def)
  next
    case True
    let ?a = "length (tw_objects W)"
    let ?S' = "?S\<lparr>m_state := ConnectingToChat, m_eventsub := Some ?a, m_chat_read := Some ?a, m_chat_send := Some (m_config ?S)\<rparr>"
    have r: "tw_service (snd (snd (connectToChat C (tr, ?W)))) = ?S'"
      "map es_cfg (tw_objects (snd (snd (connectToChat C (tr, ?W))))) = map es_cfg (tw_objects W) @ [m_config ?S]"
      "tw_tasks (snd (snd (connectToChat C (tr, ?W)))) = tw_tasks ?W @ [OpenTask ?a]"
      using True by (simp_all add: connect_effect setupChatServices_def update_service_def co_spawn_def Let_def EventSub_new_def)
    have "services_ok ?S' (map es_cfg (tw_objects W) @ [m_config ?S])"
      by (simp add: services_ok_def nth_append)
    moreover have "tasks_ok ?S' (tw_tasks ?W @ [OpenTask ?a])"
    proof -
      have "filter is_connecting (tw_tasks ?W) = []" using rest True by (simp add: tasks_ok_def)
      then have "list_all (opens (Some ?a)) (tw_tasks ?W)"
        using opens_other by (auto simp: filter_empty_conv list_all_iff)
      with rest True show ?thesis by (simp add: tasks_ok_def opens_def is_connecting_def)
    qed
    ultimately show ?thesis unfolding tw_inv_def r by blast
  qed
qed

lemma opened_keeps_inv:
  assumes "tw_inv W" and i: "i < length (tw_tasks W)" and l: "tw_tasks W ! i = OpenTask a"
  shows "tw_inv (snd (snd (connect_opened N J C a (tr, remove_task i W))))"
proof -
  let ?W = "remove_task i W" and ?S = "tw_service W"
  have s: "services_ok ?S (map es_cfg (tw_objects W))" and t: "tasks_ok ?S (tw_tasks W)"
    using assms(1) by (simp_all add: tw_inv_def)
  have c: "is_connecting (tw_tasks W ! i)" by (simp add: l is_connecting_def)
  note now = tasks_ok_connecting [OF t i c]
  have es: "m_eventsub ?S \<noteq> None" using s now by (auto simp: services_ok_def)
  have failed: "tasks_ok (?S\<lparr>m_state := ErrorState\<rparr>) (tw_tasks ?W)"
    using now [THEN conjunct2, rule_format, of "?S\<lparr>m_state := ErrorState\<rparr>" "[]"] by simp
  have opened: "tasks_ok ?S (tw_tasks ?W @ [ReadTask, StartTask (the (m_eventsub ?S)), SubscribeChatTask])"
    using now by (simp add: is_connecting_def opens_def)
  obtain tr' W' W1 where "connect_opened N J C a (tr, ?W) = (Inr (), (tr', W'))" and "calm [] ?W W1"
    and "tw_tasks W' = tw_tasks ?W \<and> tw_objects W' = tw_objects W1 \<and> tw_service W' = ?S\<lparr>m_state := ErrorState\<rparr> \<or>
      calm [ReadTask, StartTask (the (m_eventsub ?S)), SubscribeChatTask] ?W W'"
    using opened_effect [of N J C a tr ?W] by auto
  with s es failed opened show ?thesis by (auto simp: tw_inv_def calm_def services_ok_state)
qed

lemma subscribe_keeps_inv:
  assumes "tw_inv W" and i: "i < length (tw_tasks W)" and l: "tw_tasks W ! i = SubscribeChatTask"
  shows "tw_inv (snd (snd (connect_subscribe N J C (tr, remove_task i W))))"
proof -
  let ?W = "remove_task i W" and ?S = "tw_service W"
  let ?subs = "map (\<lambda>(ty, v). SubscribeTask (the (m_eventsub ?S)) ty v) c_subscriptions"
  have s: "services_ok ?S (map es_cfg (tw_objects W))" and t: "tasks_ok ?S (tw_tasks W)"
    using assms(1) by (simp_all add: tw_inv_def)
  have c: "is_connecting (tw_tasks W ! i)" by (simp add: l is_connecting_def)
  note now = tasks_ok_connecting [OF t i c]
  have es: "m_eventsub ?S \<noteq> None" using s now by (auto simp: services_ok_def)
  have failed: "tasks_ok (?S\<lparr>m_state := ErrorState\<rparr>) (tw_tasks ?W)"
    using now [THEN conjunct2, rule_format, of "?S\<lparr>m_state := ErrorState\<rparr>" "[]"] by simp
  have finished: "tasks_ok (?S\<lparr>m_state := ChatConnected\<rparr>) (tw_tasks ?W @ ?subs)"
    using now [THEN conjunct2, rule_format, of "?S\<lparr>m_state := ChatConnected\<rparr>" ?subs]
    by (simp add: c_subscriptions_def is_connecting_def opens_def)
  obtain tr' W' W1 new st where "connect_subscribe N J C (tr, ?W) = (Inr (), (tr', W'))" and "calm [] ?W W1"
    and "tw_objects W' = tw_objects W1" "tw_service W' = ?S\<lparr>m_state := st\<rparr>" "tw_tasks W' = tw_tasks ?W @ new"
    and "st = ErrorState \<and> new = [] \<or> st = ChatConnected \<and> new = ?subs"
    using subscribe_effect [of N J C tr ?W] by auto
  with s es failed finished show ?thesis by (auto simp: tw_inv_def calm_def services_ok_state)
qed

context message_callback
begin

lemma calm_keeps_inv:
  assumes "tw_inv W" and "i < length (tw_tasks W)" and "calm_task (tw_tasks W ! i)"
  shows "tw_inv (snd (snd (resume N J C (tw_tasks W ! i) (tr, remove_task i W))))"
proof -
  let ?W' = "snd (snd (resume N J C (tw_tasks W ! i) (tr, remove_task i W)))"
  obtain ms new where c: "calm (map SendTask ms @ new) (remove_task i W) ?W'"
    and new: "new = [] \<or> (\<exists>a. new = [ReadingTask a])"
    using resume_calm [OF assms(3), of "remove_task i W" N J tr] unfolding calm_result_def by blast
  have "tw_tasks W ! i \<noteq> LoginTask" "\<not> is_connecting (tw_tasks W ! i)"
    using assms(3) by (auto simp: calm_task_def is_connecting_def split: task.splits)
  moreover have "t \<noteq> LoginTask \<and> \<not> is_connecting t" if "t \<in> set (map SendTask ms @ new)" for t
    using that new by (auto simp: is_connecting_def)
  ultimately have "tasks_ok (tw_service W) ((take i (tw_tasks W) @ drop (Suc i) (tw_tasks W)) @ map SendTask ms @ new)"
    using assms(1,2) by (intro tasks_ok_calm) (auto simp: tw_inv_def)
  with c assms(1) show ?thesis by (simp add: tw_inv_def calm_def)
qed

lemma resume_keeps_inv:
  assumes inv: "tw_inv W" and i: "i < length (tw_tasks W)"
  shows "tw_inv (snd (snd (resume N J C (tw_tasks W ! i) (tr, remove_task i W))))"
proof (cases "calm_task (tw_tasks W ! i)")
  case True
  with assms show ?thesis by (rule calm_keeps_inv)
next
  case False
  then consider "tw_tasks W ! i = LoginTask" | "tw_tasks W ! i = ConnectTask"
    | a where "tw_tasks W ! i = OpenTask a" | "tw_tasks W ! i = SubscribeChatTask"
    by (auto simp: calm_task_def split: task.splits)
  then show ?thesis
    by cases (simp_all add: login_keeps_inv [OF assms] connect_keeps_inv [OF assms]
        opened_keeps_inv [OF assms] subscribe_keeps_inv [OF assms])
qed

end

lemma tasks_ok_spawn:
  "tasks_ok S ts \<Longrightarrow> t \<noteq> LoginTask \<Longrightarrow> \<not> is_connecting t \<Longrightarrow> tasks_ok S (ts @ [t])"
  by (simp add: tasks_ok_def opens_other)

lemma startLogin_keeps_inv: "tw_inv W \<Longrightarrow> tw_inv (startLogin C W)"
  by (auto simp: startLogin_def tw_inv_def co_spawn_def services_ok_def tasks_ok_def is_connecting_def opens_def
      split: option.splits)

lemma disconnect_keeps_inv:
  assumes "tw_inv W" and "may_disconnect (m_state (tw_service W))"
  shows "tw_inv (disconnect C W)"
proof -
  have "filter is_connecting (tw_tasks W) = []" "filter (\<lambda>t. t = LoginTask) (tw_tasks W) = []"
    using assms by (auto simp: tw_inv_def tasks_ok_def may_disconnect_def)
  moreover from this(1) have "list_all (opens None) (tw_tasks W)"
    using opens_other by (auto simp: filter_empty_conv list_all_iff)
  ultimately show ?thesis
    by (simp add: tw_inv_def disconnect_def update_service_def services_ok_def tasks_ok_def)
qed

lemma sendMessage_keeps_inv: "tw_inv W \<Longrightarrow> tw_inv (TwitchService_sendMessage m W)"
  by (simp add: TwitchService_sendMessage_def tw_inv_def co_spawn_def tasks_ok_spawn is_connecting_def)

lemma initial_inv: "tw_inv (tw_initial cfg x)"
  by (simp add: tw_initial_def setStatusCallback_def setMessageCallback_def update_service_def TwitchService_new_def
      tw_inv_def services_ok_def tasks_ok_def)

context message_callback
begin

lemma step_keeps_inv:
  assumes "tw_step N J C s ev (Some s')" and "tw_inv (snd s)"
  shows "tw_inv (snd s')"
  using assms
proof cases
  case (step_resume i W tr)
  with assms(2) resume_keeps_inv [of W i N J tr] show ?thesis by simp
next
  case (step_connect tr W)
  with assms(2) show ?thesis by (simp add: tw_inv_def co_spawn_def tasks_ok_spawn is_connecting_def)
next
  case (step_app tr W x)
  with assms(2) show ?thesis by (simp add: tw_inv_def)
qed (use assms(2) startLogin_keeps_inv disconnect_keeps_inv sendMessage_keeps_inv in auto)

lemma run_inv:
  assumes "tw_run N J C s evs r" and "tw_inv (snd s)"
  shows "case r of None \<Rightarrow> True | Some s' \<Rightarrow> tw_inv (snd s')"
  using assms
proof induction
  case (run_step s evs s' ev r)
  then show ?case by (cases r) (auto dest: step_keeps_inv)
qed simp

end

section \<open>Pointers\<close>

text \<open>No task holds a pointer that it must not dereference.\<close>

definition no_dangling :: "'w tw_world \<Rightarrow> bool" where
  "no_dangling W \<longleftrightarrow> list_all (\<lambda>t. pointers_ok t W) (tw_tasks W)"

lemma pointers_ok_cong:
  assumes "m_eventsub (tw_service W') = m_eventsub (tw_service W)" "m_chat_read (tw_service W') = m_chat_read (tw_service W)"
    "m_chat_send (tw_service W') = m_chat_send (tw_service W)"
  shows "pointers_ok t W' = pointers_ok t W"
  by (cases t) (simp_all add: assms alive_def)

lemma pointers_ok_none:
  assumes "m_eventsub (tw_service W) = None" "m_chat_read (tw_service W) = None" "m_chat_send (tw_service W) = None"
    and "pointers_ok t W"
  shows "pointers_ok t W'"
  using assms by (cases t) (simp_all add: alive_def)

lemma no_dangling_extend:
  assumes "no_dangling W" and "tw_tasks W' = tw_tasks W @ new"
    and "m_eventsub (tw_service W') = m_eventsub (tw_service W)" "m_chat_read (tw_service W') = m_chat_read (tw_service W)"
      "m_chat_send (tw_service W') = m_chat_send (tw_service W)"
    and "list_all (\<lambda>t. pointers_ok t W) new"
  shows "no_dangling W'"
  using assms(1,2,6) pointers_ok_cong [OF assms(3-5)] by (simp add: no_dangling_def)

lemma no_dangling_remove: "no_dangling W \<Longrightarrow> no_dangling (remove_task i W)"
  using pointers_ok_cong [of "remove_task i W" W] by (simp add: no_dangling_def all_remove del: list_all_append)

lemma inv_pointers:
  assumes "services_ok (tw_service W) cfgs" and "m_state (tw_service W) = ConnectingToChat \<or> m_state (tw_service W) = ChatConnected"
  obtains a where "m_eventsub (tw_service W) = Some a" "m_chat_read (tw_service W) = Some a"
    "m_chat_send (tw_service W) = Some (m_config (tw_service W))"
  using assms by (auto simp: services_ok_def split: option.splits)

lemma connect_no_dangling:
  assumes "services_ok (tw_service W) cfgs" and "no_dangling W"
  shows "no_dangling (snd (snd (connectToChat C (tr, W))))"
proof (cases "m_state (tw_service W) = LoggedIn")
  case True
  let ?W' = "snd (snd (connectToChat C (tr, W)))"
  have "m_eventsub (tw_service W) = None" "m_chat_read (tw_service W) = None" "m_chat_send (tw_service W) = None"
    using assms(1) True by (auto simp: services_ok_def)
  then have "pointers_ok t ?W'" if "t \<in> set (tw_tasks W)" for t
    using assms(2) that pointers_ok_none [of W t ?W'] by (auto simp: no_dangling_def list_all_iff)
  moreover have "tw_tasks ?W' = tw_tasks W @ [OpenTask (length (tw_objects W))]"
    "m_eventsub (tw_service ?W') = Some (length (tw_objects W))"
    using True by (simp_all add: connect_effect co_spawn_def setupChatServices_def update_service_def Let_def)
  ultimately show ?thesis by (simp add: no_dangling_def list_all_iff alive_def)
qed (use assms(2) in \<open>simp add: connect_effect\<close>)

lemma opened_no_dangling:
  assumes "no_dangling W" and "m_eventsub (tw_service W) = Some b" "m_chat_read (tw_service W) = Some b"
  shows "no_dangling (snd (snd (connect_opened N J C a (tr, W))))"
proof -
  obtain tr' W' W1 where r: "connect_opened N J C a (tr, W) = (Inr (), (tr', W'))" and "calm [] W W1"
    and "tw_tasks W' = tw_tasks W \<and> tw_objects W' = tw_objects W1 \<and>
        tw_service W' = (tw_service W)\<lparr>m_state := ErrorState\<rparr> \<or>
      calm [ReadTask, StartTask (the (m_eventsub (tw_service W))), SubscribeChatTask] W W'"
    using opened_effect [of N J C a tr W] by auto
  then obtain new where "tw_tasks W' = tw_tasks W @ new" "m_eventsub (tw_service W') = m_eventsub (tw_service W)"
    "m_chat_read (tw_service W') = m_chat_read (tw_service W)" "m_chat_send (tw_service W') = m_chat_send (tw_service W)"
    "list_all (\<lambda>t. pointers_ok t W) new"
    using assms(2,3) by (auto simp: calm_def alive_def intro: that [of "[]"] that [of "[ReadTask, StartTask b, SubscribeChatTask]"])
  from no_dangling_extend [OF assms(1) this] r show ?thesis by simp
qed

lemma subscribe_no_dangling:
  assumes "no_dangling W" and "m_eventsub (tw_service W) = Some b"
  shows "no_dangling (snd (snd (connect_subscribe N J C (tr, W))))"
proof -
  obtain tr' W' new st where r: "connect_subscribe N J C (tr, W) = (Inr (), (tr', W'))"
    and S: "tw_service W' = (tw_service W)\<lparr>m_state := st\<rparr>" and t: "tw_tasks W' = tw_tasks W @ new"
    and "st = ErrorState \<and> new = [] \<or> st = ChatConnected \<and>
      new = map (\<lambda>(ty, v). SubscribeTask (the (m_eventsub (tw_service W))) ty v) c_subscriptions"
    using subscribe_effect [of N J C tr W] by blast
  then have "list_all (\<lambda>t. pointers_ok t W) new"
    using assms(2) by (auto simp: list_all_iff alive_def)
  from no_dangling_extend [OF assms(1) t _ _ _ this] S r show ?thesis by simp
qed

context message_callback
begin

lemma calm_no_dangling:
  assumes "services_ok (tw_service W) cfgs" and "no_dangling W" and "calm_task t" and "pointers_ok t W"
  shows "no_dangling (snd (snd (resume N J C t (tr, W))))"
proof -
  let ?W' = "snd (snd (resume N J C t (tr, W)))"
  obtain ms new where c: "calm (map SendTask ms @ new) W ?W'" and m: "ms \<noteq> [] \<longrightarrow> canSendMessages W"
    and new: "new = [] \<or> (\<exists>a. new = [ReadingTask a] \<and> (t = ReadingTask a \<or> t = ReadTask \<and> a = the (m_eventsub (tw_service W))))"
    using resume_calm [OF assms(3), of W N J tr] unfolding calm_result_def by blast
  have "list_all (\<lambda>t. pointers_ok t W) new" using new assms(4) by (auto simp: alive_def)
  moreover have "m_chat_send (tw_service W) \<noteq> None" if "ms \<noteq> []"
    using that m inv_pointers [OF assms(1)] by (auto simp: canSendMessages_def)
  then have "list_all (\<lambda>t. pointers_ok t W) (map SendTask ms)" by (cases ms) (auto simp: list_all_iff)
  ultimately show ?thesis
    using c by (intro no_dangling_extend [OF assms(2), of ?W' "map SendTask ms @ new"]) (simp_all add: calm_def)
qed

lemma resume_no_dangling:
  assumes "tw_inv W" and "no_dangling W" and i: "i < length (tw_tasks W)"
  shows "no_dangling (snd (snd (resume N J C (tw_tasks W ! i) (tr, remove_task i W))))"
proof -
  let ?t = "tw_tasks W ! i" and ?W = "remove_task i W"
  have s: "services_ok (tw_service ?W) (map es_cfg (tw_objects W))" using assms(1) by (simp add: tw_inv_def)
  have d: "no_dangling ?W" using assms(2) by (rule no_dangling_remove)
  have p: "pointers_ok ?t ?W"
    using assms(2) i pointers_ok_cong [of ?W W ?t] by (simp add: no_dangling_def list_all_length)
  have c: "\<exists>b. m_eventsub (tw_service ?W) = Some b \<and> m_chat_read (tw_service ?W) = Some b" if "is_connecting ?t"
  proof -
    have "m_state (tw_service ?W) = ConnectingToChat"
      using tasks_ok_connecting [of "tw_service W", OF _ i that] assms(1) by (simp add: tw_inv_def)
    then show ?thesis using inv_pointers [OF s] by blast
  qed
  consider "calm_task ?t" | "?t = LoginTask" | "?t = ConnectTask" | a where "?t = OpenTask a" | "?t = SubscribeChatTask"
    by (cases ?t) (auto simp: calm_task_def)
  then show ?thesis
  proof cases
    case 2
    with login_effect [of N J C tr ?W] no_dangling_extend [OF d, of _ "[]"] show ?thesis by auto
  next
    case 3
    with connect_no_dangling [OF s d] show ?thesis by simp
  next
    case 4
    then obtain b where "m_eventsub (tw_service ?W) = Some b" "m_chat_read (tw_service ?W) = Some b"
      using c by (auto simp: is_connecting_def)
    from 4 opened_no_dangling [OF d this] show ?thesis by simp
  next
    case 5
    then obtain b where "m_eventsub (tw_service ?W) = Some b" using c by (auto simp: is_connecting_def)
    from 5 subscribe_no_dangling [OF d this] show ?thesis by simp
  qed (use calm_no_dangling [OF s d _ p] in blast)
qed

lemma step_no_dangling:
  assumes "tw_step N J C s ev r" and "tw_inv (snd s)" and "no_dangling (snd s)" and "ev \<noteq> Disconnect"
  shows "\<exists>s'. r = Some s' \<and> no_dangling (snd s')"
  using assms(1)
proof cases
  case (step_resume i W tr)
  with assms(2,3) resume_no_dangling [of W i N J tr] show ?thesis by simp
next
  case (step_crash i W tr)
  with assms(3) show ?thesis by (simp add: no_dangling_def list_all_length)
next
  case (step_login tr W)
  with assms(3) no_dangling_extend [OF assms(3), of "startLogin C W" "[LoginTask]"] show ?thesis
    by (auto simp: startLogin_def co_spawn_def)
next
  case (step_connect tr W)
  with no_dangling_extend [OF assms(3), of "co_spawn ConnectTask W" "[ConnectTask]"] show ?thesis
    by (simp add: co_spawn_def)
next
  case (step_send tr W m)
  have "m_chat_send (tw_service W) \<noteq> None" if "m_state (tw_service W) = ChatConnected"
    using that inv_pointers [of W] assms(2) step_send by (auto simp: tw_inv_def)
  with step_send assms(3) no_dangling_extend [OF assms(3), of "co_spawn (SendTask m) W" "[SendTask m]"] show ?thesis
    by (auto simp: TwitchService_sendMessage_def co_spawn_def)
next
  case (step_app tr W x)
  with no_dangling_extend [OF assms(3), of "W\<lparr>tw_app := x\<rparr>" "[]"] show ?thesis by simp
qed (use assms(4) in simp)

lemma run_no_dangling:
  assumes "tw_run N J C s evs r" and "tw_inv (snd s)" and "no_dangling (snd s)" and "Disconnect \<notin> set evs"
  shows "\<exists>s'. r = Some s' \<and> tw_inv (snd s') \<and> no_dangling (snd s')"
  using assms
proof induction
  case (run_step s evs s' ev r)
  then have "tw_inv (snd s')" "no_dangling (snd s')" "ev \<noteq> Disconnect" by auto
  with step_no_dangling [OF run_step.hyps(2)] step_keeps_inv run_step.hyps(2) show ?case by blast
qed simp

end

end
