(* ===== verification/Discord.thy ===== *)
theory Discord
  imports Http_Client Std_Time
begin

text \<open>
  \<^verbatim>\<open>include/seraphbot/discord/notifications.hpp\<close> and \<^verbatim>\<open>src/discord/notifications.cpp\<close>: the
  notification that a stream is live. It asks the Twitch API about the stream and the game, and
  posts a message with what it learned to the Discord webhook. What fails on the way leaves the
  values that were set before it.
\<close>

section \<open>Replacing placeholders\<close>

text \<open>
  \<^verbatim>\<open>std::regex_replace\<close> with a pattern of literal characters and a format without \<^verbatim>\<open>$\<close> replaces
  every occurrence, from left to right.
\<close>

fun replace_all :: "string \<Rightarrow> string \<Rightarrow> string \<Rightarrow> string" where
  "replace_all pat fmt [] = []"
| "replace_all pat fmt (c # cs) =
     (if pat \<noteq> [] \<and> starts_with (c # cs) pat
      then fmt @ replace_all pat fmt (drop (length pat - 1) cs)
      else c # replace_all pat fmt cs)"

lemma prefix_replace_all:
  assumes "prefix p (replace_all pat fmt s)" and "set p \<inter> set fmt = {}" and "fmt \<noteq> []"
  shows "prefix p s"
  using assms
proof (induction p arbitrary: s)
  case (Cons x p)
  show ?case
  proof (cases s)
    case (Cons c cs)
    show ?thesis
    proof (cases "pat \<noteq> [] \<and> starts_with (c # cs) pat")
      case True
      then have "x = hd fmt" using Cons.prems Cons by (cases fmt) auto
      with Cons.prems show ?thesis by (cases fmt) auto
    next
      case False
      then have "x = c" "prefix p (replace_all pat fmt cs)" using Cons.prems Cons by auto
      with Cons.IH [of cs] Cons.prems Cons show ?thesis by simp
    qed
  qed (use Cons.prems in simp)
qed simp

lemma sublist_skip:
  assumes "sublist p (fmt @ r)" and "set p \<inter> set fmt = {}" and "p \<noteq> []"
  shows "sublist p r"
  using assms
proof (induction fmt)
  case (Cons c fmt)
  have "\<not> prefix p ((c # fmt) @ r)" using Cons.prems by (cases p) auto
  then have "sublist p (fmt @ r)" using Cons.prems by (simp add: sublist_Cons_right)
  with Cons show ?case by simp
qed simp

lemma replace_all_step:
  "pat \<noteq> [] \<and> starts_with (c # cs) pat \<Longrightarrow>
     replace_all pat fmt (c # cs) = fmt @ replace_all pat fmt (drop (length pat - 1) cs)"
  "\<not> (pat \<noteq> [] \<and> starts_with (c # cs) pat) \<Longrightarrow> replace_all pat fmt (c # cs) = c # replace_all pat fmt cs"
  by (simp_all only: replace_all.simps if_True if_False simp_thms)

lemma sublist_replace_all:
  assumes "sublist p (replace_all pat fmt s)" and "set p \<inter> set fmt = {}" and "fmt \<noteq> []" and "p \<noteq> []"
  shows "sublist p s"
  using assms
proof (induction pat fmt s rule: replace_all.induct)
  case (2 pat fmt c cs)
  show ?case
  proof (cases "pat \<noteq> [] \<and> starts_with (c # cs) pat")
    case True
    have "sublist p (replace_all pat fmt (drop (length pat - 1) cs))"
      using "2.prems"(1) sublist_skip [OF _ "2.prems"(2,4)] unfolding replace_all_step(1) [OF True] by blast
    from "2.IH"(1) [OF True this "2.prems"(2-)] have "sublist p cs"
      by (meson sublist_drop sublist_order.order_trans)
    then show ?thesis by (simp only: sublist_Cons_right simp_thms)
  next
    case False
    have "prefix p (replace_all pat fmt (c # cs)) \<or> sublist p (replace_all pat fmt cs)"
      using "2.prems"(1) unfolding replace_all_step(2) [OF False] sublist_Cons_right .
    then show ?thesis
    proof
      assume "prefix p (replace_all pat fmt (c # cs))"
      from prefix_replace_all [OF this "2.prems"(2,3)] show ?thesis by (rule prefix_imp_sublist)
    next
      assume "sublist p (replace_all pat fmt cs)"
      from "2.IH"(2) [OF False this "2.prems"(2-)] show ?thesis by (simp only: sublist_Cons_right simp_thms)
    qed
  qed
qed simp

lemma replace_all_removes:
  assumes "set pat \<inter> set fmt = {}" and "fmt \<noteq> []" and "pat \<noteq> []"
  shows "\<not> sublist pat (replace_all pat fmt s)"
  using assms
proof (induction pat fmt s rule: replace_all.induct)
  case (2 pat fmt c cs)
  show ?case
  proof (cases "pat \<noteq> [] \<and> starts_with (c # cs) pat")
    case True
    from "2.IH"(1) [OF True "2.prems"] show ?thesis
      using sublist_skip [OF _ "2.prems"(1,3)] unfolding replace_all_step(1) [OF True] by blast
  next
    case False
    have "\<not> prefix pat (replace_all pat fmt (c # cs))"
      using prefix_replace_all [OF _ "2.prems"(1,2)] False "2.prems"(3) unfolding starts_with_prefix by blast
    with "2.IH"(2) [OF False "2.prems"] show ?thesis
      unfolding replace_all_step(2) [OF False] sublist_Cons_right by blast
  qed
qed simp

section \<open>The class Notifications\<close>

text \<open>\<open>nt_cfg\<close> is the configuration of the application, which the class refers to.\<close>

record Notifications =
  nt_cfg :: ClientConfig
  m_webhook_url :: string

definition Notifications_new :: "ClientConfig \<Rightarrow> Notifications" where
  "Notifications_new cfg = \<lparr>nt_cfg = cfg, m_webhook_url = []\<rparr>"

definition getWebhookUrl :: "Notifications \<Rightarrow> string" where
  "getWebhookUrl D = m_webhook_url D"

definition setWebhookUrl :: "string \<Rightarrow> Notifications \<Rightarrow> Notifications" where
  "setWebhookUrl webhook_url D = D\<lparr>m_webhook_url := webhook_url\<rparr>"

text \<open>The local variables of \<open>sendMessage\<close> that the requests fill in.\<close>

record stream_info =
  stream_title :: string
  game_name :: string
  thumbnail_url :: string
  game_thumbnail :: string

definition stream_info_default :: stream_info where
  "stream_info_default = \<lparr>stream_title = ''Stream Notification'', game_name = ''Just Chatting'',
     thumbnail_url = [], game_thumbnail = []\<rparr>"

type_synonym sending = "(Notifications \<times> stream_info) io"

definition set_info :: "(stream_info \<Rightarrow> stream_info) \<Rightarrow> (sending, unit) act" where
  "set_info f = modify_obj (\<lambda>(D, V). (D, f V))"

definition notification_headers :: "ClientConfig \<Rightarrow> (string \<times> string) list" where
  "notification_headers cfg =
     (let token = stripOauthPrefix (cfg_access_token cfg)
      in [(''Client-Id'', cfg_client_id cfg), (''Authorization'', ''Bearer '' @ token)])"

definition resize_url :: "string \<Rightarrow> string \<Rightarrow> string \<Rightarrow> string" where
  "resize_url width height url =
     (if url \<noteq> [] then replace_all ''{height}'' height (replace_all ''{width}'' width url) else url)"

definition fetch_game :: "net_env \<Rightarrow> 'j json_lib \<Rightarrow> string \<Rightarrow> (sending, unit) act" where
  "fetch_game N J game_id =
     catchA
       (bindA get_obj (\<lambda>(D, V).
        let cfg = nt_cfg D; url_games = ''/helix/games?id='' @ game_id
        in bindA (httpsGetAsync N (helix_host cfg) (helix_port cfg) url_games (notification_headers cfg)) (\<lambda>game_response.
           bindA (lift (json_parse J game_response)) (\<lambda>games.
           thenA (lift (json_dump J games)) (
           bindA (if json_contains J games ''data'' then ret True
                  else bindA (lift (json_index J games ''data'')) (\<lambda>d. ret (\<not> json_empty J d))) (\<lambda>has_data.
           if has_data
           then bindA (lift (bindE (json_index J games ''data'') (\<lambda>d. json_index_nat J d 0))) (\<lambda>game_data.
                bindA (lift (json_value_string J game_data ''box_art_url'' [])) (\<lambda>url.
                  set_info (\<lambda>V. V\<lparr>game_thumbnail := resize_url ''285'' ''380'' url\<rparr>)))
           else ret ()))))))
       (\<lambda>err. ret ())"

definition fetch_stream :: "net_env \<Rightarrow> 'j json_lib \<Rightarrow> (sending, unit) act" where
  "fetch_stream N J =
     catchA
       (bindA get_obj (\<lambda>(D, V).
        let cfg = nt_cfg D; url = ''/helix/streams?user_id='' @ cfg_broadcaster_id cfg @ ''&type=all''
        in bindA (httpsGetAsync N (helix_host cfg) (helix_port cfg) url (notification_headers cfg)) (\<lambda>response.
           bindA (lift (json_parse J response)) (\<lambda>info.
           thenA (lift (json_dump J info)) (
           bindA (if json_contains J info ''data'' then ret True
                  else bindA (lift (json_index J info ''data'')) (\<lambda>d. ret (\<not> json_empty J d))) (\<lambda>has_data.
           if has_data
           then bindA (lift (bindE (json_index J info ''data'') (\<lambda>d. json_index_nat J d 0))) (\<lambda>data.
                bindA (lift (json_value_string J data ''title'' ''Live Stream'')) (\<lambda>title.
                thenA (set_info (\<lambda>V. V\<lparr>stream_title := title\<rparr>)) (
                bindA (lift (json_value_string J data ''game_name'' ''Just Chatting'')) (\<lambda>game.
                thenA (set_info (\<lambda>V. V\<lparr>game_name := game\<rparr>)) (
                bindA (lift (json_value_string J data ''thumbnail_url'' [])) (\<lambda>thumb.
                thenA (set_info (\<lambda>V. V\<lparr>thumbnail_url := resize_url ''1920'' ''1080'' thumb\<rparr>)) (
                if json_contains J data ''game_id''
                then bindA (lift (bindE (json_index J data ''game_id'') (json_get_string J))) (\<lambda>game_id.
                       if game_id \<noteq> []
                       then bindA (lift (bindE (json_at J data ''game_id'') (json_get_string J))) (fetch_game N J)
                       else ret ())
                else ret ())))))))
           else ret ()))))))
       (\<lambda>err. ret ())"

text \<open>The title starts with the four bytes of U+1F534.\<close>

definition embed_title :: string where
  "embed_title = [CHR 0xF0, CHR 0x9F, CHR 0x94, CHR 0xB4] @ '' Stream is live!''"

definition twitch_url :: "ClientConfig \<Rightarrow> string" where
  "twitch_url cfg =
     ''https://www.twitch.tv/'' @
       (if cfg_broadcaster_id cfg = [] then ''channel_name'' else cfg_broadcaster_id cfg)"

definition embed_of :: "'j json_lib \<Rightarrow> ClientConfig \<Rightarrow> stream_info \<Rightarrow> int \<Rightarrow> 'j" where
  "embed_of J cfg V now =
     (let str = json_string J;
          emb = json_object J
            [(''title'', str embed_title), (''type'', str ''rich''), (''url'', str (twitch_url cfg)),
             (''description'', str (stream_title V)), (''color'', json_int J 9442302),
             (''timestamp'', str (getIsoTimestamp now)),
             (''footer'', json_object J [(''text'', str ''Sent by SeraphBot'')]),
             (''fields'', json_array J [json_object J
                [(''name'', str ''Game''), (''value'', str (game_name V)), (''inline'', json_bool J True)]])];
          emb = (if thumbnail_url V \<noteq> []
                   then json_set J emb ''image'' (json_object J [(''url'', str (thumbnail_url V))]) else emb)
      in if game_thumbnail V \<noteq> []
         then json_set J emb ''thumbnail'' (json_object J [(''url'', str (game_thumbnail V))]) else emb)"

definition payload_of :: "'j json_lib \<Rightarrow> string \<Rightarrow> 'j \<Rightarrow> 'j" where
  "payload_of J message emb =
     json_object J [(''content'', json_string J (''<@&1267602696706199703> '' @ message)),
                    (''embeds'', json_array J [emb])]"

definition post_payload :: "net_env \<Rightarrow> 'j json_lib \<Rightarrow> string \<Rightarrow> (sending, unit) act" where
  "post_payload N J message =
     bindA get_obj (\<lambda>(D, V).
     bindA (ask (net_now N) SystemNow) (\<lambda>now.
     let payload = payload_of J message (embed_of J (nt_cfg D) V now)
     in thenA (lift (json_dump J payload))
          (catchA
            (bindA (lift (json_dump J payload)) (\<lambda>body.
             bindA (httpsPostAsync N ''discord.com'' ''443'' (m_webhook_url D) body []) (\<lambda>resp. ret ())))
            (\<lambda>err. ret ()))))"

definition Notifications_sendMessage ::
    "net_env \<Rightarrow> 'j json_lib \<Rightarrow> string \<Rightarrow> (Notifications io, unit) act" where
  "Notifications_sendMessage N J message =
     zoomA (\<lambda>D. (D, stream_info_default)) (\<lambda>(D, V) D'. D)
       (thenA (fetch_stream N J) (post_payload N J message))"

section \<open>Tokens and posts\<close>

abbreviation sending_inv :: "string \<Rightarrow> sending \<Rightarrow> bool" where
  "sending_inv h \<equiv> confined_with h (\<lambda>(D, V). helix_host (nt_cfg D) = h)"

lemma set_info_inv: "invA (sending_inv h) (set_info f)"
  unfolding set_info_def by (rule invA_modify_obj) (auto split: prod.splits)

lemma fetch_game_inv: "invA (sending_inv h) (fetch_game N J game_id)"
  unfolding fetch_game_def Let_def
proof (intro invA_catchA invA_get_obj invA_simple, goal_cases)
  case (1 tr x)
  then obtain D V where x: "x = (D, V)" and h: "helix_host (nt_cfg D) = h" by (cases x) auto
  show ?case unfolding x prod.case h by (intro inv_intros set_info_inv)
qed

lemma fetch_stream_inv: "invA (sending_inv h) (fetch_stream N J)"
  unfolding fetch_stream_def Let_def
proof (intro invA_catchA invA_get_obj invA_simple, goal_cases)
  case (1 tr x)
  then obtain D V where x: "x = (D, V)" and h: "helix_host (nt_cfg D) = h" by (cases x) auto
  show ?case unfolding x prod.case h by (intro inv_intros set_info_inv fetch_game_inv)
qed

lemma post_payload_inv: "invA (sending_inv h) (post_payload N J message)"
  unfolding post_payload_def Let_def
proof (intro invA_get_obj, goal_cases)
  case (1 tr x)
  then obtain D V where x: "x = (D, V)" by (cases x)
  show ?case unfolding x prod.case by (intro inv_intros invA_foreign_post) simp_all
qed

lemma Notifications_confined:
  "invA (confined_with h (\<lambda>D. helix_host (nt_cfg D) = h)) (Notifications_sendMessage N J message)"
  unfolding invA_def
proof (intro allI impI)
  fix s :: "Notifications io"
  assume "confined_with h (\<lambda>D. helix_host (nt_cfg D) = h) s"
  then obtain tr D where s: "s = (tr, D)" "sending_inv h (tr, (D, stream_info_default))" by (cases s) auto
  let ?m = "thenA (fetch_stream N J) (post_payload N J message)"
  obtain r tr' D' V' where m: "?m (tr, (D, stream_info_default)) = (r, (tr', (D', V')))"
    by (metis prod.collapse)
  have "invA (sending_inv h) ?m" by (intro invA_thenA fetch_stream_inv post_payload_inv)
  from invA_D [OF this s(2)] m
  show "confined_with h (\<lambda>D. helix_host (nt_cfg D) = h) (snd (Notifications_sendMessage N J message s))"
    by (simp add: s(1) Notifications_sendMessage_def zoomA_run)
qed

text \<open>Connections to Discord, and the addresses of pictures after resizing.\<close>

definition discord_connections :: "net_call list \<Rightarrow> nat" where
  "discord_connections tr = length (filter (\<lambda>c. c = Resolve ''discord.com'' ''443'') tr)"

definition sized :: "string \<Rightarrow> bool" where
  "sized url \<longleftrightarrow> \<not> sublist ''{width}'' url \<and> \<not> sublist ''{height}'' url"

lemma sized_Nil [simp]: "sized []"
  by (simp add: sized_def)

lemma resize_url_sized:
  assumes "set ''{width}'' \<inter> set w = {}" "set ''{height}'' \<inter> set h = {}" "set ''{width}'' \<inter> set h = {}"
    and "w \<noteq> []" "h \<noteq> []"
  shows "sized (resize_url w h url)"
proof -
  let ?u = "replace_all ''{width}'' w url"
  have "\<not> sublist ''{width}'' ?u" using assms by (intro replace_all_removes) auto
  then have "\<not> sublist ''{width}'' (replace_all ''{height}'' h ?u)"
    using sublist_replace_all [OF _ assms(3,5)] by blast
  moreover have "\<not> sublist ''{height}'' (replace_all ''{height}'' h ?u)"
    using assms by (intro replace_all_removes) auto
  ultimately show ?thesis by (simp add: resize_url_def sized_def)
qed

lemma connections_append [simp]:
  "discord_connections (tr @ [c]) =
     discord_connections tr + (if c = Resolve ''discord.com'' ''443'' then 1 else 0)"
  by (simp add: discord_connections_def)

lemma makeSsl_connections:
  "\<exists>r tr'. makeSslStreamAsync N host port (tr, x) = (r, (tr', x)) \<and>
     discord_connections tr' = discord_connections tr + (if host = ''discord.com'' \<and> port = ''443'' then 1 else 0)"
proof -
  have c: "discord_connections (tr @ [NewStream, Resolve host port]) =
      discord_connections tr + (if host = ''discord.com'' \<and> port = ''443'' then 1 else 0)"
    "discord_connections (tr @ [NewStream, Resolve host port, TcpConnect s h p]) =
      discord_connections tr + (if host = ''discord.com'' \<and> port = ''443'' then 1 else 0)"
    "discord_connections (tr @ [NewStream, Resolve host port, TcpConnect s h p, SetSni s h]) =
      discord_connections tr + (if host = ''discord.com'' \<and> port = ''443'' then 1 else 0)" for s h p
    by (simp_all add: discord_connections_def)
  show ?thesis
    by (cases "net_fails N (tr @ [NewStream]) (Resolve host port)";
        cases "net_fails N (tr @ [NewStream, Resolve host port]) (TcpConnect (length tr) host port)")
      (simp_all add: makeSslStreamAsync_def act_simps c del: connections_append)
qed

lemma exchange_connections:
  "discord_connections (fst (snd (exchange N host port req (tr, x)))) =
     discord_connections tr + (if host = ''discord.com'' \<and> port = ''443'' then 1 else 0)"
proof -
  obtain r tr' where m: "makeSslStreamAsync N host port (tr, x) = (r, (tr', x))"
    and n: "discord_connections tr' = discord_connections tr + (if host = ''discord.com'' \<and> port = ''443'' then 1 else 0)"
    using makeSsl_connections [of N host port tr x] by blast
  have k: "keeps (\<lambda>tr. discord_connections tr = k)
      (thenA (call N (TlsHandshake s)) (thenA (call N (HttpWrite s req))
        (bindA (ask_or_throw (net_response N) (HttpRead s)) (\<lambda>res.
          thenA (catchSystemA (call N (TlsShutdown s)) (\<lambda>code what. ret ())) (ret res)))))" for k s
    by (intro keeps_intros keeps_call) simp_all
  show ?thesis
  proof (cases r)
    case (Inr s)
    from keepsD [OF k n, of s x] show ?thesis
      unfolding exchange_def bindA_run [of "makeSslStreamAsync N host port"] m Inr by simp
  qed (simp add: exchange_def bindA_run [of "makeSslStreamAsync N host port"] m n)
qed

definition fetching :: "nat \<Rightarrow> Notifications \<Rightarrow> sending \<Rightarrow> bool" where
  "fetching n D0 = (\<lambda>(tr, (D, V)). discord_connections tr = n \<and> D = D0 \<and>
     sized (thumbnail_url V) \<and> sized (game_thumbnail V))"

lemma get_fetching:
  assumes "host \<noteq> ''discord.com''"
  shows "invA (fetching n D0) (httpsGetAsync N host port target hs)"
  unfolding invA_def
proof (intro allI impI)
  fix s assume s: "fetching n D0 s"
  let ?s' = "snd (httpsGetAsync N host port target hs s)"
  have "snd ?s' = snd s" by (rule helix.get_object)
  moreover have "discord_connections (fst ?s') = discord_connections (fst s)"
    using assms exchange_connections [of N host port "get_request host target hs" "fst s" "snd s"]
    by (auto simp: https_exchange act_simps split: prod.splits sum.splits)
  ultimately show "fetching n D0 ?s'" using s by (auto simp: fetching_def case_prod_beta)
qed

lemma set_info_fetching:
  assumes "\<And>V. sized (thumbnail_url V) \<and> sized (game_thumbnail V) \<Longrightarrow> sized (thumbnail_url (f V)) \<and> sized (game_thumbnail (f V))"
  shows "invA (fetching n D0) (set_info f)"
  using assms by (auto simp: invA_def set_info_def fetching_def act_simps)

lemma resize_sized: "sized (resize_url ''1920'' ''1080'' url)" "sized (resize_url ''285'' ''380'' url)"
  by (intro resize_url_sized; simp)+

lemma fetch_game_fetching:
  assumes "helix_host (nt_cfg D0) \<noteq> ''discord.com''"
  shows "invA (fetching n D0) (fetch_game N J game_id)"
  unfolding fetch_game_def Let_def
proof (intro invA_catchA invA_get_obj invA_simple, goal_cases)
  case (1 tr x)
  then obtain V where x: "x = (D0, V)" by (cases x) (auto simp: fetching_def)
  show ?case unfolding x prod.case
    by (intro inv_intros get_fetching assms set_info_fetching) (simp_all add: resize_sized)
qed

lemma fetch_stream_fetching:
  assumes "helix_host (nt_cfg D0) \<noteq> ''discord.com''"
  shows "invA (fetching n D0) (fetch_stream N J)"
  unfolding fetch_stream_def Let_def
proof (intro invA_catchA invA_get_obj invA_simple, goal_cases)
  case (1 tr x)
  then obtain V where x: "x = (D0, V)" by (cases x) (auto simp: fetching_def)
  show ?case unfolding x prod.case
    by (intro inv_intros get_fetching assms set_info_fetching fetch_game_fetching) (simp_all add: resize_sized)
qed

lemma fetch_stream_returns: "fst (fetch_stream N J s) = Inr ()"
  unfolding fetch_stream_def by (auto simp: catchA_run ret_run split: prod.splits sum.splits)

section \<open>Properties\<close>


definition sample_notifications :: Notifications where
  "sample_notifications = setWebhookUrl ''/api/webhooks/1/x'' (Notifications_new ClientConfig_default)"


end
