(* ===== verification/Float32.thy ===== *)
theory Float32
  imports Complex_Main "HOL-Library.Log_Nat"
begin

text \<open>
  The C++ type \<^verbatim>\<open>float\<close> as the sources use it: IEEE-754 binary32 with round to nearest, ties to
  even. A finite float is its exact value, a rational; each operation is the exact operation
  followed by \<open>f32_round\<close>. The sources keep their floats between 0 and 2 ^ 64 and never
  below the normal range except at 0, so neither overflow nor subnormals occur and the rounding works
  at 24 bits of precision for every positive argument.
\<close>

type_synonym float32 = rat

text \<open>The exponent \<open>e\<close> of a positive rational: the one with \<open>2 ^ 23 \<le> q / 2 ^ e < 2 ^ 24\<close>.\<close>

definition f32_exp :: "rat \<Rightarrow> int" where
  "f32_exp q =
     (let (a, b) = quotient_of q; e = bitlen a - bitlen b - 24
      in if q < 2 powi (e + 24) then e else e + 1)"

definition round_half_even :: "rat \<Rightarrow> int" where
  "round_half_even x =
     (let f = \<lfloor>x\<rfloor>; r = x - of_int f
      in if r < 1 / 2 then f else if 1 / 2 < r then f + 1 else if even f then f else f + 1)"

definition f32_round :: "rat \<Rightarrow> float32" where
  "f32_round q =
     (if q = 0 then 0
      else if 0 < q then let e = f32_exp q in of_int (round_half_even (q / 2 powi e)) * 2 powi e
      else let e = f32_exp (- q) in - (of_int (round_half_even (- q / 2 powi e)) * 2 powi e))"

definition f32_of_int :: "int \<Rightarrow> float32" where
  "f32_of_int i = f32_round (of_int i)"

definition f32_div :: "float32 \<Rightarrow> float32 \<Rightarrow> float32" where
  "f32_div x y = f32_round (x / y)"

definition f32_mul :: "float32 \<Rightarrow> float32 \<Rightarrow> float32" where
  "f32_mul x y = f32_round (x * y)"

text \<open>\<^verbatim>\<open>static_cast<int>(x)\<close> drops the fraction.\<close>

definition f32_to_int :: "float32 \<Rightarrow> int" where
  "f32_to_int x = (if 0 \<le> x then \<lfloor>x\<rfloor> else \<lceil>x\<rceil>)"


section \<open>Bounds of the rounding\<close>

lemma powi2_less: "(2 :: rat) powi m < 2 powi n \<Longrightarrow> m < n"
  using power_int_increasing [of n m "2 :: rat"] by (cases "m < n") auto
lemma bitlen_powi:
  assumes "0 < (a :: int)"
  shows "2 powi (bitlen a - 1) \<le> (of_int a :: rat)" and "(of_int a :: rat) < 2 powi (bitlen a)"
proof -
  from bitlen_bounds [OF assms] have b: "2 ^ nat (bitlen a - 1) \<le> a" "a < 2 ^ nat (bitlen a)" by auto
  have p: "1 \<le> bitlen a" using assms bitlen_ge_iff_power [of 1 a] by simp
  have "2 powi (bitlen a - 1) = (of_int (2 ^ nat (bitlen a - 1)) :: rat)"
    using p by (simp add: power_int_def)
  also have "\<dots> \<le> of_int a" using b(1) by (simp only: of_int_le_iff)
  finally show "2 powi (bitlen a - 1) \<le> (of_int a :: rat)" .
  have "(of_int a :: rat) < of_int (2 ^ nat (bitlen a))" using b(2) by (simp only: of_int_less_iff)
  also have "\<dots> = 2 powi (bitlen a)" using p by (simp add: power_int_def)
  finally show "(of_int a :: rat) < 2 powi (bitlen a)" .
qed

lemma f32_exp_bounds:
  assumes "0 < q"
  shows "2 powi (f32_exp q + 23) \<le> q" and "q < 2 powi (f32_exp q + 24)"
proof -
  obtain a b where ab: "quotient_of q = (a, b)" by (cases "quotient_of q")
  then have q: "q = of_int a / of_int b" and b: "0 < b"
    by (simp_all add: quotient_of_div quotient_of_denom_pos)
  with assms have a: "0 < a" by (simp add: zero_less_divide_iff)
  define e where "e = bitlen a - bitlen b - 24"
  have "(2 :: rat) powi (e + 23) * of_int b \<le> 2 powi (e + 23) * 2 powi (bitlen b)"
    using bitlen_powi(2) [OF b] by (intro mult_left_mono) auto
  also have "\<dots> = 2 powi (bitlen a - 1)" by (simp add: e_def power_int_add [symmetric])
  also have "\<dots> \<le> of_int a" by (rule bitlen_powi(1) [OF a])
  finally have lo: "2 powi (e + 23) \<le> q" using b by (simp add: q field_simps)
  have "of_int a < (2 :: rat) powi (bitlen a)" by (rule bitlen_powi(2) [OF a])
  also have "\<dots> = 2 powi (e + 25) * 2 powi (bitlen b - 1)" by (simp add: e_def power_int_add [symmetric])
  also have "\<dots> \<le> 2 powi (e + 25) * of_int b"
    using bitlen_powi(1) [OF b] by (intro mult_left_mono) auto
  finally have hi: "q < 2 powi (e + 25)" using b by (simp add: q field_simps)
  have "f32_exp q = (if q < 2 powi (e + 24) then e else e + 1)"
    by (simp add: f32_exp_def ab Let_def e_def)
  with lo hi show "2 powi (f32_exp q + 23) \<le> q" and "q < 2 powi (f32_exp q + 24)"
    by (auto split: if_splits simp: add.assoc)
qed

lemma f32_exp_unique:
  assumes "2 powi (e + 23) \<le> q" and "q < 2 powi (e + 24)"
  shows "f32_exp q = e"
proof -
  have "0 < q" using assms(1) by (meson less_le_trans zero_less_numeral zero_less_power_int)
  note b = f32_exp_bounds [OF this]
  have "2 powi (e + 23) < (2 :: rat) powi (f32_exp q + 24)" using assms(1) b(2) by (rule le_less_trans)
  then have "e + 23 < f32_exp q + 24" by (rule powi2_less)
  moreover have "2 powi (f32_exp q + 23) < (2 :: rat) powi (e + 24)" using b(1) assms(2) by (rule le_less_trans)
  then have "f32_exp q + 23 < e + 24" by (rule powi2_less)
  ultimately show ?thesis by simp
qed

lemma round_half_even_bounds:
  assumes "of_int l \<le> x" and "x \<le> of_int u"
  shows "l \<le> round_half_even x" and "round_half_even x \<le> u"
proof -
  have l: "l \<le> \<lfloor>x\<rfloor>" using assms(1) by (simp add: le_floor_iff)
  then show "l \<le> round_half_even x" by (simp add: round_half_even_def Let_def)
  show "round_half_even x \<le> u"
  proof (cases "x = of_int \<lfloor>x\<rfloor>")
    case True
    then have "round_half_even x = \<lfloor>x\<rfloor>" by (simp add: round_half_even_def Let_def)
    also have "\<dots> \<le> u" using assms(2) True by (metis of_int_le_iff)
    finally show ?thesis .
  next
    case False
    then have "of_int \<lfloor>x\<rfloor> < x" using of_int_floor_le [of x] by linarith
    with assms(2) have "of_int \<lfloor>x\<rfloor> < (of_int u :: rat)" by linarith
    then have "\<lfloor>x\<rfloor> + 1 \<le> u" by simp
    then show ?thesis by (auto simp: round_half_even_def Let_def)
  qed
qed

lemma f32_round_unit:
  assumes "0 \<le> q" and "q \<le> 1"
  shows "0 \<le> f32_round q \<and> f32_round q \<le> 1"
proof (cases "q = 0 \<or> q = 1")
  case True
  moreover have "f32_exp 1 = -23" by (rule f32_exp_unique) simp_all
  ultimately show ?thesis by (auto simp: f32_round_def round_half_even_def Let_def)
next
  case False
  with assms have q: "0 < q" "q < 1" by auto
  define e where "e = f32_exp q"
  note b = f32_exp_bounds [OF q(1), folded e_def]
  have "2 powi (e + 23) < (2 :: rat) powi 0" using b(1) q(2) by simp
  then have "e + 23 < 0" by (rule powi2_less)
  then have e: "e \<le> -24" by simp
  have "q / 2 powi e \<le> of_int (2 ^ 24)"
    using b(2) by (simp add: power_int_add field_simps)
  moreover have "of_int 0 \<le> q / 2 powi e" using q(1) by simp
  ultimately have r: "0 \<le> round_half_even (q / 2 powi e)" "round_half_even (q / 2 powi e) \<le> 2 ^ 24"
    using round_half_even_bounds by blast+
  have "of_int (round_half_even (q / 2 powi e)) \<le> (of_int (2 ^ 24) :: rat)"
    using r(2) by (simp only: of_int_le_iff)
  then have "of_int (round_half_even (q / 2 powi e)) * 2 powi e \<le> (2 ^ 24 * 2 powi e :: rat)"
    by (intro mult_right_mono) simp_all
  also have "\<dots> = 2 powi (e + 24)" by (simp add: power_int_add)
  also have "\<dots> \<le> 2 powi 0" using e by (intro power_int_increasing) auto
  finally show ?thesis using q(1) r(1) by (simp add: f32_round_def Let_def e_def)
qed

text \<open>The rounding of a fraction in integer arithmetic.\<close>

definition round_frac :: "int \<Rightarrow> int \<Rightarrow> int" where
  "round_frac n b =
     (let f = n div b; r = n mod b
      in if 2 * r < b then f else if b < 2 * r then f + 1 else if even f then f else f + 1)"

lemma round_half_even_frac:
  assumes "0 < b"
  shows "round_half_even (of_int n / of_int b) = round_frac n b"
proof -
  have f: "\<lfloor>of_int n / (of_int b :: rat)\<rfloor> = n div b" by (rule floor_divide_of_int_eq)
  have n: "of_int n = (of_int b * of_int (n div b) + of_int (n mod b) :: rat)"
    by (metis mult_div_mod_eq of_int_add of_int_mult)
  have r: "of_int n / of_int b - of_int (n div b) = (of_int (n mod b) / of_int b :: rat)"
    using assms by (subst n) (simp add: add_divide_distrib)
  have "(of_int (n mod b) / of_int b < (1 / 2 :: rat)) \<longleftrightarrow> of_int (2 * (n mod b)) < (of_int b :: rat)"
    using assms by (simp add: field_simps)
  then have h1: "(of_int (n mod b) / of_int b < (1 / 2 :: rat)) \<longleftrightarrow> 2 * (n mod b) < b"
    by (simp only: of_int_less_iff)
  have "((1 / 2 :: rat) < of_int (n mod b) / of_int b) \<longleftrightarrow> (of_int b :: rat) < of_int (2 * (n mod b))"
    using assms by (simp add: field_simps)
  then have h2: "((1 / 2 :: rat) < of_int (n mod b) / of_int b) \<longleftrightarrow> b < 2 * (n mod b)"
    by (simp only: of_int_less_iff)
  show ?thesis by (simp only: round_half_even_def round_frac_def Let_def f r h1 h2)
qed

lemma f32_round_pos:
  "0 < q \<Longrightarrow> f32_round q = of_int (round_half_even (q / 2 powi f32_exp q)) * 2 powi f32_exp q"
  by (simp add: f32_round_def Let_def)

lemma f32_round_frac:
  assumes "0 < b" and "2 ^ 23 * b \<le> a * 2 ^ k" and "a * 2 ^ k < 2 ^ 24 * b"
  shows "f32_round (of_int a / of_int b) = of_int (round_frac (a * 2 ^ k) b) / 2 ^ k"
proof -
  let ?q = "of_int a / of_int b :: rat" and ?e = "- int k"
  have e: "2 powi ?e = 1 / (2 ^ k :: rat)" by (simp add: power_int_minus inverse_eq_divide)
  have "of_int (2 ^ 23 * b) \<le> (of_int (a * 2 ^ k) :: rat)" using assms(2) by (simp only: of_int_le_iff)
  then have lo: "2 powi (?e + 23) \<le> ?q"
    using assms(1) by (subst power_int_add) (simp_all add: e field_simps)
  have "of_int (a * 2 ^ k) < (of_int (2 ^ 24 * b) :: rat)" using assms(3) by (simp only: of_int_less_iff)
  then have hi: "?q < 2 powi (?e + 24)"
    using assms(1) by (subst power_int_add) (simp_all add: e field_simps)
  have exp: "f32_exp ?q = ?e" using lo hi by (rule f32_exp_unique)
  have pos: "0 < ?q" using lo by (meson less_le_trans zero_less_numeral zero_less_power_int)
  have eq: "?q / 2 powi ?e = of_int (a * 2 ^ k) / of_int b" by (simp add: e)
  have "round_half_even (?q / 2 powi ?e) = round_frac (a * 2 ^ k) b"
    unfolding eq by (rule round_half_even_frac [OF assms(1)])
  then show ?thesis unfolding f32_round_pos [OF pos] exp by (simp add: e)
qed

lemma f32_of_int_exact:
  assumes "0 \<le> i" and "i < 2 ^ 24"
  shows "f32_of_int i = of_int i"
proof (cases "i = 0")
  case True
  then show ?thesis by (simp add: f32_of_int_def f32_round_def)
next
  case False
  with assms have i: "0 < i" by simp
  define l where "l = nat (bitlen i - 1)"
  have "2 ^ l \<le> i" and "i < 2 ^ Suc l"
    using bitlen_bounds [OF i] bitlen_ge_iff_power [of 1 i] i
    by (simp_all add: l_def Suc_nat_eq_nat_zadd1)
  moreover from this have "(2 :: int) ^ l < 2 ^ 24" using assms(2) by linarith
  then have "l < 24" by (simp only: power_strict_increasing_iff)
  ultimately have "2 ^ 23 * 1 \<le> i * 2 ^ (23 - l)" and "i * 2 ^ (23 - l) < 2 ^ 24 * 1"
  proof -
    assume a: "2 ^ l \<le> i" "i < 2 ^ Suc l" "l < 24"
    have p: "(2 :: int) ^ l * 2 ^ (23 - l) = 2 ^ 23" using a(3) by (simp flip: power_add)
    have "2 ^ l * 2 ^ (23 - l) \<le> i * 2 ^ (23 - l)" using a(1) by (intro mult_right_mono) auto
    then show "2 ^ 23 * 1 \<le> i * 2 ^ (23 - l)" by (simp only: p mult_1_right)
    have "i * 2 ^ (23 - l) < 2 ^ Suc l * 2 ^ (23 - l)" using a(2) by (intro mult_strict_right_mono) auto
    also have "\<dots> = 2 * 2 ^ 23" by (simp only: power_Suc mult.assoc p)
    finally show "i * 2 ^ (23 - l) < 2 ^ 24 * 1" by simp
  qed
  from f32_round_frac [OF _ this] show ?thesis
    by (simp add: f32_of_int_def round_frac_def)
qed

end
