(* ===== verification/Colors.thy ===== *)
theory Colors
  imports Prelude Float32 "HOL-Library.Word"
begin

unbundle bit_operations_syntax

text \<open>
  The colour of a chat message: \<^verbatim>\<open>ImGuiManager::hexToImVec4\<close> of \<^verbatim>\<open>src/ui/imgui_manager.cpp\<close>, with
  the \<^verbatim>\<open>std::stoul\<close> it uses. An \<^verbatim>\<open>unsigned long\<close> has 64 bits.
\<close>

section \<open>Reading hexadecimal numbers\<close>

definition hex_digit :: "char \<Rightarrow> nat option" where
  "hex_digit c =
     (let n = of_char c :: nat
      in if 48 \<le> n \<and> n \<le> 57 then Some (n - 48)
         else if 65 \<le> n \<and> n \<le> 70 then Some (n - 55)
         else if 97 \<le> n \<and> n \<le> 102 then Some (n - 87)
         else None)"

definition is_xdigit :: "char \<Rightarrow> bool" where
  "is_xdigit c \<longleftrightarrow> hex_digit c \<noteq> None"

fun hex_value :: "nat \<Rightarrow> string \<Rightarrow> nat" where
  "hex_value acc [] = acc"
| "hex_value acc (c # cs) = hex_value (16 * acc + (case hex_digit c of None \<Rightarrow> 0 | Some d \<Rightarrow> d)) cs"

text \<open>
  \<^verbatim>\<open>std::stoul(s, nullptr, 16)\<close>: leading white space, a sign, \<^verbatim>\<open>0x\<close> before a digit, then the longest
  sequence of digits. No digit and a value above the range are exceptions; a negative number is
  the negation of the unsigned value.
\<close>

definition skip_0x :: "string \<Rightarrow> string" where
  "skip_0x s =
     (case s of
        z # x # d # rest \<Rightarrow> if z = CHR ''0'' \<and> (x = CHR ''x'' \<or> x = CHR ''X'') \<and> is_xdigit d then d # rest else s
      | _ \<Rightarrow> s)"

definition stoul_hex :: "string \<Rightarrow> exn + 64 word" where
  "stoul_hex str =
     (let s = dropWhile isspace str;
          neg = (case s of c # _ \<Rightarrow> c = CHR ''-'' | [] \<Rightarrow> False);
          s1 = (case s of c # rest \<Rightarrow> if c = CHR ''-'' \<or> c = CHR ''+'' then rest else s | [] \<Rightarrow> s);
          digits = takeWhile is_xdigit (skip_0x s1);
          v = hex_value 0 digits
      in if digits = [] then Inl (OtherException ''stoul: no conversion'')
         else if 2 ^ 64 \<le> v then Inl (OtherException ''stoul: out of range'')
         else Inr (if neg then - of_nat v else of_nat v))"

section \<open>Colours\<close>

type_synonym ImVec4 = "float32 \<times> float32 \<times> float32 \<times> float32"

definition channel :: "64 word \<Rightarrow> float32" where
  "channel v = f32_div (f32_of_int (uint v)) 255"

definition hexToImVec4 :: "string \<Rightarrow> exn + ImVec4" where
  "hexToImVec4 hex =
     (if length hex < 7 \<or> hex ! 0 \<noteq> CHR ''#'' then Inr (0, 0, 0, 1)
      else bindE (stoul_hex (take 6 (drop 1 hex))) (\<lambda>value.
        let red = channel (drop_bit 16 value AND 0xFF);
            green = channel (drop_bit 8 value AND 0xFF);
            blue = channel (value AND 0xFF)
        in if 9 \<le> length hex
           then bindE (stoul_hex (take 2 (drop 7 hex))) (\<lambda>alpha_val. Inr (red, green, blue, channel alpha_val))
           else Inr (red, green, blue, 1)))"

section \<open>Range\<close>

lemma and_FF: "(v :: 64 word) AND 0xFF = take_bit 8 v"
  by (simp add: take_bit_eq_mask mask_eq_exp_minus_1)

lemma uint_and_FF: "uint ((v :: 64 word) AND 0xFF) = uint v mod 256"
  unfolding and_FF unsigned_take_bit_eq by (simp add: take_bit_eq_mod)

lemma channel_exact: "uint v \<le> 255 \<Longrightarrow> channel v = f32_div (of_int (uint v)) 255"
  by (simp add: channel_def f32_of_int_exact)

lemma channel_unit:
  assumes "uint v \<le> 255"
  shows "0 \<le> channel v \<and> channel v \<le> 1"
proof -
  have "(of_int (uint v) :: rat) \<le> of_int 255" using assms by (simp only: of_int_le_iff)
  moreover have "(of_int 0 :: rat) \<le> of_int (uint v)" by (simp only: of_int_le_iff unsigned_greater_eq)
  ultimately show ?thesis
    unfolding channel_exact [OF assms] f32_div_def by (intro f32_round_unit) (simp_all only: divide_le_eq_1 of_int_0 of_int_numeral, simp_all)
qed

lemma masked_unit: "0 \<le> channel (v AND 0xFF) \<and> channel (v AND 0xFF) \<le> 1"
proof (rule channel_unit)
  show "uint (v AND 0xFF) \<le> 255" unfolding uint_and_FF using pos_mod_bound [of 256 "uint v"] by simp
qed

lemma hex_digit_less: "hex_digit c = Some d \<Longrightarrow> d < 16"
  by (auto simp: hex_digit_def Let_def split: if_splits)

lemma hex_value_less: "hex_value acc cs < (acc + 1) * 16 ^ length cs"
proof (induction cs arbitrary: acc)
  case (Cons c cs)
  let ?d = "case hex_digit c of None \<Rightarrow> 0 | Some d \<Rightarrow> d"
  have "?d < 16" by (auto dest: hex_digit_less split: option.splits)
  then have "16 * acc + ?d + 1 \<le> (acc + 1) * 16" by simp
  then have "(16 * acc + ?d + 1) * 16 ^ length cs \<le> (acc + 1) * 16 * 16 ^ length cs" by (rule mult_right_mono) simp
  with Cons [of "16 * acc + ?d"] have "hex_value (16 * acc + ?d) cs < (acc + 1) * 16 * 16 ^ length cs"
    by (rule less_le_trans)
  then show ?case by (simp only: hex_value.simps length_Cons power_Suc mult.assoc)
qed simp

lemma skip_0x_length: "length (skip_0x s) \<le> length s"
  by (auto simp: skip_0x_def split: list.splits)

text \<open>Two characters that do not start with a minus sign give at most 255.\<close>

lemma stoul_hex_byte:
  assumes "stoul_hex [c, d] = Inr v" and "c \<noteq> CHR ''-''"
  shows "uint v \<le> 255"
proof -
  let ?s = "dropWhile isspace [c, d]"
  let ?s1 = "case ?s of c # rest \<Rightarrow> if c = CHR ''-'' \<or> c = CHR ''+'' then rest else ?s | [] \<Rightarrow> ?s"
  let ?ds = "takeWhile is_xdigit (skip_0x ?s1)"
  have "length ?s1 \<le> 2" by simp
  then have "length ?ds \<le> 2" using skip_0x_length [of ?s1] length_takeWhile_le [of is_xdigit "skip_0x ?s1"] by linarith
  then have "hex_value 0 ?ds < 16 ^ 2"
    using hex_value_less [of 0 ?ds] power_increasing [of "length ?ds" 2 "16 :: nat"] by simp
  moreover have "\<not> (case ?s of c # _ \<Rightarrow> c = CHR ''-'' | [] \<Rightarrow> False) \<or> ?ds = []"
    using assms(2) by (auto simp: skip_0x_def)
  then have "v = of_nat (hex_value 0 ?ds)"
    using assms(1) unfolding stoul_hex_def Let_def by (auto split: if_splits)
  ultimately show ?thesis by (simp add: uint_nat unat_of_nat take_bit_nat_eq_self)
qed

section \<open>Colours as they are written\<close>

definition hex_char :: "nat \<Rightarrow> char" where
  "hex_char n = ''0123456789ABCDEF'' ! n"

definition hex2 :: "nat \<Rightarrow> string" where
  "hex2 n = [hex_char (n div 16), hex_char (n mod 16)]"

lemma less_16: "n < 16 \<Longrightarrow> n \<in> {0, 1, 2, 3, 4, 5, 6, 7, 8, 9, 10, 11, 12, 13, 14, 15 :: nat}"
  by (simp only: insert_iff empty_iff, presburger)

lemma hex_char_facts:
  assumes "n < 16"
  shows "hex_digit (hex_char n) = Some n" "\<not> isspace (hex_char n)" "hex_char n \<noteq> CHR ''-''"
    "hex_char n \<noteq> CHR ''+''" "hex_char n \<noteq> CHR ''x''" "hex_char n \<noteq> CHR ''X''"
  using less_16 [OF assms] by (auto simp: hex_char_def hex_digit_def isspace_def)

lemma stoul_plain:
  assumes "s \<noteq> []" "dropWhile isspace s = s" "hd s \<noteq> CHR ''-''" "hd s \<noteq> CHR ''+''" "skip_0x s = s"
    "takeWhile is_xdigit s = s" "hex_value 0 s < 2 ^ 64"
  shows "stoul_hex s = Inr (of_nat (hex_value 0 s))"
proof -
  obtain c cs where s: "s = c # cs" using assms(1) by (cases s) auto
  have "c \<noteq> CHR ''-''" "c \<noteq> CHR ''+''" using assms(3,4) by (simp_all add: s)
  then have m: "(case s of c # rest \<Rightarrow> if c = CHR ''-'' \<or> c = CHR ''+'' then rest else s | [] \<Rightarrow> s) = s"
    and n: "(case s of c # _ \<Rightarrow> c = CHR ''-'' | [] \<Rightarrow> False) = False" by (simp_all add: s)
  show ?thesis
    unfolding stoul_hex_def Let_def assms(2) m n assms(5,6) using assms(1,7) by simp
qed

lemma hex2_stoul:
  assumes "r < 256" "g < 256" "b < 256"
  shows "stoul_hex (hex2 r @ hex2 g @ hex2 b) = Inr (of_nat (r * 65536 + g * 256 + b))"
proof -
  have d: "r div 16 < 16" "r mod 16 < 16" "g div 16 < 16" "g mod 16 < 16" "b div 16 < 16" "b mod 16 < 16"
    using assms by (simp_all add: div_less_iff_less_mult)
  note f = d [THEN hex_char_facts(1)] d [THEN hex_char_facts(2)] d [THEN hex_char_facts(3)] d [THEN hex_char_facts(4)]
    d [THEN hex_char_facts(5)] d [THEN hex_char_facts(6)]
  have "hex_value 0 (hex2 r @ hex2 g @ hex2 b) =
      16 * (16 * (16 * (16 * (16 * (r div 16) + r mod 16) + g div 16) + g mod 16) + b div 16) + b mod 16"
    by (simp add: hex2_def f)
  also have "\<dots> = 256 * (256 * (16 * (r div 16) + r mod 16) + (16 * (g div 16) + g mod 16)) + (16 * (b div 16) + b mod 16)"
    by simp
  also have "\<dots> = r * 65536 + g * 256 + b" by simp
  finally have v: "hex_value 0 (hex2 r @ hex2 g @ hex2 b) = r * 65536 + g * 256 + b" .
  have "r * 65536 + g * 256 + b < 2 ^ 64" using assms by simp
  moreover have "skip_0x (hex2 r @ hex2 g @ hex2 b) = hex2 r @ hex2 g @ hex2 b"
    by (simp add: skip_0x_def hex2_def f)
  moreover have "takeWhile is_xdigit (hex2 r @ hex2 g @ hex2 b) = hex2 r @ hex2 g @ hex2 b"
    by (simp add: hex2_def is_xdigit_def f)
  moreover have "dropWhile isspace (hex2 r @ hex2 g @ hex2 b) = hex2 r @ hex2 g @ hex2 b" by (simp add: hex2_def f)
  moreover have "hd (hex2 r @ hex2 g @ hex2 b) \<noteq> CHR ''-''" "hd (hex2 r @ hex2 g @ hex2 b) \<noteq> CHR ''+''"
    by (simp_all add: hex2_def f)
  moreover have "hex2 r @ hex2 g @ hex2 b \<noteq> []" by (simp add: hex2_def)
  ultimately show ?thesis using stoul_plain [of "hex2 r @ hex2 g @ hex2 b"] unfolding v by blast
qed

lemma word_bytes:
  fixes v :: "64 word"
  assumes v: "v = of_nat (r * 65536 + g * 256 + b)" and "r < 256" "g < 256" "b < 256"
  shows "uint (drop_bit 16 v AND 0xFF) = int r" "uint (drop_bit 8 v AND 0xFF) = int g" "uint (v AND 0xFF) = int b"
proof -
  have "unat (of_nat m :: 64 word) = m" if "m < 2 ^ 64" for m
    using that by (simp add: unat_of_nat take_bit_nat_eq_self)
  moreover have "r * 65536 + g * 256 + b < 2 ^ 64" using assms(2-) by simp
  ultimately have "unat v = r * 65536 + g * 256 + b" unfolding v by blast
  then have u: "uint v = (int r * 256 + int g) * 256 + int b" by (simp add: uint_nat)
  have e: "(x * 256 + int y) div 256 = x" "(x * 256 + int y) mod 256 = int y" if "y < 256" for x y
    using that by simp_all
  have "uint (drop_bit k v) = uint v div 2 ^ k" for k
    unfolding unsigned_drop_bit_eq using uint_bounded [of v] by (simp add: drop_bit_eq_div take_bit_eq_mod)
  note d = this [of 16] this [of 8]
  show "uint (drop_bit 16 v AND 0xFF) = int r" "uint (drop_bit 8 v AND 0xFF) = int g" "uint (v AND 0xFF) = int b"
    unfolding uint_and_FF d u using assms(2-) e [of b "int r * 256 + int g"] e [of g "int r"]
    by (simp_all add: div_mult2_eq' [of _ 256 256, simplified])
qed

section \<open>Properties\<close>

text \<open>
  C34: Colour channels are in range. Whatever string comes as a colour, if it is read without an
  exception then red, green and blue are between 0 and 1, and so is alpha unless its two
  characters start with a minus sign.
\<close>

theorem colour_channels_in_range:
  assumes "hexToImVec4 hex = Inr (r, g, b, a)"
  shows "0 \<le> r \<and> r \<le> 1 \<and> 0 \<le> g \<and> g \<le> 1 \<and> 0 \<le> b \<and> b \<le> 1 \<and>
    (length hex < 9 \<or> hex ! 7 \<noteq> CHR ''-'' \<longrightarrow> 0 \<le> a \<and> a \<le> 1)"
proof (cases "length hex < 7 \<or> hex ! 0 \<noteq> CHR ''#''")
  case True
  with assms show ?thesis by (auto simp: hexToImVec4_def)
next
  case False
  then obtain v where v: "stoul_hex (take 6 (drop 1 hex)) = Inr v"
    using assms by (cases "stoul_hex (take 6 (drop 1 hex))") (auto simp: hexToImVec4_def)
  show ?thesis
  proof (cases "9 \<le> length hex")
    case True
    then have t: "take 2 (drop 7 hex) = [hex ! 7, hex ! 8]"
      by (simp add: take_Suc_conv_app_nth numeral_2_eq_2)
    obtain w where w: "stoul_hex (take 2 (drop 7 hex)) = Inr w"
      using assms False True v by (cases "stoul_hex (take 2 (drop 7 hex))") (auto simp: hexToImVec4_def Let_def)
    have "r = channel (drop_bit 16 v AND 0xFF)" "g = channel (drop_bit 8 v AND 0xFF)" "b = channel (v AND 0xFF)"
      "a = channel w" using assms False True v w by (simp_all add: hexToImVec4_def Let_def)
    with True masked_unit channel_unit stoul_hex_byte [OF w [unfolded t]] show ?thesis by auto
  next
    case short: False
    have "r = channel (drop_bit 16 v AND 0xFF)" "g = channel (drop_bit 8 v AND 0xFF)" "b = channel (v AND 0xFF)"
      "a = 1" using assms False short v by (simp_all add: hexToImVec4_def Let_def)
    with masked_unit show ?thesis by simp
  qed
qed

theorem colour_channels_in_range_witness:
  "\<exists>r g b. hexToImVec4 ''#FF8000'' = Inr (r, g, b, 1) \<and> 0 \<le> r \<and> r \<le> 1 \<and> 0 \<le> g \<and> g \<le> 1 \<and> 0 \<le> b \<and> b \<le> 1"
proof -
  have "\<exists>v. stoul_hex ''FF8000'' = Inr v"
    by (simp add: stoul_hex_def isspace_def skip_0x_def is_xdigit_def hex_digit_def)
  then obtain r g b where "hexToImVec4 ''#FF8000'' = Inr (r, g, b, 1)" by (auto simp: hexToImVec4_def Let_def)
  with colour_channels_in_range [OF this] show ?thesis by blast
qed

text \<open>
  Written colours are read back. For a colour \<^verbatim>\<open>#RRGGBB\<close> with any channel values, the result is
  these values divided by 255, and alpha 1.
\<close>

theorem colour_roundtrip:
  assumes "r < 256" and "g < 256" and "b < 256"
  shows "hexToImVec4 (''#'' @ hex2 r @ hex2 g @ hex2 b) =
    Inr (f32_div (of_nat r) 255, f32_div (of_nat g) 255, f32_div (of_nat b) 255, 1)"
proof -
  let ?v = "of_nat (r * 65536 + g * 256 + b) :: 64 word"
  note w = word_bytes [OF refl assms]
  have "channel (drop_bit 16 ?v AND 0xFF) = f32_div (of_nat r) 255" "channel (drop_bit 8 ?v AND 0xFF) = f32_div (of_nat g) 255"
    "channel (?v AND 0xFF) = f32_div (of_nat b) 255"
    using channel_exact [unfolded w] w assms by (simp_all add: channel_exact del: of_nat_add of_nat_mult)
  moreover obtain s where s: "s = hex2 r @ hex2 g @ hex2 b" by blast
  then have "length s = 6" "stoul_hex s = Inr ?v" using hex2_stoul [OF assms] by (simp_all add: hex2_def)
  ultimately show ?thesis
    unfolding s [symmetric] by (simp add: hexToImVec4_def Let_def del: of_nat_add of_nat_mult)
qed

theorem colour_roundtrip_witness:
  "hexToImVec4 (''#'' @ hex2 255 @ hex2 128 @ hex2 0) = Inr (f32_div 255 255, f32_div 128 255, f32_div 0 255, 1)"
  using colour_roundtrip [of 255 128 0] by simp

end
