(* ===== verification/Ui.thy ===== *)
theory Ui
  imports Service_Runs Discord Colors
begin

text \<open>
  The view models (\<^verbatim>\<open>include/seraphbot/viewmodels\<close>), the OpenGL backend and the window manager
  (\<^verbatim>\<open>include/seraphbot/ui/imgui_backend_opengl.hpp\<close>, \<^verbatim>\<open>src/ui/imgui_manager.cpp\<close>).

  Dear ImGui, GLFW and OpenGL are outside the sources. The calls made to them are recorded in
  order, and their answers (whether a button was pressed, what was typed) are the parameter record
  \<open>ui_env\<close>: functions of the calls so far. Calls that only set sizes, flags and positions are
  recorded by name.
\<close>

section \<open>Calls\<close>

datatype ui_call =
    Begin string | End
  | BeginChild string | EndChild
  | BeginMenuBar bool | EndMenuBar
  | BeginMenu string bool | EndMenu
  | PushTextWrapPos | PopTextWrapPos
  | PushStyleVar string | PopStyleVar nat
  | MenuItem string bool
  | Button string bool
  | InputText string bool
  | Text string
  | TextColored ImVec4 string
  | TextWrapped string
  | Widget string
  | SetWindowShouldClose
  | Glfw string
  | Backend string
  | Context string

record ui_env =
  ui_pressed :: "ui_call list \<Rightarrow> string \<Rightarrow> bool"
  ui_input :: "ui_call list \<Rightarrow> string \<Rightarrow> string \<Rightarrow> bool \<times> string"
  ui_scrolled_down :: "ui_call list \<Rightarrow> bool"
  ui_should_close :: "ui_call list \<Rightarrow> bool"
  ui_glfw_init :: "ui_call list \<Rightarrow> bool"
  ui_create_window :: "ui_call list \<Rightarrow> bool"

type_synonym 'a uio = "ui_call list \<times> 'a"

definition ui :: "ui_call \<Rightarrow> ('a uio, unit) act" where
  "ui c = (\<lambda>(tr, x). (Inr (), (tr @ [c], x)))"

definition ui_ask :: "(ui_call list \<Rightarrow> bool) \<Rightarrow> (bool \<Rightarrow> ui_call) \<Rightarrow> ('a uio, bool) act" where
  "ui_ask f c = (\<lambda>(tr, x). (Inr (f tr), (tr @ [c (f tr)], x)))"

definition ui_get :: "('a uio, 'a) act" where
  "ui_get = (\<lambda>(tr, x). (Inr x, (tr, x)))"

definition ui_modify :: "('a \<Rightarrow> 'a) \<Rightarrow> ('a uio, unit) act" where
  "ui_modify f = (\<lambda>(tr, x). (Inr (), (tr, f x)))"

lemma ui_run [act_simps]: "ui c (tr, x) = (Inr (), (tr @ [c], x))"
  and ui_ask_run [act_simps]: "ui_ask f d (tr, x) = (Inr (f tr), (tr @ [d (f tr)], x))"
  and ui_get_run [act_simps]: "ui_get (tr, x) = (Inr x, (tr, x))"
  and ui_modify_run [act_simps]: "ui_modify g (tr, x) = (Inr (), (tr, g x))"
  by (simp_all add: ui_def ui_ask_def ui_get_def ui_modify_def)

section \<open>State\<close>

text \<open>
  What the frames work on: the manager's own members, the fields of the view models, and the
  objects the view models refer to. A character array is a list of its length; its text ends at
  the first null character.
\<close>

record 'x ui_world =
  m_window :: bool
  m_context :: bool
  m_backend :: bool
  m_message_input :: string
  auth_vm_state :: State
  vm_webhook_url :: string
  vm_notification_text :: string
  ui_tw :: "(AppState \<times> 'x) tw_world"
  ui_notifications :: Notifications
  ui_discord_tasks :: "string list"

definition c_str :: "string \<Rightarrow> string" where
  "c_str buf = takeWhile (\<lambda>c. c \<noteq> CHR 0x00) buf"

definition update_tw ::
    "((AppState \<times> 'x) tw_world \<Rightarrow> (AppState \<times> 'x) tw_world) \<Rightarrow> 'x ui_world \<Rightarrow> 'x ui_world" where
  "update_tw f X = X\<lparr>ui_tw := f (ui_tw X)\<rparr>"

section \<open>View models\<close>

type_synonym 'x callbacks = "(AppState \<times> 'x) tw_callbacks"

definition AuthVM_syncFrom :: "'x ui_world \<Rightarrow> 'x ui_world" where
  "AuthVM_syncFrom X = X\<lparr>auth_vm_state := getState (ui_tw X)\<rparr>"

definition AuthVM_getState :: "'x ui_world \<Rightarrow> State" where
  "AuthVM_getState X = auth_vm_state X"

definition AuthVM_login :: "'x callbacks \<Rightarrow> 'x ui_world \<Rightarrow> 'x ui_world" where
  "AuthVM_login C = update_tw (startLogin C)"

definition AuthVM_currentUser :: "'x ui_world \<Rightarrow> string" where
  "AuthVM_currentUser X = getCurrentUser (ui_tw X)"

definition AuthVM_connect :: "'x ui_world \<Rightarrow> 'x ui_world" where
  "AuthVM_connect = update_tw (co_spawn ConnectTask)"

definition AuthVM_disconnect :: "'x callbacks \<Rightarrow> 'x ui_world \<Rightarrow> 'x ui_world" where
  "AuthVM_disconnect C = update_tw (disconnect C)"

definition ChatVM_canSendMessages :: "'x ui_world \<Rightarrow> bool" where
  "ChatVM_canSendMessages X = canSendMessages (ui_tw X)"

definition ChatVM_sendMessage :: "string \<Rightarrow> 'x ui_world \<Rightarrow> 'x ui_world" where
  "ChatVM_sendMessage msg = update_tw (TwitchService_sendMessage msg)"

definition DiscordVM_syncTo :: "string \<Rightarrow> 'x ui_world \<Rightarrow> 'x ui_world" where
  "DiscordVM_syncTo url X = X\<lparr>ui_notifications := setWebhookUrl url (ui_notifications X)\<rparr>"

definition DiscordVM_syncFrom :: "'x ui_world \<Rightarrow> string" where
  "DiscordVM_syncFrom X = getWebhookUrl (ui_notifications X)"

text \<open>\<open>testMessage\<close> spawns \<open>sendMessage\<close>; the completion handler logs its outcome.\<close>

definition DiscordVM_testMessage :: "string \<Rightarrow> 'x ui_world \<Rightarrow> 'x ui_world" where
  "DiscordVM_testMessage message X = X\<lparr>ui_discord_tasks := ui_discord_tasks X @ [message]\<rparr>"

section \<open>The backend\<close>

definition backend_init :: "('a uio, unit) act" where
  "backend_init = thenA (ui (Backend ''ImplGlfw_InitForOpenGL'')) (ui (Backend ''ImplOpenGL3_Init''))"

definition backend_newFrame :: "('a uio, unit) act" where
  "backend_newFrame = thenA (ui (Backend ''ImplOpenGL3_NewFrame'')) (ui (Backend ''ImplGlfw_NewFrame''))"

definition backend_renderDrawData :: "('a uio, unit) act" where
  "backend_renderDrawData = ui (Backend ''ImplOpenGL3_RenderDrawData'')"

definition backend_shutdown :: "('a uio, unit) act" where
  "backend_shutdown = thenA (ui (Backend ''ImplOpenGL3_Shutdown'')) (ui (Backend ''ImplGlfw_Shutdown''))"

section \<open>The manager\<close>

text \<open>The Linux branch of the platform hint.\<close>

definition initWindow :: "ui_env \<Rightarrow> ('x ui_world uio, unit) act" where
  "initWindow U =
     bindA (ui_ask (ui_glfw_init U) (\<lambda>ok. Glfw ''Init'')) (\<lambda>ok.
     if \<not> ok then throw (RuntimeError ''Failed to init GLFW'')
     else
     thenA (ui (Glfw ''WindowHint PLATFORM_WAYLAND'')) (
     thenA (ui (Glfw ''WindowHint CONTEXT_VERSION_MAJOR 4'')) (
     thenA (ui (Glfw ''WindowHint CONTEXT_VERSION_MINOR 6'')) (
     thenA (ui (Glfw ''WindowHint OPENGL_CORE_PROFILE'')) (
     bindA (ui_ask (ui_create_window U) (\<lambda>ok. Glfw ''CreateWindow'')) (\<lambda>window.
     thenA (ui_modify (\<lambda>X. X\<lparr>m_window := window\<rparr>)) (
     if \<not> window then thenA (ui (Glfw ''Terminate'')) (throw (RuntimeError ''Failed to create window''))
     else thenA (ui (Glfw ''MakeContextCurrent'')) (ui (Glfw ''SwapInterval'')))))))))"

definition initWindowVulkan :: "ui_env \<Rightarrow> ('x ui_world uio, unit) act" where
  "initWindowVulkan U =
     bindA (ui_ask (ui_glfw_init U) (\<lambda>ok. Glfw ''Init'')) (\<lambda>ok.
     if \<not> ok then throw (RuntimeError ''Failed to init GLFW'')
     else
     thenA (ui (Glfw ''WindowHint CLIENT_API NO_API'')) (
     bindA (ui_ask (ui_create_window U) (\<lambda>ok. Glfw ''CreateWindow'')) (\<lambda>window.
     thenA (ui_modify (\<lambda>X. X\<lparr>m_window := window\<rparr>)) (
     if \<not> window then thenA (ui (Glfw ''Terminate'')) (throw (RuntimeError ''Failed to create window''))
     else ret ()))))"

definition ImGuiManager_init :: "ui_env \<Rightarrow> ('x ui_world uio, unit) act" where
  "ImGuiManager_init U =
     thenA (ui_modify (\<lambda>X. X\<lparr>m_backend := True, m_message_input := replicate 256 (CHR 0x00)\<rparr>)) (
     thenA (initWindow U) (
     thenA (ui (Context ''CreateContext'')) (
     thenA (ui_modify (\<lambda>X. X\<lparr>m_context := True\<rparr>)) (
     thenA (ui (Context ''NavEnableKeyboard'')) (
     thenA (ui (Context ''DockingEnable'')) (
     thenA (ui (Context ''StyleColorsDark'')) (
     thenA (ui (Context ''AddFontFromMemoryTTF'')) backend_init)))))))"

definition ImGuiManager_dtor :: "('x ui_world uio, unit) act" where
  "ImGuiManager_dtor =
     bindA ui_get (\<lambda>X.
     thenA (if m_backend X then thenA backend_shutdown (ui_modify (\<lambda>X. X\<lparr>m_backend := False\<rparr>)) else ret ()) (
     thenA (if m_context X then thenA (ui (Context ''DestroyContext'')) (ui_modify (\<lambda>X. X\<lparr>m_context := False\<rparr>)) else ret ()) (
     thenA (if m_window X then thenA (ui (Glfw ''DestroyWindow'')) (ui_modify (\<lambda>X. X\<lparr>m_window := False\<rparr>)) else ret ())
       (ui (Glfw ''Terminate'')))))"

definition beginFrame :: "('a uio, unit) act" where
  "beginFrame = thenA backend_newFrame (ui (Context ''NewFrame''))"

definition endFrame :: "('a uio, unit) act" where
  "endFrame = ui (Context ''Render'')"

definition render :: "('a uio, unit) act" where
  "render = backend_renderDrawData"

definition poll :: "('a uio, unit) act" where
  "poll = thenA (ui (Glfw ''PollEvents'')) (thenA (ui (Glfw ''glClearColor'')) (ui (Glfw ''glClear'')))"

definition swapBuffers :: "('a uio, unit) act" where
  "swapBuffers = ui (Glfw ''SwapBuffers'')"

definition shouldClose :: "ui_env \<Rightarrow> ('a uio, bool) act" where
  "shouldClose U = ui_ask (ui_should_close U) (\<lambda>b. Glfw ''WindowShouldClose'')"

section \<open>Windows\<close>

definition button :: "ui_env \<Rightarrow> string \<Rightarrow> ('a uio, bool) act" where
  "button U label = ui_ask (\<lambda>tr. ui_pressed U tr label) (Button label)"

definition input_text ::
    "ui_env \<Rightarrow> string \<Rightarrow> ('a \<Rightarrow> string) \<Rightarrow> (string \<Rightarrow> 'a \<Rightarrow> 'a) \<Rightarrow> ('a uio, bool) act" where
  "input_text U label get put = (\<lambda>(tr, x).
     let (entered, buf) = ui_input U tr label (get x)
     in (Inr entered, (tr @ [InputText label entered], put buf x)))"

definition manageDocking :: "ui_env \<Rightarrow> ('a uio, unit) act" where
  "manageDocking U =
     thenA (ui (Widget ''SetNextWindowPos'')) (
     thenA (ui (Widget ''SetNextWindowSize'')) (
     thenA (ui (Widget ''SetNextWindowViewport'')) (
     thenA (ui (PushStyleVar ''WindowRounding'')) (
     thenA (ui (PushStyleVar ''WindowBorderSize'')) (
     thenA (ui (Begin ''DockSpace'')) (
     thenA (ui (PopStyleVar 2)) (
     thenA (ui (Widget ''DockSpace'')) (
     bindA (ui_ask (\<lambda>tr. ui_pressed U tr ''MenuBar'') BeginMenuBar) (\<lambda>bar.
     thenA
       (if bar
        then bindA (ui_ask (\<lambda>tr. ui_pressed U tr ''File'') (BeginMenu ''File'')) (\<lambda>file.
             thenA
               (if file
                then thenA (ui (Widget ''Separator'')) (
                     bindA (ui_ask (\<lambda>tr. ui_pressed U tr ''Exit'') (MenuItem ''Exit'')) (\<lambda>exit.
                     thenA (if exit then ui SetWindowShouldClose else ret ()) (ui EndMenu)))
                else ret ()) (
             bindA (ui_ask (\<lambda>tr. ui_pressed U tr ''View'') (BeginMenu ''View'')) (\<lambda>view.
             thenA (if view then ui EndMenu else ret ()) (ui EndMenuBar))))
        else ret ())
       (ui End))))))))))"

definition manageFloating :: "('a uio, unit) act" where
  "manageFloating =
     thenA (ui (Widget ''SetNextWindowPos'')) (
     thenA (ui (Widget ''SetNextWindowSize'')) (
     thenA (ui (Begin ''StatusBar'')) (
     thenA (ui (Text ''FPS'')) (ui End))))"

definition manageAuth :: "ui_env \<Rightarrow> 'x callbacks \<Rightarrow> ('x ui_world uio, unit) act" where
  "manageAuth U C =
     thenA (ui (Begin ''Auth'')) (
     thenA (ui_modify AuthVM_syncFrom) (
     bindA ui_get (\<lambda>X.
     thenA
       (case AuthVM_getState X of
          Disconnected \<Rightarrow>
            bindA (button U ''Login to Twitch'') (\<lambda>pressed. if pressed then ui_modify (AuthVM_login C) else ret ())
        | LoggingIn \<Rightarrow> ui (Text ''Logging in...'')
        | LoggedIn \<Rightarrow>
            thenA (ui (Text (''Logged in as: '' @ AuthVM_currentUser X))) (
            bindA (button U ''Connect to Chat'') (\<lambda>connect.
            thenA (if connect then ui_modify AuthVM_connect else ret ()) (
            bindA (button U ''Logout'') (\<lambda>logout. if logout then ui_modify (AuthVM_disconnect C) else ret ()))))
        | ConnectingToChat \<Rightarrow> ui (Text ''Connecting to chat...'')
        | ChatConnected \<Rightarrow>
            thenA (ui (Text (''Connected! User: '' @ AuthVM_currentUser X))) (
            bindA (button U ''Disconnect'') (\<lambda>pressed. if pressed then ui_modify (AuthVM_disconnect C) else ret ()))
        | ErrorState \<Rightarrow>
            thenA (ui (TextColored (1, 0, 0, 1) ''Error occurred'')) (
            bindA (button U ''Reset'') (\<lambda>pressed. if pressed then ui_modify (AuthVM_disconnect C) else ret ())))
       (ui End))))"

fun chat_lines :: "ChatMessage list \<Rightarrow> ('a uio, unit) act" where
  "chat_lines [] = ret ()"
| "chat_lines (msg # msgs) =
     bindA (lift (hexToImVec4 (msg_color msg))) (\<lambda>color.
     thenA (ui (TextColored color (msg_user msg @ '': ''))) (
     thenA (ui (Widget ''SameLine'')) (
     thenA (ui (TextWrapped (msg_text msg))) (chat_lines msgs))))"

text \<open>What both the Enter key and the Send button do.\<close>

definition send_input :: "('x ui_world uio, unit) act" where
  "send_input =
     bindA ui_get (\<lambda>X.
     let msg = c_str (m_message_input X)
     in if msg \<noteq> []
        then thenA (ui_modify (ChatVM_sendMessage msg))
               (ui_modify (\<lambda>X. X\<lparr>m_message_input := (m_message_input X)[0 := CHR 0x00]\<rparr>))
        else ret ())"

definition process_messages :: "'x ui_world \<Rightarrow> 'x ui_world" where
  "process_messages = update_tw (\<lambda>W. W\<lparr>tw_app := (processPendingMessages (fst (tw_app W)), snd (tw_app W))\<rparr>)"

definition manageChat :: "ui_env \<Rightarrow> ('x ui_world uio, unit) act" where
  "manageChat U =
     thenA (ui (Begin ''Chat'')) (
     bindA ui_get (\<lambda>X.
     thenA
       (if ChatVM_canSendMessages X
        then
          thenA (ui_modify process_messages) (
          thenA (ui (BeginChild ''ScrollingRegion'')) (
          thenA (ui PushTextWrapPos) (
          bindA ui_get (\<lambda>X.
          thenA (chat_lines (chat_log (fst (tw_app (ui_tw X))))) (
          thenA (ui PopTextWrapPos) (
          bindA (ui_ask (ui_scrolled_down U) (\<lambda>b. Widget ''GetScrollY'')) (\<lambda>bottom.
          thenA (if bottom then ui (Widget ''SetScrollHereY'') else ret ()) (
          thenA (ui EndChild) (
          thenA (ui (Widget ''SetNextItemWidth'')) (
          bindA (input_text U ''##message'' m_message_input (\<lambda>b X. X\<lparr>m_message_input := b\<rparr>)) (\<lambda>entered.
          thenA (if entered then send_input else ret ()) (
          thenA (ui (Widget ''SameLine'')) (
          bindA (button U ''Send'') (\<lambda>pressed. if pressed then send_input else ret ()))))))))))))))
        else ui (Text ''Connect to chat to send messages''))
       (ui End)))"

definition manageDiscord :: "ui_env \<Rightarrow> ('x ui_world uio, unit) act" where
  "manageDiscord U =
     thenA (ui (Begin ''Discord Settings'')) (
     thenA (ui (Text ''Discord WebHook URL'')) (
     thenA (ui (Widget ''SameLine'')) (
     thenA (ui (Widget ''SetNextItemWidth'')) (
     bindA (input_text U ''##webhookurl'' vm_webhook_url (\<lambda>b X. X\<lparr>vm_webhook_url := b\<rparr>)) (\<lambda>entered.
     bindA (button U ''Apply'') (\<lambda>apply_pressed.
     thenA (if apply_pressed then ui_modify (\<lambda>X. DiscordVM_syncTo (c_str (vm_webhook_url X)) X) else ret ()) (
     thenA (ui (Widget ''SameLine'')) (
     bindA ui_get (\<lambda>X.
     thenA (ui (Text (DiscordVM_syncFrom X))) (
     bindA (input_text U ''##notification_message'' vm_notification_text (\<lambda>b X. X\<lparr>vm_notification_text := b\<rparr>)) (\<lambda>entered.
     thenA (ui (Widget ''SameLine'')) (
     bindA (button U ''Test'') (\<lambda>test.
     thenA (if test then ui_modify (\<lambda>X. DiscordVM_testMessage (c_str (vm_notification_text X)) X) else ret ())
       (ui End))))))))))))))"

lemma input_text_run [act_simps]:
  "input_text U label get put (tr, x) =
     (Inr (fst (ui_input U tr label (get x))),
      (tr @ [InputText label (fst (ui_input U tr label (get x)))], put (snd (ui_input U tr label (get x))) x))"
  by (simp add: input_text_def Let_def case_prod_beta)

end
