(* ===== verification/Ui_Frames.thy ===== *)
theory Ui_Frames
  imports Ui
begin

text \<open>
  What the windows of a frame promise: the calls that open and close windows, menus and styles
  nest, the input line is sent at most once, and the service is only called in ways its state
  allows.
\<close>

section \<open>Nesting\<close>

text \<open>
  The scopes that are open after a sequence of calls, and the number of pushed style variables;
  \<open>None\<close> if a call closes a scope that is not the innermost one, or pops too much. A menu is
  open only if the call that begins it says so.
\<close>

datatype scope = InWindow | InChild | InMenuBar | InMenu | InWrap

definition open_scope :: "scope \<Rightarrow> scope list \<times> nat \<Rightarrow> (scope list \<times> nat) option" where
  "open_scope sc = (\<lambda>(st, n). Some (sc # st, n))"

definition close_scope :: "scope \<Rightarrow> scope list \<times> nat \<Rightarrow> (scope list \<times> nat) option" where
  "close_scope sc = (\<lambda>(st, n). case st of [] \<Rightarrow> None | s # r \<Rightarrow> if s = sc then Some (r, n) else None)"

fun nest_call :: "ui_call \<Rightarrow> scope list \<times> nat \<Rightarrow> (scope list \<times> nat) option" where
  "nest_call (Begin w) = open_scope InWindow"
| "nest_call End = close_scope InWindow"
| "nest_call (BeginChild w) = open_scope InChild"
| "nest_call EndChild = close_scope InChild"
| "nest_call (BeginMenuBar b) = (if b then open_scope InMenuBar else Some)"
| "nest_call EndMenuBar = close_scope InMenuBar"
| "nest_call (BeginMenu w b) = (if b then open_scope InMenu else Some)"
| "nest_call EndMenu = close_scope InMenu"
| "nest_call PushTextWrapPos = open_scope InWrap"
| "nest_call PopTextWrapPos = close_scope InWrap"
| "nest_call (PushStyleVar w) = (\<lambda>(st, n). Some (st, Suc n))"
| "nest_call (PopStyleVar k) = (\<lambda>(st, n). if k \<le> n then Some (st, n - k) else None)"
| "nest_call c = Some"

fun nest :: "ui_call list \<Rightarrow> scope list \<times> nat \<Rightarrow> (scope list \<times> nat) option" where
  "nest [] s = Some s"
| "nest (c # cs) s = (case nest_call c s of None \<Rightarrow> None | Some s' \<Rightarrow> nest cs s')"

lemma nest_append: "nest (cs @ ds) s = (case nest cs s of None \<Rightarrow> None | Some s' \<Rightarrow> nest ds s')"
  by (induction cs arbitrary: s) (simp_all split: option.splits)

text \<open>Code that, when it returns, has made calls that lead from one nesting to another.\<close>

named_theorems nests_intros \<open>rules that show how code nests its calls\<close>

definition nests :: "scope list \<times> nat \<Rightarrow> ('a uio, 'r) act \<Rightarrow> scope list \<times> nat \<Rightarrow> bool" where
  "nests p m q \<longleftrightarrow>
     (\<forall>tr x a tr' x'. m (tr, x) = (Inr a, (tr', x')) \<longrightarrow> (\<exists>cs. tr' = tr @ cs \<and> nest cs p = Some q))"

lemma nests_bindA [nests_intros]:
  assumes "nests p m q" and "\<And>a. nests q (f a) r"
  shows "nests p (bindA m f) r"
  unfolding nests_def
proof (intro allI impI)
  fix tr x b tr2 x2
  assume run: "bindA m f (tr, x) = (Inr b, (tr2, x2))"
  then obtain a tr1 x1 where m: "m (tr, x) = (Inr a, (tr1, x1))" "f a (tr1, x1) = (Inr b, (tr2, x2))"
    by (auto simp: bindA_run split: prod.splits sum.splits)
  with assms(1) obtain cs where cs: "tr1 = tr @ cs" "nest cs p = Some q" unfolding nests_def by blast
  from assms(2) m(2) obtain ds where "tr2 = tr1 @ ds" "nest ds q = Some r" unfolding nests_def by blast
  with cs show "\<exists>cs. tr2 = tr @ cs \<and> nest cs p = Some r" by (intro exI [of _ "cs @ ds"]) (simp add: nest_append)
qed

lemma nests_thenA [nests_intros]: "nests p m q \<Longrightarrow> nests q n r \<Longrightarrow> nests p (thenA m n) r"
  unfolding thenA_def by (rule nests_bindA)

lemma nests_ask:
  assumes "\<And>a. nests (if a then q else p) (f a) r" and "\<And>a. nest_call (c a) p = Some (if a then q else p)"
  shows "nests p (bindA (ui_ask g c) f) r"
  unfolding nests_def
proof (intro allI impI)
  fix tr x b tr2 x2
  assume "bindA (ui_ask g c) f (tr, x) = (Inr b, (tr2, x2))"
  then have "f (g tr) (tr @ [c (g tr)], x) = (Inr b, (tr2, x2))" by (simp add: act_simps)
  with assms(1) [of "g tr"] obtain ds where "tr2 = (tr @ [c (g tr)]) @ ds" "nest ds (if g tr then q else p) = Some r"
    unfolding nests_def by blast
  with assms(2) [of "g tr"] show "\<exists>cs. tr2 = tr @ cs \<and> nest cs p = Some r"
    by (intro exI [of _ "c (g tr) # ds"]) (simp del: if_split)
qed

lemma nests_ui: "nest_call c p = Some q \<Longrightarrow> nests p (ui c) q"
  by (auto simp: nests_def act_simps)

lemma nests_simple [nests_intros]:
  "nests p (ret a) p" "nests p (lift r) p" "nests p ui_get p" "nests p (ui_modify g) p"
  "nests p (button U l) p" "nests p (input_text U l get put) p"
  by (auto simp: nests_def act_simps button_def)

lemma nests_if [nests_intros]: "nests p m q \<Longrightarrow> nests p n q \<Longrightarrow> nests p (if c then m else n) q"
  by simp

lemma nests_calls [nests_intros]:
  "nests (st, n) (ui (Begin w)) (InWindow # st, n)" "nests (InWindow # st, n) (ui End) (st, n)"
  "nests (st, n) (ui (BeginChild w)) (InChild # st, n)" "nests (InChild # st, n) (ui EndChild) (st, n)"
  "nests (InMenuBar # st, n) (ui EndMenuBar) (st, n)" "nests (InMenu # st, n) (ui EndMenu) (st, n)"
  "nests (st, n) (ui PushTextWrapPos) (InWrap # st, n)" "nests (InWrap # st, n) (ui PopTextWrapPos) (st, n)"
  "nests (st, n) (ui (PushStyleVar w)) (st, Suc n)"
  "nests p (ui (Text w)) p" "nests p (ui (TextColored col w)) p" "nests p (ui (TextWrapped w)) p"
  "nests p (ui (Widget w)) p" "nests p (ui (Glfw w)) p" "nests p (ui (Backend w)) p" "nests p (ui (Context w)) p"
  "nests p (ui SetWindowShouldClose) p"
  by (intro nests_ui; simp add: open_scope_def close_scope_def)+

lemma nests_pop [nests_intros]: "nests (st, Suc (Suc n)) (ui (PopStyleVar 2)) (st, n)"
  by (intro nests_ui) simp

lemma nests_plain_ask [nests_intros]:
  "nests p (ui_ask g (MenuItem w)) p" "nests p (ui_ask g (\<lambda>b. Widget w)) p" "nests p (ui_ask g (\<lambda>b. Glfw w)) p"
  by (auto simp: nests_def act_simps)

lemma nests_menu:
  assumes "nests (InMenu # st, n) m (st, n)" and "nests (st, n) k q"
  shows "nests (st, n) (bindA (ui_ask g (BeginMenu w)) (\<lambda>b. thenA (if b then m else ret ()) k)) q"
proof (rule nests_ask [where q = "(InMenu # st, n)"])
  fix a
  show "nests (if a then (InMenu # st, n) else (st, n)) (thenA (if a then m else ret ()) k) q"
    using assms by (cases a) (auto intro!: nests_thenA nests_simple)
qed (simp add: open_scope_def)

lemma nests_menu_bar:
  assumes "nests (InMenuBar # st, n) m (st, n)" and "nests (st, n) k q"
  shows "nests (st, n) (bindA (ui_ask g BeginMenuBar) (\<lambda>b. thenA (if b then m else ret ()) k)) q"
proof (rule nests_ask [where q = "(InMenuBar # st, n)"])
  fix a
  show "nests (if a then (InMenuBar # st, n) else (st, n)) (thenA (if a then m else ret ()) k) q"
    using assms by (cases a) (auto intro!: nests_thenA nests_simple)
qed (simp add: open_scope_def)

lemma nests_docking: "nests (st, n) (manageDocking U) (st, n)"
  unfolding manageDocking_def
  by (rule nests_menu_bar nests_menu nests_intros)+

lemma nests_floating: "nests (st, n) manageFloating (st, n)"
  unfolding manageFloating_def by (rule nests_intros)+

lemma nests_state:
  "nests p m1 q \<Longrightarrow> nests p m2 q \<Longrightarrow> nests p m3 q \<Longrightarrow> nests p m4 q \<Longrightarrow> nests p m5 q \<Longrightarrow> nests p m6 q \<Longrightarrow>
   nests p (case st of Disconnected \<Rightarrow> m1 | LoggingIn \<Rightarrow> m2 | LoggedIn \<Rightarrow> m3 | ConnectingToChat \<Rightarrow> m4
     | ChatConnected \<Rightarrow> m5 | ErrorState \<Rightarrow> m6) q"
  by (cases st) simp_all

lemma nests_auth: "nests (st, n) (manageAuth U C) (st, n)"
  unfolding manageAuth_def by (rule nests_state nests_intros)+

lemma nests_chat_lines: "nests p (chat_lines ms) p"
  by (induction ms) (simp_all only: chat_lines.simps, (rule nests_intros | assumption)+)

lemma nests_send_input: "nests p send_input p"
  unfolding send_input_def Let_def by (rule nests_intros)+

lemma nests_chat: "nests (st, n) (manageChat U) (st, n)"
  unfolding manageChat_def by (rule nests_chat_lines nests_send_input nests_intros)+

lemma nests_discord: "nests (st, n) (manageDiscord U) (st, n)"
  unfolding manageDiscord_def by (rule nests_intros)+

lemma nests_backend [nests_intros]:
  "nests p backend_newFrame p" "nests p backend_renderDrawData p" "nests p beginFrame p" "nests p endFrame p"
  "nests p render p" "nests p poll p" "nests p swapBuffers p" "nests p (shouldClose U) p"
  unfolding backend_newFrame_def backend_renderDrawData_def beginFrame_def endFrame_def render_def poll_def
    swapBuffers_def shouldClose_def
  by (rule nests_intros)+

section \<open>Calls of the service\<close>

text \<open>What the UI thread may do to the service between two resumptions; \<open>D\<close> says whether the user may
  ask to disconnect.\<close>

inductive ui_calls :: "bool \<Rightarrow> 'w tw_callbacks \<Rightarrow> 'w tw_world \<Rightarrow> 'w tw_world \<Rightarrow> bool" for D C where
    calls_nothing: "ui_calls D C W W"
  | calls_login: "ui_calls D C W W' \<Longrightarrow> ui_calls D C W (startLogin C W')"
  | calls_connect: "ui_calls D C W W' \<Longrightarrow> ui_calls D C W (co_spawn ConnectTask W')"
  | calls_send: "ui_calls D C W W' \<Longrightarrow> ui_calls D C W (TwitchService_sendMessage m W')"
  | calls_disconnect: "ui_calls D C W W' \<Longrightarrow> D \<Longrightarrow> may_disconnect (m_state (tw_service W')) \<Longrightarrow> ui_calls D C W (disconnect C W')"
  | calls_app: "ui_calls D C W W' \<Longrightarrow> ui_calls D C W (W'\<lparr>tw_app := x\<rparr>)"

lemma ui_calls_trans:
  assumes "ui_calls D C W1 W2" and "ui_calls D C W0 W1"
  shows "ui_calls D C W0 W2"
  using assms by induction (auto intro: ui_calls.intros)

text \<open>They are steps of the service.\<close>

lemma ui_calls_run:
  assumes "ui_calls D C W W'"
  shows "\<exists>evs. tw_run N J C (tr, W) evs (Some (tr, W')) \<and> (\<forall>i. Resume i \<notin> set evs) \<and> (D \<or> Disconnect \<notin> set evs)"
  using assms
proof induction
  case (calls_nothing W)
  show ?case by (intro exI [of _ "[]"]) (simp add: run_nil)
next
  case (calls_login W W')
  then obtain evs where "tw_run N J C (tr, W) evs (Some (tr, W'))"
    "\<forall>i. Resume i \<notin> set evs" "D \<or> Disconnect \<notin> set evs" by blast
  with run_step [OF this(1) step_login] show ?case by (intro exI [of _ "evs @ [Login]"]) simp
next
  case (calls_connect W W')
  then obtain evs where "tw_run N J C (tr, W) evs (Some (tr, W'))"
    "\<forall>i. Resume i \<notin> set evs" "D \<or> Disconnect \<notin> set evs" by blast
  with run_step [OF this(1) step_connect] show ?case by (intro exI [of _ "evs @ [Connect]"]) simp
next
  case (calls_send W W' m)
  then obtain evs where "tw_run N J C (tr, W) evs (Some (tr, W'))"
    "\<forall>i. Resume i \<notin> set evs" "D \<or> Disconnect \<notin> set evs" by blast
  with run_step [OF this(1) step_send] show ?case by (intro exI [of _ "evs @ [Send m]"]) simp
next
  case (calls_disconnect W W')
  then obtain evs where "tw_run N J C (tr, W) evs (Some (tr, W'))"
    "\<forall>i. Resume i \<notin> set evs" "D \<or> Disconnect \<notin> set evs" by blast
  with calls_disconnect(2) run_step [OF this(1) step_disconnect [OF calls_disconnect(3)]] show ?case
    by (intro exI [of _ "evs @ [Disconnect]"]) simp
next
  case (calls_app W W' x)
  then obtain evs where "tw_run N J C (tr, W) evs (Some (tr, W'))"
    "\<forall>i. Resume i \<notin> set evs" "D \<or> Disconnect \<notin> set evs" by blast
  with run_step [OF this(1) step_app] show ?case by (intro exI [of _ "evs @ [AppStep]"]) simp
qed

named_theorems does_intros \<open>rules for the calls a piece of UI code makes\<close>

abbreviation does :: "bool \<Rightarrow> 'x callbacks \<Rightarrow> ('x ui_world uio, 'r) act \<Rightarrow> bool" where
  "does D C m \<equiv> relA (\<lambda>s s'. ui_calls D C (ui_tw (snd s)) (ui_tw (snd s'))) m"

interpretation calling: state_order "\<lambda>s s'. ui_calls D C (ui_tw (snd s)) (ui_tw (snd s'))" for D C
  by unfold_locales (rule calls_nothing, rule ui_calls_trans)

lemmas calling_rules [does_intros] = calling.rel_rules

lemma does_simple [does_intros]:
  "does D C (ui c)" "does D C ui_get" "does D C (ui_ask g d)" "does D C (button U l)"
  by (auto simp: relA_def act_simps button_def intro: calls_nothing)

lemma does_input [does_intros]:
  "(\<And>b X. ui_tw (put b X) = ui_tw X) \<Longrightarrow> does D C (input_text U l get put)"
  by (auto simp: relA_def act_simps intro: calls_nothing)

lemma does_modify: "(\<And>X. ui_calls D C (ui_tw X) (ui_tw (g X))) \<Longrightarrow> does D C (ui_modify g)"
  by (auto simp: relA_def act_simps)

lemma does_models [does_intros]:
  "does D C (ui_modify (AuthVM_login C))" "does D C (ui_modify AuthVM_connect)" "does D C (ui_modify AuthVM_syncFrom)"
  "does D C (ui_modify (ChatVM_sendMessage m))" "does D C (ui_modify process_messages)"
  "does D C (ui_modify (\<lambda>X. DiscordVM_syncTo (url X) X))" "does D C (ui_modify (\<lambda>X. DiscordVM_testMessage (txt X) X))"
  "does D C (ui_modify (\<lambda>X. X\<lparr>m_message_input := inp X\<rparr>))"
  by (auto intro!: does_modify ui_calls.intros
      simp: AuthVM_login_def AuthVM_connect_def AuthVM_syncFrom_def ChatVM_sendMessage_def process_messages_def
        DiscordVM_syncTo_def DiscordVM_testMessage_def update_tw_def)

text \<open>The authentication window offers the calls that the state it has just read allows.\<close>

definition no_logout :: "ui_env \<Rightarrow> bool" where
  "no_logout U \<longleftrightarrow> (\<forall>tr. \<not> ui_pressed U tr ''Logout'' \<and> \<not> ui_pressed U tr ''Disconnect'' \<and> \<not> ui_pressed U tr ''Reset'')"

lemma does_auth:
  assumes "D \<or> no_logout U"
  shows "does D C (manageAuth U C)"
  unfolding relA_def
proof
  fix s :: "'a ui_world uio"
  obtain tr X where s: "s = (tr, X)" by (cases s)
  let ?W = "ui_tw X"
  let ?W' = "ui_tw (snd (snd (manageAuth U C (tr, X))))"
  note run = manageAuth_def act_simps button_def AuthVM_syncFrom_def AuthVM_getState_def AuthVM_login_def
    AuthVM_connect_def AuthVM_disconnect_def update_tw_def getState_def
  have d: "ui_calls D C ?W (disconnect C ?W)" if "D" "may_disconnect (m_state (tw_service ?W))"
    using that by (intro calls_disconnect calls_nothing)
  have c: "ui_calls D C ?W (co_spawn ConnectTask ?W)" and l: "ui_calls D C ?W (startLogin C ?W)"
    by (intro ui_calls.intros)+
  have cd: "ui_calls D C ?W (disconnect C (co_spawn ConnectTask ?W))" if "D" "may_disconnect (m_state (tw_service ?W))"
    using that c by (intro calls_disconnect) (simp_all add: co_spawn_def)
  have "ui_calls D C ?W ?W'"
  proof (cases "m_state (tw_service ?W)")
    case Disconnected
    then show ?thesis by (simp add: run l calls_nothing)
  next
    case LoggedIn
    with c d cd assms show ?thesis by (auto simp: run may_disconnect_def calls_nothing no_logout_def)
  next
    case ChatConnected
    with d assms show ?thesis by (auto simp: run may_disconnect_def calls_nothing no_logout_def)
  next
    case ErrorState
    with d assms show ?thesis by (auto simp: run may_disconnect_def calls_nothing no_logout_def)
  qed (simp_all add: run calls_nothing)
  then show "ui_calls D C (ui_tw (snd s)) (ui_tw (snd (snd (manageAuth U C s))))" by (simp add: s)
qed

lemma does_chat_lines: "does D C (chat_lines msgs)"
  by (induction msgs) (simp_all, (intro does_intros; simp)+)

lemma does_send_input: "does D C send_input"
  unfolding send_input_def Let_def by (rule does_intros)+

lemma does_chat: "does D C (manageChat U)"
  unfolding manageChat_def by (rule does_intros does_chat_lines does_send_input | simp)+

lemma does_discord: "does D C (manageDiscord U)"
  unfolding manageDiscord_def by (rule does_intros | simp)+

lemma does_docking: "does D C (manageDocking U)"
  unfolding manageDocking_def by (rule does_intros)+

lemma does_floating: "does D C manageFloating"
  unfolding manageFloating_def by (rule does_intros)+

lemma does_backend:
  "does D C beginFrame" "does D C endFrame" "does D C render" "does D C poll" "does D C swapBuffers" "does D C (shouldClose U)"
  unfolding beginFrame_def endFrame_def render_def poll_def swapBuffers_def shouldClose_def backend_newFrame_def
    backend_renderDrawData_def
  by (rule does_intros)+

section \<open>The chat window\<close>

lemma chat_lines_state: "snd (snd (chat_lines msgs (tr, x))) = x"
proof (induction msgs arbitrary: tr)
  case (Cons msg msgs)
  then show ?case by (cases "hexToImVec4 (msg_color msg)") (simp_all add: act_simps)
qed (simp add: act_simps)

lemma c_str_cleared: "c_str (buf[0 := CHR 0x00]) = []"
  by (cases buf) (simp_all add: c_str_def)

definition sent_input :: "'x ui_world \<Rightarrow> 'x ui_world" where
  "sent_input X =
     (if c_str (m_message_input X) = [] then X
      else (ChatVM_sendMessage (c_str (m_message_input X)) X)\<lparr>m_message_input := (m_message_input X)[0 := CHR 0x00]\<rparr>)"

lemma send_input_run: "send_input (tr, X) = (Inr (), (tr, sent_input X))"
  by (simp add: send_input_def sent_input_def act_simps Let_def ChatVM_sendMessage_def update_tw_def)

lemma sent_input_twice: "sent_input (sent_input X) = sent_input X"
  by (simp add: sent_input_def c_str_cleared)

text \<open>A frame in which the window takes input: drained, typed into, and sent at most once.\<close>

lemma manageChat_run:
  assumes "ChatVM_canSendMessages X" and "manageChat U (tr, X) = (Inr (), (tr', X'))"
  shows "\<exists>buf. X' = (process_messages X)\<lparr>m_message_input := buf\<rparr> \<or>
    X' = sent_input ((process_messages X)\<lparr>m_message_input := buf\<rparr>)"
proof -
  let ?P = "process_messages X"
  let ?log = "chat_log (fst (tw_app (ui_tw ?P)))"
  let ?tr = "tr @ [Begin ''Chat'', BeginChild ''ScrollingRegion'', PushTextWrapPos]"
  obtain r tr1 where l: "chat_lines ?log (?tr, ?P) = (r, (tr1, ?P))"
    using chat_lines_state by (metis prod.collapse)
  note run = assms(2) [unfolded manageChat_def]
  show ?thesis
  proof (cases r)
    case (Inl e)
    with run assms(1) l show ?thesis by (simp add: act_simps)
  next
    case (Inr u)
    with run assms(1) l show ?thesis
      by (auto simp: act_simps button_def send_input_run sent_input_twice split: if_splits)
  qed
qed

lemma process_messages_app:
  "fst (tw_app (ui_tw (process_messages X))) = (fst (tw_app (ui_tw X)))
     \<lparr>chat_log := chat_log (fst (tw_app (ui_tw X))) @ m_pending_messages (fst (tw_app (ui_tw X))), m_pending_messages := []\<rparr>"
  "tw_tasks (ui_tw (process_messages X)) = tw_tasks (ui_tw X)"
  "tw_service (ui_tw (process_messages X)) = tw_service (ui_tw X)"
  by (simp_all add: process_messages_def update_tw_def processPendingMessages_def drain_loop_eq)

lemma sent_input_effect:
  assumes "canSendMessages (ui_tw X)"
  shows "tw_app (ui_tw (sent_input X)) = tw_app (ui_tw X)"
    and "tw_tasks (ui_tw (sent_input X)) = tw_tasks (ui_tw X) \<or>
      (\<exists>m. m \<noteq> [] \<and> tw_tasks (ui_tw (sent_input X)) = tw_tasks (ui_tw X) @ [SendTask m] \<and>
        c_str (m_message_input (sent_input X)) = [])"
  using assms
  by (simp_all add: sent_input_def ChatVM_sendMessage_def update_tw_def TwitchService_sendMessage_def canSendMessages_def
      co_spawn_def c_str_cleared)

text \<open>
  C23: In a frame of the chat window that returns while messages can be sent, every pending message
  moves to the end of the log, in order and none twice, and at most one message is handed to the
  service, even when Enter and the Send button come in the same frame: it is not empty, and the
  input line is empty afterwards.
\<close>

theorem chat_window_sends_once:
  assumes "ChatVM_canSendMessages X" and "manageChat U (tr, X) = (Inr (), (tr', X'))"
  shows "fst (tw_app (ui_tw X')) = (fst (tw_app (ui_tw X)))
      \<lparr>chat_log := chat_log (fst (tw_app (ui_tw X))) @ m_pending_messages (fst (tw_app (ui_tw X))), m_pending_messages := []\<rparr> \<and>
    (tw_tasks (ui_tw X') = tw_tasks (ui_tw X) \<or>
     (\<exists>m. m \<noteq> [] \<and> tw_tasks (ui_tw X') = tw_tasks (ui_tw X) @ [SendTask m] \<and> c_str (m_message_input X') = []))"
proof -
  from manageChat_run [OF assms] obtain buf where X': "X' = (process_messages X)\<lparr>m_message_input := buf\<rparr> \<or>
    X' = sent_input ((process_messages X)\<lparr>m_message_input := buf\<rparr>)" by blast
  let ?Y = "(process_messages X)\<lparr>m_message_input := buf\<rparr>"
  have "canSendMessages (ui_tw ?Y)"
    using assms(1) by (simp add: ChatVM_canSendMessages_def canSendMessages_def process_messages_app(3))
  from sent_input_effect [OF this] X' show ?thesis
    using process_messages_app [of X] by auto
qed

definition sample_ui :: "unit ui_world" where
  "sample_ui = \<lparr>m_window = True, m_context = True, m_backend = True, m_message_input = replicate 256 (CHR 0x00),
     auth_vm_state = ChatConnected, vm_webhook_url = [], vm_notification_text = [],
     ui_tw = update_service (\<lambda>S. S\<lparr>m_state := ChatConnected\<rparr>)
       (sample_world (AppState_new\<lparr>m_pending_messages :=
          [\<lparr>msg_user = ''ann'', msg_text = ''hello'', msg_color = [], msg_badges = []\<rparr>]\<rparr>, ())),
     ui_notifications = Notifications_new ClientConfig_default, ui_discord_tasks = []\<rparr>"

definition sample_keys :: ui_env where
  "sample_keys = \<lparr>ui_pressed = (\<lambda>tr l. True), ui_input = (\<lambda>tr l b. (True, ''hi'' @ [CHR 0x00])),
     ui_scrolled_down = (\<lambda>tr. True), ui_should_close = (\<lambda>tr. length tr > 20),
     ui_glfw_init = (\<lambda>tr. True), ui_create_window = (\<lambda>tr. True)\<rparr>"

lemma sample_ui_returns: "fst (manageChat sample_keys ([], sample_ui)) = Inr ()"
  by (simp add: manageChat_def act_simps ChatVM_canSendMessages_def canSendMessages_def sample_ui_def update_service_def
      sample_keys_def process_messages_def update_tw_def processPendingMessages_def drain_loop_eq hexToImVec4_def
      button_def send_input_run sample_world_def AppState_new_def)

theorem chat_window_sends_once_witness:
  "\<exists>X'. snd (snd (manageChat sample_keys ([], sample_ui))) = X' \<and>
    map msg_text (chat_log (fst (tw_app (ui_tw X')))) = [''hello''] \<and> length (tw_tasks (ui_tw X')) \<le> 1"
proof -
  have c: "ChatVM_canSendMessages sample_ui"
    by (simp add: ChatVM_canSendMessages_def canSendMessages_def sample_ui_def update_service_def)
  obtain tr' X' where r: "manageChat sample_keys ([], sample_ui) = (Inr (), (tr', X'))"
    using sample_ui_returns by (metis prod.collapse)
  from chat_window_sends_once [OF c r] r show ?thesis
    by (auto simp: sample_ui_def update_service_def sample_world_def AppState_new_def)
qed

end
