(* ===== verification/Service_Safety.thy ===== *)
theory Service_Safety
  imports Service_Runs
begin

text \<open>
  What follows from the invariant of the service for its runs: the state moves along the edges of
  a small state machine, transient states are left, and the user's token stays with the API host.
  The properties are stated in \<^verbatim>\<open>Application\<close>, for the callbacks of the program.
\<close>

section \<open>The state machine\<close>

fun state_edge :: "State \<Rightarrow> State \<Rightarrow> bool" where
  "state_edge Disconnected st = (st = LoggingIn)"
| "state_edge LoggingIn st = (st = LoggedIn \<or> st = ErrorState)"
| "state_edge LoggedIn st = (st = ConnectingToChat \<or> st = Disconnected)"
| "state_edge ConnectingToChat st = (st = ChatConnected \<or> st = ErrorState)"
| "state_edge ChatConnected st = (st = Disconnected)"
| "state_edge ErrorState st = (st = Disconnected)"

context message_callback
begin

lemma resume_edge:
  assumes "tw_inv W" and i: "i < length (tw_tasks W)"
  shows "m_state (tw_service (snd (snd (resume N J C (tw_tasks W ! i) (tr, remove_task i W))))) = m_state (tw_service W) \<or>
    state_edge (m_state (tw_service W)) (m_state (tw_service (snd (snd (resume N J C (tw_tasks W ! i) (tr, remove_task i W))))))"
proof -
  let ?t = "tw_tasks W ! i" and ?W = "remove_task i W"
  have t: "tasks_ok (tw_service W) (tw_tasks W)" using assms(1) by (simp add: tw_inv_def)
  consider "calm_task ?t" | "?t = LoginTask" | "?t = ConnectTask" | a where "?t = OpenTask a" | "?t = SubscribeChatTask"
    by (cases ?t) (auto simp: calm_task_def)
  then show ?thesis
  proof cases
    case 1
    with resume_calm [of ?t ?W N J tr] show ?thesis by (auto simp: calm_result_def calm_def)
  next
    case 2
    with login_effect [of N J C tr ?W] tasks_ok_login [OF t i] show ?thesis by auto
  next
    case 3
    then show ?thesis by (simp add: connect_effect co_spawn_def setupChatServices_def update_service_def Let_def)
  next
    case 4
    then have "m_state (tw_service W) = ConnectingToChat"
      using tasks_ok_connecting [OF t i] by (simp add: is_connecting_def)
    with 4 opened_effect [of N J C a tr ?W] show ?thesis by (auto simp: calm_def)
  next
    case 5
    then have "m_state (tw_service W) = ConnectingToChat"
      using tasks_ok_connecting [OF t i] by (simp add: is_connecting_def)
    with 5 subscribe_effect [of N J C tr ?W] show ?thesis by auto
  qed
qed

lemma step_edge:
  assumes "tw_step N J C s ev (Some s')" and "tw_inv (snd s)"
  shows "m_state (tw_service (snd s')) = m_state (tw_service (snd s)) \<or>
    state_edge (m_state (tw_service (snd s))) (m_state (tw_service (snd s')))"
  using assms(1)
proof cases
  case (step_resume i W tr)
  with assms(2) resume_edge [of W i N J tr] show ?thesis by simp
next
  case (step_disconnect W tr)
  then show ?thesis by (auto simp: may_disconnect_def disconnect_def update_service_def)
qed (simp_all add: startLogin_def co_spawn_def TwitchService_sendMessage_def)

text \<open>A login or a connection in progress can always run to its end, which takes at most two resumptions.\<close>

lemma login_leaves:
  assumes "tw_inv W" and "m_state (tw_service W) = LoggingIn"
  shows "\<exists>i s'. tw_step N J C (tr, W) (Resume i) (Some s') \<and>
    (m_state (tw_service (snd s')) = LoggedIn \<or> m_state (tw_service (snd s')) = ErrorState)"
proof -
  have "filter (\<lambda>t. t = LoginTask) (tw_tasks W) \<noteq> []"
    using assms by (auto simp: tw_inv_def tasks_ok_def)
  then obtain i where i: "i < length (tw_tasks W)" "tw_tasks W ! i = LoginTask"
    by (metis (mono_tags, lifting) filter_False in_set_conv_nth)
  obtain tr' W' where "login_task N J C (tr, remove_task i W) = (Inr (), (tr', W'))"
    and st: "m_state (tw_service W') = LoggedIn \<or> m_state (tw_service W') = ErrorState"
    using login_effect [of N J C tr "remove_task i W"] by blast
  with i step_resume [of i W N J C tr] have "tw_step N J C (tr, W) (Resume i) (Some (tr', W'))" by simp
  with st show ?thesis by (intro exI [of _ i] exI [of _ "(tr', W')"]) simp
qed

lemma subscribe_leaves:
  assumes "tw_inv W" and i: "i < length (tw_tasks W)" and l: "tw_tasks W ! i = SubscribeChatTask"
  shows "\<exists>s'. tw_step N J C (tr, W) (Resume i) (Some s') \<and>
    (m_state (tw_service (snd s')) = ChatConnected \<or> m_state (tw_service (snd s')) = ErrorState)"
proof -
  have st: "m_state (tw_service W) = ConnectingToChat"
    using assms(1) tasks_ok_connecting [of "tw_service W", OF _ i] l by (simp add: tw_inv_def is_connecting_def)
  then have p: "pointers_ok (tw_tasks W ! i) W"
    using l assms(1) inv_pointers [of W] by (auto simp: tw_inv_def)
  obtain tr' W' where r: "connect_subscribe N J C (tr, remove_task i W) = (Inr (), (tr', W'))"
    and st: "m_state (tw_service W') = ChatConnected \<or> m_state (tw_service W') = ErrorState"
    using subscribe_effect [of N J C tr "remove_task i W"] by auto
  with i l p step_resume [of i W N J C tr] have "tw_step N J C (tr, W) (Resume i) (Some (tr', W'))" by simp
  with st show ?thesis by (intro exI [of _ "(tr', W')"]) simp
qed

lemma connecting_leaves:
  assumes "tw_inv W" and "m_state (tw_service W) = ConnectingToChat"
  shows "\<exists>evs s'. length evs \<le> 2 \<and> list_all (\<lambda>e. \<exists>i. e = Resume i) evs \<and> tw_run N J C (tr, W) evs (Some s') \<and>
    (m_state (tw_service (snd s')) = ChatConnected \<or> m_state (tw_service (snd s')) = ErrorState)"
proof -
  have "filter is_connecting (tw_tasks W) \<noteq> []" using assms by (auto simp: tw_inv_def tasks_ok_def)
  then obtain i where i: "i < length (tw_tasks W)" and "is_connecting (tw_tasks W ! i)"
    by (metis (mono_tags, lifting) filter_False in_set_conv_nth)
  then consider (sub) "tw_tasks W ! i = SubscribeChatTask" | (early) a where "tw_tasks W ! i = OpenTask a"
    by (auto simp: is_connecting_def split: task.splits)
  then show ?thesis
  proof cases
    case sub
    obtain s' where s': "tw_step N J C (tr, W) (Resume i) (Some s')"
      "m_state (tw_service (snd s')) = ChatConnected \<or> m_state (tw_service (snd s')) = ErrorState"
      using subscribe_leaves [OF assms(1) i sub] by blast
    from run_step [OF run_nil s'(1)] have "tw_run N J C (tr, W) [Resume i] (Some s')" by simp
    with s'(2) show ?thesis by (intro exI [of _ "[Resume i]"] exI [of _ s']) simp
  next
    case early
    have p: "pointers_ok (tw_tasks W ! i) W"
      using early assms i inv_pointers [of W] by (auto simp: tw_inv_def tasks_ok_def list_all_length opens_def alive_def)
    obtain tr1 W1 where r: "connect_opened N J C a (tr, remove_task i W) = (Inr (), (tr1, W1))"
      and c: "m_state (tw_service W1) = ErrorState \<or> SubscribeChatTask \<in> set (tw_tasks W1)"
      using opened_effect [of N J C a tr "remove_task i W"] by (auto simp: calm_def)
    have s1: "tw_step N J C (tr, W) (Resume i) (Some (tr1, W1))"
      using i early p r step_resume [of i W N J C tr] by simp
    then have run1: "tw_run N J C (tr, W) [Resume i] (Some (tr1, W1))" using run_step [OF run_nil] by fastforce
    show ?thesis
    proof (cases "m_state (tw_service W1) = ErrorState")
      case True
      with run1 show ?thesis by (intro exI [of _ "[Resume i]"] exI [of _ "(tr1, W1)"]) simp
    next
      case False
      with c obtain j where j: "j < length (tw_tasks W1)" "tw_tasks W1 ! j = SubscribeChatTask"
        by (auto simp: in_set_conv_nth)
      have "tw_inv W1" using step_keeps_inv [OF s1] assms(1) by simp
      then obtain s' where s': "tw_step N J C (tr1, W1) (Resume j) (Some s')"
        "m_state (tw_service (snd s')) = ChatConnected \<or> m_state (tw_service (snd s')) = ErrorState"
        using subscribe_leaves j by blast
      have "tw_run N J C (tr, W) [Resume i, Resume j] (Some s')" using run_step [OF run1 s'(1)] by simp
      with s'(2) show ?thesis by (intro exI [of _ "[Resume i, Resume j]"] exI [of _ s']) simp
    qed
  qed
qed

end

section \<open>Tokens\<close>

text \<open>Every copy of the configuration names the same API host.\<close>

definition host_ok :: "string \<Rightarrow> 'w tw_world \<Rightarrow> bool" where
  "host_ok h W \<longleftrightarrow>
     helix_host (m_config (tw_service W)) = h \<and>
     list_all (\<lambda>c. helix_host c = h) (map es_cfg (tw_objects W)) \<and>
     (case m_chat_send (tw_service W) of None \<Rightarrow> True | Some c \<Rightarrow> helix_host c = h)"

lemma invA_zoom:
  assumes "invA (confined_with h Q) m" and "\<And>W. R W \<Longrightarrow> Q (get W)" and "\<And>W x. R W \<Longrightarrow> Q x \<Longrightarrow> R (put x W)"
  shows "invA (confined_with h R) (zoomA get put m)"
  unfolding invA_def
proof (intro allI impI)
  fix s assume "confined_with h R s"
  then obtain tr W where s: "s = (tr, W)" "confined h tr" "R W" by (cases s) auto
  then have "confined_with h Q (snd (m (tr, get W)))" using assms(1,2) by (simp add: invA_D)
  with s assms(3) show "confined_with h R (snd (zoomA get put m s))" by (simp add: act_simps case_prod_beta)
qed

lemma setState_host [simp]: "host_ok h (setState C st x W) = host_ok h W"
  by (simp add: host_ok_def)

lemma spawn_host [simp]: "host_ok h (co_spawn t W) = host_ok h W"
  by (simp add: host_ok_def co_spawn_def)

lemma login_confined: "invA (confined_with h (host_ok h)) (login_task N J C)"
proof -
  have l: "invA (confined_with h (\<lambda>_. True)) (loginAsync N J)" "invA (confined_with h (\<lambda>_. True)) (fetchUserInfoAsync N J)"
    using invA_keeps_fst [OF login_keeps] invA_keeps_fst [OF fetchUserInfo_keeps] by (simp_all add: invA_def)
  have a: "invA (confined_with h (host_ok h)) (on_auth (loginAsync N J))"
    "invA (confined_with h (host_ok h)) (on_auth (fetchUserInfoAsync N J))"
    unfolding on_auth_def by (rule invA_zoom [OF l(1)] invA_zoom [OF l(2)]; simp add: host_ok_def update_service_def)+
  show ?thesis
    unfolding login_task_def
    by (intro invA_catchA invA_thenA invA_bindA a invA_modify_obj)
      (auto simp: host_ok_def update_service_def store_login_def Let_def split: option.splits)
qed

lemma on_object_confined:
  assumes "invA (es_inv h) m"
  shows "invA (confined_with h (\<lambda>W. host_ok h W \<and> a < length (tw_objects W))) (on_object a m)"
  unfolding on_object_def
  by (rule invA_zoom [OF assms])
    (auto simp: host_ok_def list_all_length nth_list_update)

lemma invA_cases: "invA I m \<Longrightarrow> I (tr, W) \<Longrightarrow> I (fst (snd (m (tr, W))), snd (snd (m (tr, W))))"
  using invA_D by fastforce

lemma connect_confined: "invA (confined_with h (host_ok h)) (connectToChat C)"
  unfolding invA_def
  by (auto simp: connect_effect setupChatServices_def update_service_def host_ok_def EventSub_new_def Let_def
      co_spawn_def)

lemma opened_confined:
  "invA (confined_with h (\<lambda>W. host_ok h W \<and> a < length (tw_objects W))) (connect_opened N J C a)"
  unfolding connect_opened_def connect_failed_def
  by (intro invA_catchA invA_thenA on_object_confined EventSub_connect_inv invA_modify_obj)
    (auto simp: co_spawn_def host_ok_def)

lemma subscribe_task_confined:
  assumes "confined h tr" "host_ok h W" "the (m_chat_read (tw_service W)) < length (tw_objects W)"
  shows "confined_with h (host_ok h) (snd (connect_subscribe N J C (tr, W)))"
proof (cases "net_fails N tr (TimerWait 500)")
  case (Some e)
  with assms show ?thesis by (simp add: connect_subscribe_def connect_failed_def act_simps confined_other)
next
  case None
  let ?a = "the (m_chat_read (tw_service W))"
  obtain r tr1 W1 where o: "on_object ?a (requestSubscription N J) (tr @ [TimerWait 500], W) = (r, (tr1, W1))"
    by (metis prod.collapse)
  have "confined_with h (\<lambda>W. host_ok h W \<and> ?a < length (tw_objects W)) (tr1, W1)"
    using invA_D [OF on_object_confined [OF requestSubscription_inv], of h ?a "(tr @ [TimerWait 500], W)" N J]
      assms by (simp add: o confined_other)
  then show ?thesis
    using None o by (cases r) (auto simp: connect_subscribe_def connect_failed_def act_simps spawn_subscriptions_eq host_ok_def)
qed

lemma send_confined:
  assumes "confined h tr" "host_ok h W" "m_chat_send (tw_service W) = Some cfg"
  shows "confined h (fst (snd (send_task N J C m (tr, W))))"
proof -
  have "helix_host cfg = h" using assms by (simp add: host_ok_def)
  then have "confined_with h (\<lambda>c. helix_host c = h) (snd (Send_message N J m (cfg_broadcaster_id (m_config (tw_service W))) (tr, cfg)))"
    using assms(1) by (intro invA_D [OF Send_message_inv]) simp
  then show ?thesis
    using assms(3) by (auto simp: send_task_def on_sender_def act_simps split: sum.splits prod.splits)
qed

lemma host_ok_calm: "calm new W W' \<Longrightarrow> host_ok h W' = host_ok h W"
  by (simp add: calm_def host_ok_def)

context message_callback
begin

lemma reading_confined:
  assumes "confined h tr"
  shows "confined h (fst (snd (reading_task N J C a (tr, W))))"
proof (cases "m_wss (tw_objects W ! a) = None \<or> \<not> net_is_open N tr")
  case False
  then obtain ws where ws: "m_wss (tw_objects W ! a) = Some ws" "net_is_open N tr" by auto
  obtain r tr' E' W' where "read_body N (eventsub_callback J C) ws (tr, (tw_objects W ! a, W)) = (r, (tr', (E', W')))"
    and "only_sends (tr @ [WsRead ws], W) (tr', W')"
    using read_body_effect [of "eventsub_callback J C", OF callback_sends] by blast
  with ws assms show ?thesis by (cases r) (auto simp: reading_task_def only_sends_def confined_other)
qed (use assms in \<open>auto simp: reading_task_def split: option.splits\<close>)

lemma resume_confined:
  assumes "confined h tr" "host_ok h W" and p: "pointers_ok t W"
    and s: "services_ok (tw_service W) (map es_cfg (tw_objects W))"
  shows "confined_with h (host_ok h) (snd (resume N J C t (tr, W)))"
proof -
  have lt: "a < length (tw_objects W)" if "alive a W" for a
    using that s by (auto simp: alive_def services_ok_def split: option.splits)
  have calm: "host_ok h (snd (snd (resume N J C t (tr, W))))" if "calm_task t"
    using resume_calm [OF that, of W N J tr] assms(2) host_ok_calm by (auto simp: calm_result_def)
  show ?thesis
  proof (cases t)
    case LoginTask
    then show ?thesis using invA_D [OF login_confined, of h "(tr, W)"] assms(1,2) by simp
  next
    case ConnectTask
    then show ?thesis using invA_D [OF connect_confined, of h "(tr, W)"] assms(1,2) by simp
  next
    case (OpenTask a)
    then show ?thesis using invA_D [OF opened_confined, of h a "(tr, W)" N J C] assms(1,2) p lt by (auto simp: case_prod_beta)
  next
    case SubscribeChatTask
    then have "the (m_chat_read (tw_service W)) < length (tw_objects W)" using p lt by (auto simp: alive_def)
    from SubscribeChatTask subscribe_task_confined [OF assms(1,2) this] show ?thesis by simp
  next
    case ReadTask
    then show ?thesis using calm assms(1) by (auto simp: calm_task_def read_task_def act_simps Let_def split: if_splits)
  next
    case (ReadingTask a)
    then show ?thesis using calm reading_confined [OF assms(1)] by (auto simp: calm_task_def case_prod_beta)
  next
    case (StartTask a)
    then show ?thesis using calm assms(1) by (auto simp: calm_task_def on_object_put EventSub_start_def act_simps)
  next
    case (SubscribeTask a ty v)
    have "confined_with h (\<lambda>W. host_ok h W \<and> a < length (tw_objects W)) (snd (on_object a (subscribe N J ty v) (tr, W)))"
      using invA_D [OF on_object_confined [OF subscribe_inv], of h a "(tr, W)" N J ty v] assms(1,2) p lt SubscribeTask by simp
    with SubscribeTask show ?thesis by (auto simp: act_simps split: sum.splits prod.splits)
  next
    case (SendTask m)
    then obtain cfg where "m_chat_send (tw_service W) = Some cfg" using p by auto
    from SendTask calm send_confined [OF assms(1,2) this] show ?thesis by (simp add: calm_task_def case_prod_beta)
  qed
qed

lemma step_confined:
  assumes "tw_step N J C s ev (Some s')" and "tw_inv (snd s)" and "confined_with h (host_ok h) s"
  shows "confined_with h (host_ok h) s'"
  using assms(1)
proof cases
  case (step_resume i W tr)
  have "pointers_ok (tw_tasks W ! i) (remove_task i W)"
    using step_resume pointers_ok_cong [of "remove_task i W" W "tw_tasks W ! i"] by simp
  with step_resume assms(2,3) resume_confined [of h tr "remove_task i W" "tw_tasks W ! i" N J] show ?thesis
    by (simp add: tw_inv_def host_ok_def)
next
  case (step_disconnect W tr)
  with assms(3) show ?thesis by (simp add: disconnect_def update_service_def host_ok_def)
next
  case (step_app tr W x)
  with assms(3) show ?thesis by (simp add: host_ok_def)
qed (use assms(3) in \<open>auto simp: startLogin_def TwitchService_sendMessage_def\<close>)

lemma run_confined:
  assumes "tw_run N J C s evs r" and "tw_inv (snd s)" and "confined_with h (host_ok h) s"
  shows "case r of None \<Rightarrow> True | Some s' \<Rightarrow> tw_inv (snd s') \<and> confined_with h (host_ok h) s'"
  using assms
proof induction
  case (run_step s evs s' ev r)
  then show ?case
    by (cases r) (auto dest: step_keeps_inv step_confined)
qed simp

end

end
