(* ===== verification/Obs_Service.thy ===== *)
theory Obs_Service
  imports Network "HOL-Library.Word"
begin

text \<open>
  \<^verbatim>\<open>include/seraphbot/obs/obsservice.hpp\<close>: the client of the OBS web socket. The web socket is
  part of the recorded network.

  \<^verbatim>\<open>m_ws\<close> is null until a connection is attempted, and the methods do not check it. Using it while
  it is null is recorded in \<open>obs_null_deref\<close>; what the model does after that has no meaning for
  the program.
\<close>

section \<open>Data\<close>

record OBSService =
  m_obs_host :: string
  m_obs_port :: string
  m_obs_password :: string
  m_ws :: "stream option"
  m_connected :: bool
  m_request_id :: "64 word"
  obs_null_deref :: bool

definition OBSService_new :: "string \<Rightarrow> OBSService" where
  "OBSService_new password =
     \<lparr>m_obs_host = ''192.168.1.2'', m_obs_port = ''4455'', m_obs_password = password, m_ws = None,
      m_connected = False, m_request_id = 1, obs_null_deref = False\<rparr>"

text \<open>\<^verbatim>\<open>m_request_id++\<close>: the old value, as it appears in the request.\<close>

definition next_request_id :: "(OBSService io, 64 word) act" where
  "next_request_id =
     bindA get_obj (\<lambda>B. thenA (modify_obj (\<lambda>B. B\<lparr>m_request_id := m_request_id B + 1\<rparr>)) (ret (m_request_id B)))"

text \<open>A request: operation code 6 with its type, its data if it has any, and its id.\<close>

definition obs_request :: "'j json_lib \<Rightarrow> string \<Rightarrow> (string \<times> 'j) list option \<Rightarrow> 64 word \<Rightarrow> 'j" where
  "obs_request J request_type data rid =
     json_object J [(''op'', json_int J 6),
       (''d'', json_object J
          ((''requestType'', json_string J request_type)
           # (case data of None \<Rightarrow> [] | Some d \<Rightarrow> [(''requestData'', json_object J d)])
           @ [(''requestId'', json_int J (uint rid))]))]"

section \<open>Messages\<close>

definition OBS_sendMessage :: "net_env \<Rightarrow> 'j json_lib \<Rightarrow> 'j \<Rightarrow> (OBSService io, unit) act" where
  "OBS_sendMessage N J message =
     bindA (lift (json_dump J message)) (\<lambda>msg_str.
     bindA get_obj (\<lambda>B.
       case m_ws B of
         None \<Rightarrow> modify_obj (\<lambda>B. B\<lparr>obs_null_deref := True\<rparr>)
       | Some s \<Rightarrow> call N (WsWrite s msg_str)))"

definition OBS_receiveMessage :: "net_env \<Rightarrow> 'j json_lib \<Rightarrow> (OBSService io, 'j) act" where
  "OBS_receiveMessage N J =
     bindA get_obj (\<lambda>B.
     bindA (case m_ws B of
              None \<Rightarrow> thenA (modify_obj (\<lambda>B. B\<lparr>obs_null_deref := True\<rparr>)) (ret [])
            | Some s \<Rightarrow> ask_or_throw (net_frame N) (WsRead s)) (\<lambda>response.
       lift (json_parse J response)))"

definition generateAuthResponse :: "string \<Rightarrow> string \<Rightarrow> string" where
  "generateAuthResponse challenge salt = []"

definition auth_required :: "'j json_lib \<Rightarrow> 'j \<Rightarrow> exn + bool" where
  "auth_required J response =
     (if \<not> json_contains J response ''d'' then Inr False
      else bindE (json_index J response ''d'') (\<lambda>d.
        if \<not> json_contains J d ''authRequired'' then Inr False
        else bindE (json_index J d ''authRequired'') (\<lambda>r. Inr (json_eq J r (json_bool J True)))))"

definition authenticate :: "net_env \<Rightarrow> 'j json_lib \<Rightarrow> (OBSService io, unit) act" where
  "authenticate N J =
     bindA next_request_id (\<lambda>rid.
     thenA (OBS_sendMessage N J (obs_request J ''GetAuthRequired'' None rid)) (
     bindA (OBS_receiveMessage N J) (\<lambda>response.
     bindA (lift (auth_required J response)) (\<lambda>required.
     if required
     then bindA (lift (bindE (json_path J response [''d'', ''challenge'']) (json_get_string J))) (\<lambda>challenge.
          bindA (lift (bindE (json_path J response [''d'', ''salt'']) (json_get_string J))) (\<lambda>salt.
            OBS_sendMessage N J (json_object J [(''op'', json_int J 1),
              (''d'', json_object J [(''rpcVersion'', json_int J 1),
                 (''authentication'', json_string J (generateAuthResponse challenge salt))])])))
     else ret ()))))"

definition connectToOBS :: "net_env \<Rightarrow> 'j json_lib \<Rightarrow> (OBSService io, bool) act" where
  "connectToOBS N J =
     catchA
       (bindA get_obj (\<lambda>B.
        thenA (call N (Resolve (m_obs_host B) (m_obs_password B))) (
        bindA (ask length NewStream) (\<lambda>s.
        thenA (modify_obj (\<lambda>B. B\<lparr>m_ws := Some s\<rparr>)) (
        thenA (call N (TcpConnect s (m_obs_host B) (m_obs_password B))) (
        thenA (call N (WsHandshake s (m_obs_host B) [])) (
        thenA (if m_obs_password B \<noteq> [] then authenticate N J else ret ()) (
        thenA (modify_obj (\<lambda>B. B\<lparr>m_connected := True\<rparr>)) (ret True)))))))))
       (\<lambda>err. thenA (modify_obj (\<lambda>B. B\<lparr>m_connected := False\<rparr>)) (ret False))"

definition sendOBSCommand :: "net_env \<Rightarrow> 'j json_lib \<Rightarrow> 'j \<Rightarrow> (OBSService io, 'j) act" where
  "sendOBSCommand N J command =
     bindA get_obj (\<lambda>B.
     thenA (if \<not> m_connected B then bindA (connectToOBS N J) (\<lambda>ok. ret ()) else ret ()) (
     thenA (OBS_sendMessage N J command) (OBS_receiveMessage N J)))"

section \<open>Commands\<close>

fun source_loop :: "'j json_lib \<Rightarrow> string \<Rightarrow> 'j list \<Rightarrow> exn + int" where
  "source_loop J source_name [] = Inr (- 1)"
| "source_loop J source_name (item # items) =
     (if json_contains J item ''sourceName''
      then bindE (json_index J item ''sourceName'') (\<lambda>n.
             if json_eq J n (json_string J source_name) then json_value_int J item ''sceneItemId'' (- 1)
             else source_loop J source_name items)
      else source_loop J source_name items)"

definition source_id_of :: "'j json_lib \<Rightarrow> string \<Rightarrow> 'j \<Rightarrow> exn + int" where
  "source_id_of J source_name response =
     (if \<not> json_contains J response ''d'' then Inr (- 1)
      else bindE (json_index J response ''d'') (\<lambda>d.
        if \<not> json_contains J d ''responseData'' then Inr (- 1)
        else bindE (json_index J d ''responseData'') (\<lambda>data.
          if \<not> json_contains J data ''sceneItems'' then Inr (- 1)
          else bindE (json_index J data ''sceneItems'') (\<lambda>items. source_loop J source_name (json_elems J items)))))"

definition getSourceId :: "net_env \<Rightarrow> 'j json_lib \<Rightarrow> string \<Rightarrow> string \<Rightarrow> (OBSService io, int) act" where
  "getSourceId N J scene_name source_name =
     bindA next_request_id (\<lambda>rid.
     bindA (sendOBSCommand N J (obs_request J ''GetSceneItemList''
              (Some [(''sceneName'', json_string J scene_name)]) rid)) (\<lambda>response.
       lift (source_id_of J source_name response)))"

definition duration_of :: "'j json_lib \<Rightarrow> 'j \<Rightarrow> exn + int" where
  "duration_of J response =
     (if \<not> json_contains J response ''d'' then Inr 5000
      else bindE (json_index J response ''d'') (\<lambda>d.
        if \<not> json_contains J d ''responseData'' then Inr 5000
        else bindE (json_index J d ''responseData'') (\<lambda>data.
          if \<not> json_contains J data ''mediaDuration'' then Inr 5000
          else bindE (json_index J data ''mediaDuration'') (json_get_int J))))"

definition getMediaDuration :: "net_env \<Rightarrow> 'j json_lib \<Rightarrow> string \<Rightarrow> (OBSService io, int) act" where
  "getMediaDuration N J source_name =
     bindA next_request_id (\<lambda>rid.
     bindA (sendOBSCommand N J (obs_request J ''GetMediaInputStatus''
              (Some [(''inputName'', json_string J source_name)]) rid)) (\<lambda>response.
       lift (duration_of J response)))"

definition waitForVideoEnd :: "net_env \<Rightarrow> (OBSService io, unit) act" where
  "waitForVideoEnd N = call N (TimerWait 1000)"

definition playVideo :: "net_env \<Rightarrow> 'j json_lib \<Rightarrow> string \<Rightarrow> string \<Rightarrow> string \<Rightarrow> (OBSService io, unit) act" where
  "playVideo N J video_path scene_name source_name =
     (let str = json_string J
      in catchA
       (bindA get_obj (\<lambda>B.
        thenA (if \<not> m_connected B then bindA (connectToOBS N J) (\<lambda>ok. ret ()) else ret ()) (
        bindA next_request_id (\<lambda>rid1.
        thenA (sendOBSCommand N J (obs_request J ''SetInputSettings''
                 (Some [(''inputName'', str source_name),
                        (''inputSettings'', json_object J [(''local_file'', str video_path),
                                                           (''restart_on_activate'', json_bool J True)])]) rid1)) (
        bindA (getSourceId N J scene_name source_name) (\<lambda>source_id.
        if source_id = - 1 then ret ()
        else
        bindA next_request_id (\<lambda>rid2.
        thenA (sendOBSCommand N J (obs_request J ''SetSceneItemEnabled''
                 (Some [(''sceneName'', str scene_name), (''sceneItemId'', str source_name),
                        (''sceneItemEnabled'', json_bool J True)]) rid2)) (
        bindA (getMediaDuration N J source_name) (\<lambda>duration.
        thenA (call N (TimerWait duration)) (
        bindA next_request_id (\<lambda>rid3.
          thenA (sendOBSCommand N J (obs_request J ''SetSceneItemEneabled''
                 (Some [(''sceneName'', str scene_name), (''sceneItemId'', json_int J source_id),
                        (''sceneItemEnabled'', json_bool J False)]) rid3)) (ret ()))))))))))))
       (\<lambda>err. ret ()))"

section \<open>The web socket pointer\<close>

definition ws_ready :: "OBSService io \<Rightarrow> bool" where
  "ws_ready = (\<lambda>(tr, B). m_ws B \<noteq> None \<and> \<not> obs_null_deref B)"

lemma ready_calls [inv_intros]:
  "invA ws_ready (call N c)" "invA ws_ready (ask f c)" "invA ws_ready (ask_or_throw g c)"
  by (simp_all add: invA_def ws_ready_def act_simps split_paired_all)

lemma ready_id [inv_intros]: "invA ws_ready next_request_id"
  unfolding next_request_id_def
  by (intro invA_get_obj inv_intros invA_modify_obj) (simp add: ws_ready_def)

lemma ready_send [inv_intros]: "invA ws_ready (OBS_sendMessage N J m)"
  unfolding OBS_sendMessage_def
proof (intro invA_bindA [OF invA_simple(3)] invA_get_obj, goal_cases)
  case (1 a tr B)
  then obtain s where "m_ws B = Some s" by (auto simp: ws_ready_def)
  then show ?case by (simp add: ready_calls)
qed

lemma ready_receive [inv_intros]: "invA ws_ready (OBS_receiveMessage N J)"
  unfolding OBS_receiveMessage_def
proof (rule invA_get_obj, goal_cases)
  case (1 tr B)
  then obtain s where "m_ws B = Some s" by (auto simp: ws_ready_def)
  then show ?case by (simp add: invA_bindA ready_calls invA_simple)
qed

lemma ready_authenticate [inv_intros]: "invA ws_ready (authenticate N J)"
  unfolding authenticate_def by (intro inv_intros)

lemma ready_connect [inv_intros]: "invA ws_ready (connectToOBS N J)"
  unfolding connectToOBS_def
  by (intro invA_catchA invA_get_obj inv_intros invA_modify_obj) (simp_all add: ws_ready_def)

lemma ready_command [inv_intros]: "invA ws_ready (sendOBSCommand N J cmd)"
  unfolding sendOBSCommand_def by (intro invA_get_obj inv_intros)

lemma ready_source [inv_intros]: "invA ws_ready (getSourceId N J scene src)"
  unfolding getSourceId_def by (intro inv_intros)

lemma ready_duration [inv_intros]: "invA ws_ready (getMediaDuration N J src)"
  unfolding getMediaDuration_def by (intro inv_intros)

lemma playVideo_ready: "invA ws_ready (playVideo N J video scene src)"
  unfolding playVideo_def Let_def by (intro invA_catchA invA_get_obj inv_intros)

lemma connect_unresolved:
  assumes "net_fails N tr (Resolve (m_obs_host B) (m_obs_password B)) = Some e"
  shows "connectToOBS N J (tr, B) =
    (Inr False, (tr @ [Resolve (m_obs_host B) (m_obs_password B)], B\<lparr>m_connected := False\<rparr>))"
  using assms by (simp add: connectToOBS_def act_simps)

lemma connect_resolved:
  assumes "net_fails N tr (Resolve (m_obs_host B) (m_obs_password B)) = None" and "\<not> obs_null_deref B"
  shows "ws_ready (snd (connectToOBS N J (tr, B)))"
proof -
  let ?tr = "tr @ [Resolve (m_obs_host B) (m_obs_password B)]"
  let ?s = "length ?tr"
  let ?rest = "thenA (call N (TcpConnect ?s (m_obs_host B) (m_obs_password B))) (
        thenA (call N (WsHandshake ?s (m_obs_host B) [])) (
        thenA (if m_obs_password B \<noteq> [] then authenticate N J else ret ()) (
        thenA (modify_obj (\<lambda>B. B\<lparr>m_connected := True\<rparr>)) (ret True))))"
  let ?h = "\<lambda>err. thenA (modify_obj (\<lambda>B. B\<lparr>m_connected := False\<rparr>)) (ret False)"
  have "connectToOBS N J (tr, B) = catchA ?rest ?h (?tr @ [NewStream], B\<lparr>m_ws := Some ?s\<rparr>)"
    unfolding connectToOBS_def using assms(1)
    by (simp add: catchA_run bindA_run thenA_run get_obj_run call_run ask_run modify_obj_run)
  moreover have i: "invA ws_ready (catchA ?rest ?h)"
    by (intro invA_catchA inv_intros invA_modify_obj) (simp_all add: ws_ready_def)
  have "ws_ready (?tr @ [NewStream], B\<lparr>m_ws := Some ?s\<rparr>)" using assms(2) by (simp add: ws_ready_def)
  from invA_D [OF i this] have "ws_ready (snd (catchA ?rest ?h (?tr @ [NewStream], B\<lparr>m_ws := Some ?s\<rparr>)))" .
  ultimately show ?thesis by (simp only:)
qed

lemma connect_returns: "\<exists>b. fst (connectToOBS N J s) = Inr b"
  unfolding connectToOBS_def by (auto simp: catchA_run thenA_run ret_run modify_obj_def split: prod.splits sum.splits)

lemma command_unconnected:
  assumes "\<not> m_connected B"
  shows "sendOBSCommand N J cmd (tr, B) =
    thenA (OBS_sendMessage N J cmd) (OBS_receiveMessage N J) (snd (connectToOBS N J (tr, B)))"
proof -
  obtain b s1 where "connectToOBS N J (tr, B) = (Inr b, s1)" using connect_returns by (metis prod.collapse)
  with assms show ?thesis
    by (simp add: sendOBSCommand_def thenA_run [of "bindA _ _"] bindA_run [of get_obj] bindA_run [of "connectToOBS N J"]
        get_obj_run ret_run)
qed

section \<open>Properties\<close>

text \<open>
  C39: When a command uses a null web socket. On a service that is not connected and has no web
  socket yet, a command dereferences the null pointer exactly if the host does not resolve: the
  result of the failed connection attempt is not looked at.
\<close>

theorem command_null_deref_iff:
  assumes "m_ws B = None" and "\<not> m_connected B" and "\<not> obs_null_deref B" and "json_dump J cmd = Inr t"
  shows "obs_null_deref (snd (snd (sendOBSCommand N J cmd (tr, B)))) \<longleftrightarrow>
    net_fails N tr (Resolve (m_obs_host B) (m_obs_password B)) \<noteq> None"
proof (cases "net_fails N tr (Resolve (m_obs_host B) (m_obs_password B))")
  case (Some e)
  let ?s1 = "(tr @ [Resolve (m_obs_host B) (m_obs_password B)], B\<lparr>m_connected := False\<rparr>)"
  have "OBS_sendMessage N J cmd ?s1 = (Inr (), (fst ?s1, (snd ?s1)\<lparr>obs_null_deref := True\<rparr>))"
    using assms(1,4) by (simp add: OBS_sendMessage_def act_simps)
  moreover have "obs_null_deref (snd (snd (OBS_receiveMessage N J (fst ?s1, (snd ?s1)\<lparr>obs_null_deref := True\<rparr>))))"
    using assms(1) by (simp add: OBS_receiveMessage_def act_simps)
  ultimately show ?thesis
    using Some connect_unresolved [OF Some, of J] unfolding command_unconnected [OF assms(2)] by (simp add: thenA_run)
next
  case None
  have "invA ws_ready (thenA (OBS_sendMessage N J cmd) (OBS_receiveMessage N J))" by (intro inv_intros)
  from invA_D [OF this connect_resolved [OF None assms(3), of J]]
  have "ws_ready (snd (sendOBSCommand N J cmd (tr, B)))" unfolding command_unconnected [OF assms(2)] .
  with None show ?thesis by (simp add: ws_ready_def case_prod_beta)
qed

definition unreachable_net :: net_env where
  "unreachable_net =
     \<lparr>net_fails = (\<lambda>tr c. case c of Resolve h p \<Rightarrow> Some (SystemError (OtherCode 1) ''not found'') | _ \<Rightarrow> None),
      net_response = (\<lambda>tr. Inr \<lparr>res_status = 200, res_location = [], res_body = ''{}''\<rparr>),
      net_frame = (\<lambda>tr. Inr ''{}''), net_sni_ok = (\<lambda>tr. True), net_is_open = (\<lambda>tr. True),
      net_random = (\<lambda>tr. 0), net_now = (\<lambda>tr. 0)\<rparr>"

theorem command_null_deref_iff_witness:
  "obs_null_deref (snd (snd (sendOBSCommand unreachable_net (jval_lib (\<lambda>s. None)) JNull ([], OBSService_new ''testpassword''))))"
proof -
  let ?B = "OBSService_new ''testpassword''" and ?J = "jval_lib (\<lambda>s. None)"
  have "m_ws ?B = None" "\<not> m_connected ?B" "\<not> obs_null_deref ?B" by (simp_all add: OBSService_new_def)
  moreover have "json_dump ?J JNull = Inr ''{}''" by (simp add: jval_lib_def)
  moreover have "net_fails unreachable_net [] (Resolve (m_obs_host ?B) (m_obs_password ?B)) \<noteq> None"
    by (simp add: unreachable_net_def)
  ultimately show ?thesis using command_null_deref_iff [of ?B ?J JNull "''{}''" unreachable_net "[]"] by blast
qed

text \<open>The ids that \<open>n\<close> requests in a row get.\<close>

primrec request_ids :: "nat \<Rightarrow> OBSService io \<Rightarrow> 64 word list" where
  "request_ids 0 s = []"
| "request_ids (Suc n) s =
     (case next_request_id s of (Inr rid, s') \<Rightarrow> rid # request_ids n s' | (Inl e, s') \<Rightarrow> [])"

lemma request_ids_eq:
  "request_ids n (tr, B) = map (\<lambda>i. m_request_id B + of_nat i) [0..<n]"
proof (induction n arbitrary: B)
  case (Suc n)
  have "map (\<lambda>i. m_request_id B + 1 + of_nat i) [0..<n] = map (\<lambda>i. m_request_id B + of_nat i) (map Suc [0..<n])"
    by (simp add: add.assoc)
  then show ?case
    by (simp add: next_request_id_def act_simps Suc.IH map_Suc_upt upt_conv_Cons del: upt_Suc map_map)
qed simp

text \<open>
  Request ids do not repeat before the counter wraps: the ids of the first \<open>n\<close> requests are
  pairwise distinct as long as there are at most \<open>2 ^ 64\<close> of them, whatever the counter starts with.
\<close>

theorem request_ids_distinct:
  assumes "n \<le> 2 ^ 64"
  shows "distinct (request_ids n (tr, B)) \<and> length (request_ids n (tr, B)) = n"
proof -
  have "i = j" if "i < n" "j < n" "(of_nat i :: 64 word) = of_nat j" for i j
  proof -
    have "unat (of_nat i :: 64 word) = i" "unat (of_nat j :: 64 word) = j"
      using that(1,2) assms by (simp_all add: unat_of_nat take_bit_nat_eq_self_iff)
    with that(3) show ?thesis by metis
  qed
  then have "inj_on (\<lambda>i. m_request_id B + (of_nat i :: 64 word)) (set [0..<n])"
    by (auto simp: inj_on_def)
  then show ?thesis by (simp add: request_ids_eq distinct_map)
qed

theorem request_ids_distinct_witness:
  "distinct (request_ids 3 ([], (OBSService_new [])\<lparr>m_request_id := - 1\<rparr>)) \<and>
   request_ids 3 ([], (OBSService_new [])\<lparr>m_request_id := - 1\<rparr>) = [- 1, 0, 1]"
  using request_ids_distinct [of 3 "[]" "(OBSService_new [])\<lparr>m_request_id := - 1\<rparr>"]
  by (simp add: request_ids_eq upt_rec)

end
