(* ===== verification/Command_Parser.thy ===== *)
theory Command_Parser
  imports Prelude App_State
begin

text \<open>
  \<^verbatim>\<open>include/seraphbot/core/command_parser.hpp\<close> and \<^verbatim>\<open>src/core/command_parser.cpp\<close>: the
  context of a chat command, the registry of handlers, the tokenizer, and
  \<open>parseAndExecute\<close>, which every chat message goes through.

  A \<^verbatim>\<open>CommandHandler\<close> is a closure over other objects of the application. It is a value of a
  type \<open>'h\<close> here, and \<open>parseAndExecute\<close> takes the function \<open>invoke\<close> that runs one on
  the state \<open>'s\<close> of these objects; \<^verbatim>\<open>Application\<close> says which handlers there are. An empty
  \<^verbatim>\<open>std::function\<close> is \<open>None\<close>.

  \<^verbatim>\<open>CommandParser::setPrefix\<close> is declared in the header and defined nowhere, so the prefix
  keeps its initial value.
\<close>

section \<open>The command context\<close>

record 's CommandContext =
  ctx_message :: ChatMessage
  ctx_command :: string
  ctx_args :: "string list"
  ctx_reply :: "string \<Rightarrow> ('s, unit) act"

definition CommandContext_new ::
    "ChatMessage \<Rightarrow> string \<Rightarrow> string list \<Rightarrow> (string \<Rightarrow> ('s, unit) act) \<Rightarrow> 's CommandContext" where
  "CommandContext_new msg cmd arguments reply_fn =
     \<lparr>ctx_message = msg, ctx_command = cmd, ctx_args = arguments, ctx_reply = reply_fn\<rparr>"

definition CommandContext_joinArgs :: "nat \<Rightarrow> 's CommandContext \<Rightarrow> string" where
  "CommandContext_joinArgs start_index ctx =
     sep_loop '' '' start_index start_index (drop start_index (ctx_args ctx)) []"

lemma joinArgs_join:
  "CommandContext_joinArgs i ctx = join_with '' '' (drop i (ctx_args ctx))"
  by (simp add: CommandContext_joinArgs_def sep_loop_join)

section \<open>The parser\<close>

record 'h CommandParser =
  m_prefix :: string
  m_commands :: "string \<rightharpoonup> 'h"

definition CommandParser_new :: "'h CommandParser" where
  "CommandParser_new = \<lparr>m_prefix = ''!'', m_commands = Map.empty\<rparr>"

definition registerCommand :: "string \<Rightarrow> 'h option \<Rightarrow> 'h CommandParser \<Rightarrow> 'h CommandParser" where
  "registerCommand name handler P =
     (if name = [] then P
      else case handler of
             None \<Rightarrow> P
           | Some h \<Rightarrow> P\<lparr>m_commands := (m_commands P)(transform_tolower name \<mapsto> h)\<rparr>)"

definition isCommand :: "'h CommandParser \<Rightarrow> string \<Rightarrow> bool" where
  "isCommand P txt \<longleftrightarrow> txt \<noteq> [] \<and> starts_with txt (m_prefix P)"

text \<open>
  The tokenizer's loop over the characters, with its four variables: the tokens so far, the
  current token, and the two flags. The last equation is the code after the loop.
\<close>

fun tokenize_loop :: "string \<Rightarrow> string list \<Rightarrow> string \<Rightarrow> bool \<Rightarrow> bool \<Rightarrow> string list" where
  "tokenize_loop (c # cs) tokens current in_quotes escape_next =
     (if escape_next then tokenize_loop cs tokens (current @ [c]) in_quotes False
      else if c = CHR 0x5C then tokenize_loop cs tokens current in_quotes True
      else if c = CHR 0x22 then tokenize_loop cs tokens current (\<not> in_quotes) False
      else if isspace c \<and> \<not> in_quotes
           then (if current \<noteq> [] then tokenize_loop cs (tokens @ [current]) [] in_quotes False
                 else tokenize_loop cs tokens current in_quotes False)
           else tokenize_loop cs tokens (current @ [c]) in_quotes False)"
| "tokenize_loop [] tokens current in_quotes escape_next =
     (if current \<noteq> [] then tokens @ [current] else tokens)"

definition tokenize :: "string \<Rightarrow> string list" where
  "tokenize txt = tokenize_loop txt [] [] False False"

definition parseCommand :: "'h CommandParser \<Rightarrow> string \<Rightarrow> string \<times> string list" where
  "parseCommand P txt =
     (if \<not> isCommand P txt then ([], [])
      else let without_prefix = drop (length (m_prefix P)) txt;
               tokens = tokenize without_prefix
           in case tokens of
                [] \<Rightarrow> ([], [])
              | command # rest \<Rightarrow> (command, if length tokens > 1 then rest else []))"

definition parseAndExecute ::
    "('h \<Rightarrow> 's CommandContext \<Rightarrow> ('s, unit) act) \<Rightarrow> 'h CommandParser \<Rightarrow> ChatMessage
      \<Rightarrow> (string \<Rightarrow> ('s, unit) act) \<Rightarrow> ('s, bool) act" where
  "parseAndExecute invoke P message reply_fn =
     (if \<not> isCommand P (msg_text message) then ret False
      else let (command, args) = parseCommand P (msg_text message)
           in if command = [] then ret False
              else let lower_command = transform_tolower command
                   in case m_commands P lower_command of
                        None \<Rightarrow> ret False
                      | Some h \<Rightarrow>
                          catchA
                            (thenA (invoke h (CommandContext_new message command args reply_fn))
                                   (ret True))
                            (\<lambda>err. ret False))"

section \<open>The contract of the registry\<close>

text \<open>
  What the code that registers handlers relies on: a lookup ignores case, the last
  registration of a name wins, and an empty name or an empty handler changes nothing.
\<close>

locale command_registry =
  fixes lookup :: "'p \<Rightarrow> string \<Rightarrow> 'h option"
    and register :: "string \<Rightarrow> 'h option \<Rightarrow> 'p \<Rightarrow> 'p"
  assumes lookup_register:
      "n \<noteq> [] \<Longrightarrow> lookup (register n (Some h) p) k =
         (if transform_tolower k = transform_tolower n then Some h else lookup p k)"
    and register_nothing: "n = [] \<or> h' = None \<Longrightarrow> register n h' p = p"
begin

lemma lookup_register_all:
  "lookup (fold (\<lambda>(n, h). register n (Some h)) regs p) k =
     (case find (\<lambda>(n, h). n \<noteq> [] \<and> transform_tolower n = transform_tolower k) (rev regs) of
        None \<Rightarrow> lookup p k
      | Some (n, h) \<Rightarrow> Some h)"
proof (induction regs rule: rev_induct)
  case Nil
  then show ?case by simp
next
  case (snoc r regs)
  then show ?case
    by (cases r; cases "fst r = []") (auto simp: lookup_register register_nothing)
qed

lemma lookup_register_all_unique:
  assumes "(n, h) \<in> set regs" and "n \<noteq> []"
    and "\<forall>r \<in> set regs. transform_tolower (fst r) = transform_tolower n \<longrightarrow> snd r = h"
  shows "lookup (fold (\<lambda>(n, h). register n (Some h)) regs p) n = Some h"
proof -
  let ?P = "\<lambda>(m, h :: 'h). m \<noteq> [] \<and> transform_tolower m = transform_tolower n"
  obtain m g where f: "find ?P (rev regs) = Some (m, g)"
    using assms(1,2) by (cases "find ?P (rev regs)") (auto simp: find_None_iff)
  then have "(m, g) \<in> set regs" "transform_tolower m = transform_tolower n"
    by (auto simp: find_Some_iff in_set_conv_nth rev_nth)
      (metis (no_types, lifting) diff_less length_greater_0_conv list.size(3) not_less_zero zero_less_Suc)
  with assms(3) have "g = h" by fastforce
  with f show ?thesis by (simp add: lookup_register_all)
qed

end

definition parser_lookup :: "'h CommandParser \<Rightarrow> string \<Rightarrow> 'h option" where
  "parser_lookup P k = m_commands P (transform_tolower k)"

lemma parser_lookup_register:
  "n \<noteq> [] \<Longrightarrow> parser_lookup (registerCommand n (Some h) P) k =
     (if transform_tolower k = transform_tolower n then Some h else parser_lookup P k)"
  by (simp add: parser_lookup_def registerCommand_def)

lemma registerCommand_nothing: "n = [] \<or> h = None \<Longrightarrow> registerCommand n h P = P"
  by (auto simp: registerCommand_def)

lemma m_prefix_registerCommand [simp]: "m_prefix (registerCommand n h P) = m_prefix P"
  by (simp add: registerCommand_def split: option.splits)

interpretation parser_registry: command_registry parser_lookup registerCommand
  by unfold_locales (simp_all add: parser_lookup_register registerCommand_nothing)

section \<open>The tokenizer\<close>

text \<open>Every token it returns is non-empty; a pair of quotes with nothing inside is dropped.\<close>

lemma tokenize_loop_nonempty:
  "[] \<notin> set tokens \<Longrightarrow> [] \<notin> set (tokenize_loop cs tokens current q e)"
  by (induction cs tokens current q e rule: tokenize_loop.induct) auto

lemma tokenize_nonempty: "[] \<notin> set (tokenize s)"
  by (simp add: tokenize_def tokenize_loop_nonempty)

text \<open>
  On text without quotes and backslashes the tokenizer is the usual split at white space:
\<close>

function split_words :: "string \<Rightarrow> string list" where
  "split_words s =
     (let s' = dropWhile isspace s
      in if s' = [] then []
         else takeWhile (\<lambda>c. \<not> isspace c) s' # split_words (dropWhile (\<lambda>c. \<not> isspace c) s'))"
  by pat_completeness auto
termination
proof (relation "measure length", goal_cases)
  case (2 s s')
  then obtain c r where s': "dropWhile isspace s = c # r" by (cases "dropWhile isspace s") auto
  then have "\<not> isspace c" by (metis dropWhile_eq_Cons_conv)
  with 2 s' have "length (dropWhile (\<lambda>c. \<not> isspace c) s') < length s'"
    by (simp add: le_imp_less_Suc length_dropWhile_le)
  also have "length s' \<le> length s" using 2 by (simp add: length_dropWhile_le)
  finally show ?case by simp
qed simp

declare split_words.simps [simp del]

lemma split_words_Nil [simp]: "split_words [] = []"
  by (simp add: split_words.simps)

lemma split_words_space [simp]: "isspace c \<Longrightarrow> split_words (c # cs) = split_words cs"
  by (subst (1 2) split_words.simps) simp

lemma split_words_nonspace:
  "\<not> isspace c \<Longrightarrow> split_words (c # cs) =
     (c # takeWhile (\<lambda>c. \<not> isspace c) cs) # split_words (dropWhile (\<lambda>c. \<not> isspace c) cs)"
  by (subst split_words.simps) simp

definition plain :: "string \<Rightarrow> bool" where
  "plain s \<longleftrightarrow> CHR 0x5C \<notin> set s \<and> CHR 0x22 \<notin> set s"

lemma tokenize_loop_plain:
  "plain cs \<Longrightarrow> tokenize_loop cs tokens current False False =
     tokens @ (if current = [] then split_words cs
               else (current @ takeWhile (\<lambda>c. \<not> isspace c) cs)
                      # split_words (dropWhile (\<lambda>c. \<not> isspace c) cs))"
  by (induction cs arbitrary: tokens current)
    (auto simp: plain_def split_words_nonspace)

text \<open>
  Printing a command line: each token in quotes, with quotes and backslashes escaped, and a
  blank between tokens.
\<close>

definition escape_char :: "char \<Rightarrow> string" where
  "escape_char c = (if c = CHR 0x5C \<or> c = CHR 0x22 then [CHR 0x5C, c] else [c])"

definition print_token :: "string \<Rightarrow> string" where
  "print_token t = [CHR 0x22] @ concat (map escape_char t) @ [CHR 0x22]"

definition print_line :: "string list \<Rightarrow> string" where
  "print_line ts = join_with '' '' (map print_token ts)"

lemma tokenize_loop_escaped:
  "tokenize_loop (concat (map escape_char t) @ rest) tokens current True False =
     tokenize_loop rest tokens (current @ t) True False"
  by (induction t arbitrary: current) (auto simp: escape_char_def)

lemma tokenize_loop_print_token:
  "tokenize_loop (print_token t @ rest) tokens current False False =
     tokenize_loop rest tokens (current @ t) False False"
  by (simp add: print_token_def tokenize_loop_escaped)

lemma isspace_blank [simp]: "isspace (CHR '' '')"
  by (simp add: isspace_def)

lemma tokenize_loop_print_line:
  "[] \<notin> set ts \<Longrightarrow> tokenize_loop (print_line ts) tokens [] False False = tokens @ ts"
proof (induction ts arbitrary: tokens)
  case Nil
  then show ?case by (simp add: print_line_def)
next
  case (Cons t ts)
  then show ?case
  proof (cases ts)
    case Nil
    with Cons.prems show ?thesis
      using tokenize_loop_print_token [of t "[]" tokens "[]"] by (simp add: print_line_def)
  next
    case (Cons u us)
    have "print_line (t # ts) = print_token t @ '' '' @ print_line ts"
      using Cons by (simp add: print_line_def)
    then show ?thesis
      using Cons.IH Cons.prems by (auto simp: tokenize_loop_print_token)
  qed
qed

lemma tokenize_print_line: "[] \<notin> set ts \<Longrightarrow> tokenize (print_line ts) = ts"
  by (simp add: tokenize_def tokenize_loop_print_line)

section \<open>Parsing and dispatch\<close>

lemma parseCommand_tokens:
  "isCommand P txt \<Longrightarrow> parseCommand P txt =
     (case tokenize (drop (length (m_prefix P)) txt) of [] \<Rightarrow> ([], []) | c # as \<Rightarrow> (c, as))"
  by (auto simp: parseCommand_def split: list.splits)

lemma parseCommand_print_line:
  assumes "c \<noteq> []" and "[] \<notin> set as" and "txt = m_prefix P @ print_line (c # as)"
  shows "parseCommand P txt = (c, as)"
proof -
  have "print_line (c # as) \<noteq> []"
    by (cases as) (simp_all add: print_line_def print_token_def)
  then have "isCommand P txt" by (simp add: isCommand_def assms(3))
  moreover have "tokenize (print_line (c # as)) = c # as"
    using assms(1,2) by (intro tokenize_print_line) auto
  ultimately show ?thesis by (simp add: parseCommand_tokens assms(3))
qed

lemma parseCommand_command_Nil:
  "isCommand P txt \<Longrightarrow> fst (parseCommand P txt) = [] \<longleftrightarrow>
     tokenize (drop (length (m_prefix P)) txt) = []"
  using tokenize_nonempty [of "drop (length (m_prefix P)) txt"]
  by (auto simp: parseCommand_tokens split: list.splits)

lemma parseAndExecute_unknown:
  assumes "\<not> isCommand P (msg_text m) \<or> fst (parseCommand P (msg_text m)) = []
             \<or> parser_lookup P (fst (parseCommand P (msg_text m))) = None"
  shows "parseAndExecute invoke P m r s = (Inr False, s)"
  using assms
  by (cases "parseCommand P (msg_text m)")
    (auto simp: parseAndExecute_def parser_lookup_def Let_def act_simps split: option.splits)

lemma parseAndExecute_known:
  assumes "isCommand P (msg_text m)" and "parseCommand P (msg_text m) = (c, as)" and "c \<noteq> []"
    and "parser_lookup P c = Some h"
  shows "parseAndExecute invoke P m r s =
     (case invoke h (CommandContext_new m c as r) s of
        (Inl e, s') \<Rightarrow> (Inr False, s') | (Inr _, s') \<Rightarrow> (Inr True, s'))"
  using assms
  by (auto simp: parseAndExecute_def parser_lookup_def Let_def act_simps
      split: prod.splits sum.splits)

section \<open>Properties\<close>

text \<open>
  C10: The tokenizer inverts quoting: printing non-empty tokens in quotes (with quotes and
  backslashes escaped) and tokenizing the line gives the tokens back, whatever characters they
  contain.
\<close>

theorem tokenize_inverts_quoting:
  assumes "[] \<notin> set ts"
  shows "tokenize (print_line ts) = ts"
  using assms by (rule tokenize_print_line)

theorem tokenize_inverts_quoting_witness:
  "tokenize (print_line [''so'', ''big streamer'', [CHR 0x22, CHR 0x5C]]) =
     [''so'', ''big streamer'', [CHR 0x22, CHR 0x5C]]"
  using tokenize_inverts_quoting [of "[''so'', ''big streamer'', [CHR 0x22, CHR 0x5C]]"] by simp

text \<open>
  On text without quotes and backslashes the tokenizer is the split at white space, and
  whatever the text no token is empty.
\<close>

theorem tokenize_splits_words:
  "(plain s \<longrightarrow> tokenize s = split_words s) \<and> [] \<notin> set (tokenize s)"
  by (simp add: tokenize_def tokenize_loop_plain tokenize_nonempty [unfolded tokenize_def])

theorem tokenize_splits_words_witness: "tokenize ''roll  20 '' = [''roll'', ''20'']"
proof -
  have "plain ''roll  20 ''" by (simp add: plain_def)
  then have "tokenize ''roll  20 '' = split_words ''roll  20 ''"
    using tokenize_splits_words [of "''roll  20 ''"] by simp
  also have "\<dots> = [''roll'', ''20'']"
    by (simp add: split_words.simps isspace_def)
  finally show ?thesis .
qed

text \<open>
  C7: A registered handler is reached: after \<open>registerCommand n h\<close>, the message made of the
  prefix and the printed line of a command equal to \<open>n\<close> up to case with any non-empty
  arguments runs \<open>h\<close> once, on a context with the command as typed and these arguments. The
  call returns true if the handler returned and false if it threw, with the handler's effects
  kept.
\<close>

theorem registered_command_dispatched:
  assumes "n \<noteq> []" and "transform_tolower c = transform_tolower n" and "[] \<notin> set as"
    and "msg_text m = m_prefix P @ print_line (c # as)"
  shows "parseAndExecute invoke (registerCommand n (Some h) P) m r s =
     (case invoke h (CommandContext_new m c as r) s of
        (Inl e, s') \<Rightarrow> (Inr False, s') | (Inr _, s') \<Rightarrow> (Inr True, s'))"
proof (rule parseAndExecute_known)
  let ?Q = "registerCommand n (Some h) P"
  have c: "c \<noteq> []" using assms(1,2) by (metis transform_tolower_Nil)
  show "parseCommand ?Q (msg_text m) = (c, as)"
    using c assms(3,4) by (intro parseCommand_print_line) simp_all
  then have "parseCommand ?Q (msg_text m) \<noteq> ([], [])" using c by simp
  then show "isCommand ?Q (msg_text m)" by (auto simp: parseCommand_def split: if_splits)
  show "c \<noteq> []" by (fact c)
  show "parser_lookup ?Q c = Some h" using assms(1,2) by (simp add: parser_lookup_register)
qed

theorem registered_command_dispatched_witness:
  "parseAndExecute (\<lambda>h ctx s. (Inr (), s @ [(h, ctx_args ctx)]))
     (registerCommand ''dice'' (Some (7 :: nat)) CommandParser_new)
     \<lparr>msg_user = ''ann'', msg_text = ''!'' @ print_line [''DICE'', ''20''], msg_color = [],
      msg_badges = []\<rparr> (\<lambda>_. ret ()) []
   = (Inr True, [(7, [''20''])])"
proof -
  have "transform_tolower ''DICE'' = transform_tolower ''dice''" by code_simp
  then show ?thesis
    by (subst registered_command_dispatched)
      (simp_all add: CommandParser_new_def CommandContext_new_def)
qed

text \<open>
  C28: \<open>parseAndExecute\<close> never throws, and a message that is not a command, or names no
  registered handler, is not handled and changes nothing.
\<close>

theorem parseAndExecute_total_and_inert:
  "(\<exists>b s'. parseAndExecute invoke P m r s = (Inr b, s')) \<and>
   (\<not> isCommand P (msg_text m) \<or> parser_lookup P (fst (parseCommand P (msg_text m))) = None
      \<longrightarrow> parseAndExecute invoke P m r s = (Inr False, s))"
proof
  show "\<exists>b s'. parseAndExecute invoke P m r s = (Inr b, s')"
    unfolding parseAndExecute_def Let_def ret_def
    by (auto split: prod.splits option.splits intro!: catchA_total)
qed (auto intro: parseAndExecute_unknown)

theorem parseAndExecute_total_and_inert_witness:
  "parseAndExecute (\<lambda>(h :: nat) ctx s. (Inr (), s + h)) CommandParser_new
     \<lparr>msg_user = ''ann'', msg_text = ''hello'', msg_color = [], msg_badges = []\<rparr>
     (\<lambda>_. ret ()) 3 = (Inr False, 3)"
  using parseAndExecute_total_and_inert
    [of "\<lambda>h ctx s. (Inr (), s + h)" CommandParser_new
        "\<lparr>msg_user = ''ann'', msg_text = ''hello'', msg_color = [], msg_badges = []\<rparr>"
        "\<lambda>_. ret ()" "3 :: nat"]
  by (simp add: isCommand_def CommandParser_new_def starts_with_def)

end
