(* ===== verification/Std_Filesystem.thy ===== *)
theory Std_Filesystem
  imports Prelude
begin

text \<open>
  The parts of \<^verbatim>\<open>std::filesystem\<close> the sources use, on POSIX paths. The lexical operations on a
  path are functions on its \<^typ>\<open>string\<close>. What the operating system answers (does a file
  exist, what does a directory hold, what is the canonical form of a path) is a parameter of
  the definitions that ask, a record of functions; each answer may be an exception.
\<close>

record dir_entry =
  entry_path :: string
  entry_is_regular :: "exn + bool"

text \<open>
  A directory iteration gives entries until the end, or until it throws: the entries seen
  before that, and the exception, if any.
\<close>

record fs =
  fs_exists :: "string \<Rightarrow> exn + bool"
  fs_is_directory :: "string \<Rightarrow> exn + bool"
  fs_is_regular_file :: "string \<Rightarrow> exn + bool"
  fs_weakly_canonical :: "string \<Rightarrow> exn + string"
  fs_directory_iterator :: "string \<Rightarrow> dir_entry list \<times> exn option"

abbreviation slash :: char where
  "slash \<equiv> CHR ''/''"

definition path_filename :: "string \<Rightarrow> string" where
  "path_filename p = rev (takeWhile (\<lambda>c. c \<noteq> slash) (rev p))"

text \<open>The last dot of a file name starts its extension, unless it is the first character.\<close>

definition path_extension :: "string \<Rightarrow> string" where
  "path_extension p =
     (let f = path_filename p; e = rev (takeWhile (\<lambda>c. c \<noteq> CHR ''.'') (rev f))
      in if f = ''.'' \<or> f = ''..'' \<or> CHR ''.'' \<notin> set f \<or> length f = Suc (length e) then []
         else CHR ''.'' # e)"

definition path_stem :: "string \<Rightarrow> string" where
  "path_stem p = (let f = path_filename p in take (length f - length (path_extension p)) f)"

definition path_parent :: "string \<Rightarrow> string" where
  "path_parent p =
     (if list_all (\<lambda>c. c = slash) p then p
      else let d = rev (dropWhile (\<lambda>c. c \<noteq> slash) (rev p));
               t = rev (dropWhile (\<lambda>c. c = slash) (rev d))
           in if t = [] \<and> d \<noteq> [] then ''/'' else t)"

definition path_append :: "string \<Rightarrow> string \<Rightarrow> string" where
  "path_append p q =
     (if q \<noteq> [] \<and> hd q = slash then q
      else if path_filename p \<noteq> [] then p @ [slash] @ q
      else p @ q)"

lemma path_filename_nonempty: "d \<noteq> [] \<Longrightarrow> last d \<noteq> slash \<Longrightarrow> path_filename d \<noteq> []"
  by (cases d rule: rev_cases) (auto simp: path_filename_def)

lemma path_parent_append:
  assumes "d \<noteq> []" "last d \<noteq> slash" "slash \<notin> set n"
  shows "path_parent (path_append d n) = d"
proof -
  have "n = [] \<or> hd n \<noteq> slash" using assms(3) by (cases n) auto
  then have app: "path_append d n = d @ slash # n"
    using path_filename_nonempty [OF assms(1,2)] unfolding path_append_def by simp
  have n: "dropWhile (\<lambda>c. c \<noteq> slash) (rev (d @ slash # n)) = slash # rev d"
  proof -
    have "x \<noteq> slash" if "x \<in> set (rev n)" for x using that assms(3) by auto
    then have "dropWhile (\<lambda>c. c \<noteq> slash) (rev n @ slash # rev d) = dropWhile (\<lambda>c. c \<noteq> slash) (slash # rev d)"
      by (intro dropWhile_append2) simp
    then show ?thesis by simp
  qed
  have all: "\<not> list_all (\<lambda>c. c = slash) (d @ slash # n)"
    using last_in_set [OF assms(1)] assms(2) unfolding list_all_iff by auto
  have d: "dropWhile (\<lambda>c. c = slash) (rev d) = rev d"
    using assms(1,2) by (simp add: dropWhile_eq_self_iff hd_rev)
  show ?thesis
    unfolding app path_parent_def n Let_def if_not_P [OF all] using d assms(1) by simp
qed

end
