(* ===== verification/Miniaudio_Player.thy ===== *)
theory Miniaudio_Player
  imports Prelude Float32 Std_Filesystem
begin

text \<open>
  \<^verbatim>\<open>include/seraphbot/core/miniaudio_player.hpp\<close> and \<^verbatim>\<open>src/core/miniaudio_player.cpp\<close>: the
  audio player over one miniaudio engine.

  miniaudio is outside the sources. The player's state ends with \<open>ma_calls\<close>, the calls it has
  made to the library; what \<^verbatim>\<open>ma_engine_init\<close> and \<^verbatim>\<open>ma_engine_play_sound\<close> return is a parameter,
  a record of functions of these calls (0 is \<^verbatim>\<open>MA_SUCCESS\<close>). The pointer \<^verbatim>\<open>m_engine\<close> is the
  flag \<open>m_engine\<close>: it is not null.
\<close>

datatype ma_call =
    MaEngineInit
  | MaEngineUninit
  | MaEnginePlaySound string
  | MaEngineSetVolume float32
  | MaEngineStop

record ma_lib =
  ma_init_result :: "ma_call list \<Rightarrow> int"
  ma_play_result :: "ma_call list \<Rightarrow> string \<Rightarrow> int"

record MiniaudioPlayer =
  m_engine :: bool
  m_master_volume :: float32
  player_initialized :: bool
  ma_calls :: "ma_call list"

definition std_clamp :: "'a :: linorder \<Rightarrow> 'a \<Rightarrow> 'a \<Rightarrow> 'a" where
  "std_clamp v lo hi = (if v < lo then lo else if hi < v then hi else v)"

lemma std_clamp_bounds: "lo \<le> hi \<Longrightarrow> lo \<le> std_clamp v lo hi \<and> std_clamp v lo hi \<le> hi"
  by (auto simp: std_clamp_def)

lemma std_clamp_id: "lo \<le> v \<Longrightarrow> v \<le> hi \<Longrightarrow> std_clamp v lo hi = v"
  by (auto simp: std_clamp_def)

definition volumeToFloat :: "int \<Rightarrow> float32" where
  "volumeToFloat volume =
     (let volume = std_clamp volume 0 100 in f32_div (f32_of_int volume) 100)"

definition floatToVolume :: "float32 \<Rightarrow> int" where
  "floatToVolume volume =
     (let volume = std_clamp volume 0 1 in f32_to_int (f32_mul volume 100))"

definition MiniaudioPlayer_new :: MiniaudioPlayer where
  "MiniaudioPlayer_new = \<lparr>m_engine = False, m_master_volume = f32_round (7 / 10),
     player_initialized = False, ma_calls = []\<rparr>"

definition ma_call_do :: "ma_call \<Rightarrow> MiniaudioPlayer \<Rightarrow> MiniaudioPlayer" where
  "ma_call_do c p = p\<lparr>ma_calls := ma_calls p @ [c]\<rparr>"

definition MiniaudioPlayer_initialize :: "ma_lib \<Rightarrow> MiniaudioPlayer \<Rightarrow> bool \<times> MiniaudioPlayer" where
  "MiniaudioPlayer_initialize ma p =
     (if player_initialized p then (True, p)
      else let p1 = p\<lparr>m_engine := True\<rparr>;
               result = ma_init_result ma (ma_calls p1);
               p2 = ma_call_do MaEngineInit p1
           in if result \<noteq> 0 then (False, p2\<lparr>m_engine := False\<rparr>)
              else (True, p2\<lparr>player_initialized := True\<rparr>))"

definition MiniaudioPlayer_shutdown :: "MiniaudioPlayer \<Rightarrow> MiniaudioPlayer" where
  "MiniaudioPlayer_shutdown p =
     (if \<not> player_initialized p then p
      else let p1 = (if m_engine p then (ma_call_do MaEngineUninit p)\<lparr>m_engine := False\<rparr> else p)
           in p1\<lparr>player_initialized := False\<rparr>)"

definition MiniaudioPlayer_isInitialized :: "MiniaudioPlayer \<Rightarrow> bool" where
  "MiniaudioPlayer_isInitialized p = player_initialized p"

definition MiniaudioPlayer_playSound ::
    "ma_lib \<Rightarrow> fs \<Rightarrow> string \<Rightarrow> int \<Rightarrow> (MiniaudioPlayer, bool) act" where
  "MiniaudioPlayer_playSound ma F filepath volume =
     (\<lambda>p. if \<not> player_initialized p \<or> \<not> m_engine p then (Inr False, p)
          else case fs_exists F filepath of
                 Inl e \<Rightarrow> (Inl e, p)
               | Inr False \<Rightarrow> (Inr False, p)
               | Inr True \<Rightarrow>
                   let volume = std_clamp volume 0 100;
                       vol = f32_mul (volumeToFloat volume) (m_master_volume p);
                       result = ma_play_result ma (ma_calls p) filepath;
                       p1 = ma_call_do (MaEnginePlaySound filepath) p
                   in if result \<noteq> 0 then (Inr False, p1)
                      else (Inr True, ma_call_do (MaEngineSetVolume vol) p1))"

definition MiniaudioPlayer_setMasterVolume :: "int \<Rightarrow> MiniaudioPlayer \<Rightarrow> MiniaudioPlayer" where
  "MiniaudioPlayer_setMasterVolume volume p =
     (let volume = std_clamp volume 0 100;
          p1 = p\<lparr>m_master_volume := volumeToFloat volume\<rparr>
      in if m_engine p1 then ma_call_do (MaEngineSetVolume (m_master_volume p1)) p1 else p1)"

definition MiniaudioPlayer_getMasterVolume :: "MiniaudioPlayer \<Rightarrow> int" where
  "MiniaudioPlayer_getMasterVolume p = floatToVolume (m_master_volume p)"

definition MiniaudioPlayer_stopAll :: "MiniaudioPlayer \<Rightarrow> MiniaudioPlayer" where
  "MiniaudioPlayer_stopAll p =
     (if \<not> player_initialized p \<or> \<not> m_engine p then p else ma_call_do MaEngineStop p)"

definition MiniaudioPlayer_dtor :: "MiniaudioPlayer \<Rightarrow> MiniaudioPlayer" where
  "MiniaudioPlayer_dtor p = MiniaudioPlayer_shutdown p"

section \<open>Volumes\<close>

lemma volumeToFloat_eq:
  "volumeToFloat v = f32_round (of_int (std_clamp v 0 100) / of_int 100)"
proof -
  have "0 \<le> std_clamp v 0 100 \<and> std_clamp v 0 100 \<le> 100" by (rule std_clamp_bounds) simp
  then have "f32_of_int (std_clamp v 0 100) = of_int (std_clamp v 0 100)"
    by (intro f32_of_int_exact) auto
  then show ?thesis by (simp add: volumeToFloat_def f32_div_def)
qed

lemma volumeToFloat_unit: "0 \<le> volumeToFloat v \<and> volumeToFloat v \<le> 1"
proof -
  have "0 \<le> std_clamp v 0 100 \<and> std_clamp v 0 100 \<le> 100" by (rule std_clamp_bounds) simp
  then show ?thesis unfolding volumeToFloat_eq by (intro f32_round_unit) simp_all
qed

lemma volumeToFloat_clamp [simp]: "volumeToFloat (std_clamp v 0 100) = volumeToFloat v"
  by (simp add: volumeToFloat_def std_clamp_def)

text \<open>
  One volume there and back, in integers: \<open>m / 2 ^ k\<close> is the float of \<open>v / 100\<close>, and
  \<open>2 ^ j\<close> scales its product with 100 to 24 bits. The table lists \<open>(v, k, m, j)\<close> for every
  volume.
\<close>

definition volume_trip :: "int \<Rightarrow> nat \<Rightarrow> int \<Rightarrow> nat \<Rightarrow> int \<Rightarrow> bool" where
  "volume_trip v k m j r \<longleftrightarrow>
     2 ^ 23 * 100 \<le> v * 2 ^ k \<and> v * 2 ^ k < 2 ^ 24 * 100 \<and> m = round_frac (v * 2 ^ k) 100 \<and>
     0 \<le> m \<and> m \<le> 2 ^ k \<and>
     2 ^ 23 * 2 ^ k \<le> m * 100 * 2 ^ j \<and> m * 100 * 2 ^ j < 2 ^ 24 * 2 ^ k \<and>
     round_frac (m * 100 * 2 ^ j) (2 ^ k) div 2 ^ j = r"

definition volume_table :: "(int \<times> nat \<times> int \<times> nat) list" where
  "volume_table =
    [(1, 30, 10737418, 24), (2, 29, 10737418, 23), (3, 29, 16106127, 22), (4, 28, 10737418, 22),
     (5, 28, 13421773, 21), (6, 28, 16106127, 21), (7, 27, 9395241, 21), (8, 27, 10737418, 21),
     (9, 27, 12079596, 20), (10, 27, 13421773, 20), (11, 27, 14763950, 20), (12, 27, 16106127, 20),
     (13, 26, 8724152, 20), (14, 26, 9395241, 20), (15, 26, 10066330, 20), (16, 26, 10737418, 20),
     (17, 26, 11408507, 19), (18, 26, 12079596, 19), (19, 26, 12750684, 19), (20, 26, 13421773, 19),
     (21, 26, 14092861, 19), (22, 26, 14763950, 19), (23, 26, 15435039, 19), (24, 26, 16106127, 19),
     (25, 25, 8388608, 19), (26, 25, 8724152, 19), (27, 25, 9059697, 19), (28, 25, 9395241, 19),
     (29, 25, 9730785, 19), (30, 25, 10066330, 19), (31, 25, 10401874, 19), (32, 25, 10737418, 19),
     (33, 25, 11072963, 18), (34, 25, 11408507, 18), (35, 25, 11744051, 18), (36, 25, 12079596, 18),
     (37, 25, 12415140, 18), (38, 25, 12750684, 18), (39, 25, 13086228, 18), (40, 25, 13421773, 18),
     (41, 25, 13757317, 18), (42, 25, 14092861, 18), (43, 25, 14428406, 18), (44, 25, 14763950, 18),
     (45, 25, 15099494, 18), (46, 25, 15435039, 18), (47, 25, 15770583, 18), (48, 25, 16106127, 18),
     (49, 25, 16441672, 18), (50, 24, 8388608, 18), (51, 24, 8556380, 18), (52, 24, 8724152, 18),
     (53, 24, 8891924, 18), (54, 24, 9059697, 18), (55, 24, 9227469, 18), (56, 24, 9395241, 18),
     (57, 24, 9563013, 18), (58, 24, 9730785, 18), (59, 24, 9898557, 18), (60, 24, 10066330, 18),
     (61, 24, 10234102, 18), (62, 24, 10401874, 18), (63, 24, 10569646, 18), (64, 24, 10737418, 18),
     (65, 24, 10905190, 17), (66, 24, 11072963, 17), (67, 24, 11240735, 17), (68, 24, 11408507, 17),
     (69, 24, 11576279, 17), (70, 24, 11744051, 17), (71, 24, 11911823, 17), (72, 24, 12079596, 17),
     (73, 24, 12247368, 17), (74, 24, 12415140, 17), (75, 24, 12582912, 17), (76, 24, 12750684, 17),
     (77, 24, 12918456, 17), (78, 24, 13086228, 17), (79, 24, 13254001, 17), (80, 24, 13421773, 17),
     (81, 24, 13589545, 17), (82, 24, 13757317, 17), (83, 24, 13925089, 17), (84, 24, 14092861, 17),
     (85, 24, 14260634, 17), (86, 24, 14428406, 17), (87, 24, 14596178, 17), (88, 24, 14763950, 17),
     (89, 24, 14931722, 17), (90, 24, 15099494, 17), (91, 24, 15267267, 17), (92, 24, 15435039, 17),
     (93, 24, 15602811, 17), (94, 24, 15770583, 17), (95, 24, 15938355, 17), (96, 24, 16106127, 17),
     (97, 24, 16273900, 17), (98, 24, 16441672, 17), (99, 24, 16609444, 17), (100, 23, 8388608, 17)]"

lemma volume_trip_sound:
  assumes "0 \<le> v" and "v \<le> 100" and "volume_trip v k m j r"
  shows "floatToVolume (volumeToFloat v) = r"
proof -
  define n where "n = round_frac (m * 100 * 2 ^ j) (2 ^ k)"
  have h: "2 ^ 23 * 100 \<le> v * 2 ^ k" "v * 2 ^ k < 2 ^ 24 * 100" "0 \<le> m" "m \<le> 2 ^ k"
      "2 ^ 23 * 2 ^ k \<le> m * 100 * 2 ^ j" "m * 100 * 2 ^ j < 2 ^ 24 * 2 ^ k" "n div 2 ^ j = r"
    and m: "m = round_frac (v * 2 ^ k) 100"
    using assms(3) unfolding volume_trip_def n_def by blast+
  have "volumeToFloat v = f32_round (of_int v / of_int 100)"
    using assms(1,2) by (simp only: volumeToFloat_eq std_clamp_id)
  also have "\<dots> = of_int m / 2 ^ k"
    using f32_round_frac [OF _ h(1,2)] by (simp add: m)
  finally have x: "volumeToFloat v = of_int m / 2 ^ k" .
  have "of_int m \<le> (of_int (2 ^ k) :: rat)" using h(4) by (simp only: of_int_le_iff)
  then have c: "std_clamp (of_int m / 2 ^ k :: rat) 0 1 = of_int m / 2 ^ k"
    using h(3) by (intro std_clamp_id) (simp_all add: field_simps)
  have "f32_mul (of_int m / 2 ^ k) 100 = f32_round (of_int (m * 100) / of_int (2 ^ k))"
    by (simp add: f32_mul_def)
  also have "\<dots> = of_int n / 2 ^ j"
    using f32_round_frac [OF _ h(5,6)] by (simp add: n_def)
  finally have y: "f32_mul (of_int m / 2 ^ k) 100 = of_int n / 2 ^ j" .
  have "0 \<le> n" using h(3) by (simp add: n_def round_frac_def Let_def pos_imp_zdiv_nonneg_iff)
  moreover have "\<lfloor>of_int n / (2 ^ j :: rat)\<rfloor> = n div 2 ^ j"
    using floor_divide_of_int_eq [of n "2 ^ j", where 'a = rat] by simp
  ultimately show ?thesis
    using h(7) by (simp add: floatToVolume_def Let_def x c y f32_to_int_def)
qed

lemma volume_table_ok:
  "list_all (\<lambda>(v, k, m, j). volume_trip v k m j (if v = 53 \<or> v = 59 then v - 1 else v)) volume_table"
  unfolding volume_table_def list.pred_inject prod.case
  by (intro conjI TrueI; simp add: volume_trip_def round_frac_def)

lemma volume_table_all: "map fst volume_table = [1..100]"
  by (simp add: volume_table_def upto.simps)

lemma volume_roundtrip:
  assumes "0 \<le> v" and "v \<le> 100"
  shows "floatToVolume (volumeToFloat v) = (if v = 53 \<or> v = 59 then v - 1 else v)"
proof (cases "v = 0")
  case True
  have "volumeToFloat 0 = 0" by (simp add: volumeToFloat_eq std_clamp_def f32_round_def)
  with True show ?thesis
    by (simp add: floatToVolume_def std_clamp_def f32_mul_def f32_round_def f32_to_int_def)
next
  case False
  with assms have "v \<in> set (map fst volume_table)" by (simp add: volume_table_all)
  then obtain k m j where "(v, k, m, j) \<in> set volume_table" by auto
  with volume_table_ok have "volume_trip v k m j (if v = 53 \<or> v = 59 then v - 1 else v)"
    by (auto simp: list_all_iff)
  with assms show ?thesis by (rule volume_trip_sound)
qed

section \<open>The life cycle of the engine\<close>

text \<open>
  Whether the engine is live after a sequence of calls, given that it was \<open>live\<close> before them
  and \<open>pre\<close> are the calls made so far; \<open>None\<close> if a call is made that the library does not
  allow: any but \<^verbatim>\<open>ma_engine_init\<close> without a live engine, \<^verbatim>\<open>ma_engine_init\<close> on a live one, or a
  volume outside \<open>0..1\<close>.
\<close>

fun engine_after :: "ma_lib \<Rightarrow> ma_call list \<Rightarrow> ma_call list \<Rightarrow> bool \<Rightarrow> bool option" where
  "engine_after ma pre [] live = Some live"
| "engine_after ma pre (MaEngineInit # cs) live =
     (if live then None else engine_after ma (pre @ [MaEngineInit]) cs (ma_init_result ma pre = 0))"
| "engine_after ma pre (MaEngineUninit # cs) live =
     (if live then engine_after ma (pre @ [MaEngineUninit]) cs False else None)"
| "engine_after ma pre (MaEnginePlaySound f # cs) live =
     (if live then engine_after ma (pre @ [MaEnginePlaySound f]) cs True else None)"
| "engine_after ma pre (MaEngineSetVolume v # cs) live =
     (if live \<and> 0 \<le> v \<and> v \<le> 1 then engine_after ma (pre @ [MaEngineSetVolume v]) cs True else None)"
| "engine_after ma pre (MaEngineStop # cs) live =
     (if live then engine_after ma (pre @ [MaEngineStop]) cs True else None)"

lemma engine_after_append:
  "engine_after ma pre (cs @ ds) live =
     Option.bind (engine_after ma pre cs live) (engine_after ma (pre @ cs) ds)"
  by (induction ma pre cs live rule: engine_after.induct) simp_all

definition player_inv :: "ma_lib \<Rightarrow> MiniaudioPlayer \<Rightarrow> bool" where
  "player_inv ma p \<longleftrightarrow>
     player_initialized p = m_engine p \<and> 0 \<le> m_master_volume p \<and> m_master_volume p \<le> 1 \<and>
     engine_after ma [] (ma_calls p) False = Some (m_engine p)"

lemmas player_inv_simps =
  player_inv_def ma_call_do_def engine_after_append Let_def

lemma player_inv_new: "player_inv ma MiniaudioPlayer_new"
  using f32_round_unit [of "7 / 10"] by (simp add: player_inv_def MiniaudioPlayer_new_def)

lemma player_inv_initialize:
  "player_inv ma p \<Longrightarrow> player_inv ma (snd (MiniaudioPlayer_initialize ma p))"
  by (auto simp: MiniaudioPlayer_initialize_def player_inv_simps)

lemma player_inv_shutdown: "player_inv ma p \<Longrightarrow> player_inv ma (MiniaudioPlayer_shutdown p)"
  by (auto simp: MiniaudioPlayer_shutdown_def player_inv_simps)

lemma f32_mul_unit:
  assumes "0 \<le> x \<and> x \<le> 1" and "0 \<le> y \<and> y \<le> 1"
  shows "0 \<le> f32_mul x y \<and> f32_mul x y \<le> 1"
  using assms unfolding f32_mul_def by (intro f32_round_unit) (auto intro: mult_le_one)

lemma player_inv_playSound:
  assumes "player_inv ma p"
  shows "player_inv ma (snd (MiniaudioPlayer_playSound ma F f v p))"
proof -
  have "0 \<le> f32_mul (volumeToFloat v) (m_master_volume p) \<and>
        f32_mul (volumeToFloat v) (m_master_volume p) \<le> 1"
    using assms volumeToFloat_unit by (intro f32_mul_unit) (simp_all add: player_inv_def)
  with assms show ?thesis
    by (auto simp: MiniaudioPlayer_playSound_def player_inv_simps split: sum.splits bool.splits)
qed

lemma player_inv_setMasterVolume:
  "player_inv ma p \<Longrightarrow> player_inv ma (MiniaudioPlayer_setMasterVolume v p)"
  using volumeToFloat_unit [of v]
  by (auto simp: MiniaudioPlayer_setMasterVolume_def player_inv_simps)

lemma player_inv_stopAll: "player_inv ma p \<Longrightarrow> player_inv ma (MiniaudioPlayer_stopAll p)"
  by (auto simp: MiniaudioPlayer_stopAll_def player_inv_simps)

lemmas player_inv_intros =
  player_inv_new player_inv_initialize player_inv_shutdown player_inv_playSound
  player_inv_setMasterVolume player_inv_stopAll

section \<open>The contract of an audio backend\<close>

text \<open>
  What the audio system relies on: the operations keep the backend's invariant, and the only
  sounds started are the ones asked for.
\<close>

datatype audio_op = OpPlay string int | OpSetMaster int | OpStop

fun audio_run ::
    "(string \<Rightarrow> int \<Rightarrow> ('p, bool) act) \<Rightarrow> (int \<Rightarrow> 'p \<Rightarrow> 'p) \<Rightarrow> ('p \<Rightarrow> 'p) \<Rightarrow> audio_op list \<Rightarrow> 'p \<Rightarrow> 'p"
where
  "audio_run play set_master stop [] p = p"
| "audio_run play set_master stop (OpPlay f v # ops) p =
     audio_run play set_master stop ops (snd (play f v p))"
| "audio_run play set_master stop (OpSetMaster v # ops) p =
     audio_run play set_master stop ops (set_master v p)"
| "audio_run play set_master stop (OpStop # ops) p = audio_run play set_master stop ops (stop p)"

fun started :: "ma_call list \<Rightarrow> string list" where
  "started [] = []"
| "started (MaEnginePlaySound f # cs) = f # started cs"
| "started (_ # cs) = started cs"

lemma started_append [simp]: "started (cs @ ds) = started cs @ started ds"
  by (induction cs rule: started.induct) simp_all

locale audio_backend =
  fixes ok :: "'p \<Rightarrow> bool"
    and calls :: "'p \<Rightarrow> ma_call list"
    and play :: "string \<Rightarrow> int \<Rightarrow> ('p, bool) act"
    and set_master :: "int \<Rightarrow> 'p \<Rightarrow> 'p"
    and stop :: "'p \<Rightarrow> 'p"
  assumes ok_play: "ok p \<Longrightarrow> ok (snd (play f v p))"
    and ok_set_master: "ok p \<Longrightarrow> ok (set_master v p)"
    and ok_stop: "ok p \<Longrightarrow> ok (stop p)"
    and started_play: "set (started (calls (snd (play f v p)))) \<subseteq> insert f (set (started (calls p)))"
    and started_set_master: "started (calls (set_master v p)) = started (calls p)"
    and started_stop: "started (calls (stop p)) = started (calls p)"
begin

lemma run_ok: "ok p \<Longrightarrow> ok (audio_run play set_master stop ops p)"
proof (induction ops arbitrary: p)
  case Nil
  then show ?case by simp
next
  case (Cons x ops)
  then show ?case by (cases x) (simp_all add: ok_play ok_set_master ok_stop)
qed

lemma run_started:
  "set (started (calls (audio_run play set_master stop ops p)))
     \<subseteq> {f. \<exists>v. OpPlay f v \<in> set ops} \<union> set (started (calls p))"
proof (induction ops arbitrary: p)
  case Nil
  then show ?case by simp
next
  case (Cons x ops)
  show ?case
  proof (cases x)
    case (OpPlay f v)
    with Cons [of "snd (play f v p)"] started_play [of f v p] show ?thesis by auto
  next
    case (OpSetMaster v)
    with Cons [of "set_master v p"] show ?thesis by (auto simp: started_set_master)
  next
    case OpStop
    with Cons [of "stop p"] show ?thesis by (auto simp: started_stop)
  qed
qed

end

lemma started_MiniaudioPlayer:
  "set (started (ma_calls (snd (MiniaudioPlayer_playSound ma F f v p))))
     \<subseteq> insert f (set (started (ma_calls p)))"
  "started (ma_calls (MiniaudioPlayer_setMasterVolume v p)) = started (ma_calls p)"
  "started (ma_calls (MiniaudioPlayer_stopAll p)) = started (ma_calls p)"
  by (auto simp: MiniaudioPlayer_playSound_def MiniaudioPlayer_setMasterVolume_def
      MiniaudioPlayer_stopAll_def ma_call_do_def Let_def split: sum.splits bool.splits)

interpretation miniaudio: audio_backend
  "player_inv ma" ma_calls "MiniaudioPlayer_playSound ma F"
  MiniaudioPlayer_setMasterVolume MiniaudioPlayer_stopAll
  for ma F
  by unfold_locales (simp_all add: player_inv_intros started_MiniaudioPlayer)

section \<open>Properties\<close>

text \<open>
  C36: The master volume that is read back is the one that was set, clamped to 0..100, except
  that 53 and 59 come back as 52 and 58: the product with \<^verbatim>\<open>100.0F\<close> rounds below the integer and
  the conversion to \<^verbatim>\<open>int\<close> drops the fraction.
\<close>

theorem master_volume_roundtrip:
  "MiniaudioPlayer_getMasterVolume (MiniaudioPlayer_setMasterVolume v p) =
     (let c = std_clamp v 0 100 in if c = 53 \<or> c = 59 then c - 1 else c)"
proof -
  have c: "0 \<le> std_clamp v 0 100 \<and> std_clamp v 0 100 \<le> 100" by (rule std_clamp_bounds) simp
  have "MiniaudioPlayer_getMasterVolume (MiniaudioPlayer_setMasterVolume v p) =
      floatToVolume (volumeToFloat (std_clamp v 0 100))"
    by (simp add: MiniaudioPlayer_getMasterVolume_def MiniaudioPlayer_setMasterVolume_def
        ma_call_do_def Let_def)
  with c volume_roundtrip show ?thesis by (simp add: Let_def del: volumeToFloat_clamp)
qed

text \<open>
  C31: Whatever sequence of operations follows construction and \<open>initialize\<close>, and the
  destructor at the end, the player calls miniaudio only on a live engine, gives it volumes
  between 0 and 1 only, and has no live engine left after destruction.
\<close>

theorem player_engine_lifecycle:
  "engine_after ma []
     (ma_calls (MiniaudioPlayer_dtor
        (audio_run (MiniaudioPlayer_playSound ma F) MiniaudioPlayer_setMasterVolume
           MiniaudioPlayer_stopAll ops (snd (MiniaudioPlayer_initialize ma MiniaudioPlayer_new)))))
     False = Some False"
proof -
  let ?p = "audio_run (MiniaudioPlayer_playSound ma F) MiniaudioPlayer_setMasterVolume
      MiniaudioPlayer_stopAll ops (snd (MiniaudioPlayer_initialize ma MiniaudioPlayer_new))"
  have "player_inv ma (MiniaudioPlayer_shutdown ?p)"
    by (intro player_inv_intros miniaudio.run_ok)
  moreover have "\<not> player_initialized (MiniaudioPlayer_shutdown ?p)"
    by (simp add: MiniaudioPlayer_shutdown_def Let_def)
  ultimately show ?thesis by (simp add: player_inv_def MiniaudioPlayer_dtor_def)
qed

end
