(* ===== verification/Audio_System.thy ===== *)
theory Audio_System
  imports Miniaudio_Player "HOL-Library.Char_ord" "HOL-Library.List_Lexorder"
    "HOL-Library.Multiset"
begin

text \<open>
  \<^verbatim>\<open>include/seraphbot/core/audio_system.hpp\<close> and \<^verbatim>\<open>src/core/audio_system.cpp\<close>: the whitelist of
  directories that sounds may come from, and the audio system that Lua commands use.

  The hash set of whitelisted paths is the list of its elements without repetition; the order in
  which it is iterated is a parameter where it matters. \<^verbatim>\<open>std::sort\<close> on strings orders by bytes,
  which is the order of \<^typ>\<open>string\<close> from the library's lexicographic order.
\<close>

section \<open>The directory whitelist\<close>

record DirectoryWhitelist =
  m_whitelisted_paths :: "string list"

definition normalizePath :: "string \<Rightarrow> string" where
  "normalizePath path =
     (let result = map (\<lambda>c. if c = CHR 0x5C then slash else c) path
      in if result \<noteq> [] \<and> last result \<noteq> slash then result @ [slash] else result)"

definition addWhitelistedDirectory :: "fs \<Rightarrow> string \<Rightarrow> DirectoryWhitelist \<Rightarrow> DirectoryWhitelist" where
  "addWhitelistedDirectory F directory W =
     (case fs_weakly_canonical F directory of
        Inl err \<Rightarrow> W
      | Inr canonical \<Rightarrow>
          let normalized = normalizePath canonical
          in W\<lparr>m_whitelisted_paths := List.insert normalized (m_whitelisted_paths W)\<rparr>)"

definition DirectoryWhitelist_empty :: DirectoryWhitelist where
  "DirectoryWhitelist_empty = \<lparr>m_whitelisted_paths = []\<rparr>"

definition default_directories :: "string list" where
  "default_directories = [''./sounds'', ''./audio'', ''./sfx'']"

definition DirectoryWhitelist_new :: "fs \<Rightarrow> DirectoryWhitelist" where
  "DirectoryWhitelist_new F = fold (addWhitelistedDirectory F) default_directories DirectoryWhitelist_empty"

definition isPathAllowed :: "fs \<Rightarrow> string \<Rightarrow> DirectoryWhitelist \<Rightarrow> bool" where
  "isPathAllowed F path W =
     (case fs_weakly_canonical F path of
        Inl err \<Rightarrow> False
      | Inr canonical \<Rightarrow>
          let normalized = normalizePath canonical
          in list_ex (\<lambda>whitelisted. starts_with normalized whitelisted) (m_whitelisted_paths W))"

definition getWhitelistedDirectories ::
    "(string list \<Rightarrow> string list) \<Rightarrow> DirectoryWhitelist \<Rightarrow> string list" where
  "getWhitelistedDirectories hash_order W = hash_order (m_whitelisted_paths W)"

section \<open>The audio system\<close>

record AudioSystem =
  m_whitelist :: DirectoryWhitelist
  m_player :: "MiniaudioPlayer option"

definition AudioSystem_new :: "ma_lib \<Rightarrow> fs \<Rightarrow> AudioSystem" where
  "AudioSystem_new ma F =
     \<lparr>m_whitelist = DirectoryWhitelist_new F,
      m_player = Some (snd (MiniaudioPlayer_initialize ma MiniaudioPlayer_new))\<rparr>"

definition getSupportedExtensions :: "string list" where
  "getSupportedExtensions = [''.mp3'', ''.wav'', ''.flac'', ''.ogg'']"

definition isSupportedAudioFile :: "string \<Rightarrow> bool" where
  "isSupportedAudioFile path =
     (let extension = transform_tolower (path_extension path)
      in List.member getSupportedExtensions extension)"

text \<open>
  The directory loop with the list it fills. It ends at the last entry, or with the exception
  that the iteration or an entry's \<^verbatim>\<open>is_regular_file\<close> throws; the list so far is kept.
\<close>

fun list_loop :: "dir_entry list \<Rightarrow> exn option \<Rightarrow> string list \<Rightarrow> exn option \<times> string list" where
  "list_loop [] err audio_files = (err, audio_files)"
| "list_loop (entry # entries) err audio_files =
     (case entry_is_regular entry of
        Inl e \<Rightarrow> (Some e, audio_files)
      | Inr regular \<Rightarrow>
          list_loop entries err
            (if regular \<and> isSupportedAudioFile (entry_path entry)
             then audio_files @ [path_stem (entry_path entry)] else audio_files))"

definition listAudioFiles :: "fs \<Rightarrow> string \<Rightarrow> AudioSystem \<Rightarrow> exn + string list" where
  "listAudioFiles F directory A =
     (if \<not> isPathAllowed F directory (m_whitelist A) then Inr []
      else bindE (fs_exists F directory) (\<lambda>exists.
        if \<not> exists then Inr []
        else bindE (fs_is_directory F directory) (\<lambda>is_dir.
          if \<not> is_dir then Inr []
          else let (entries, err) = fs_directory_iterator F directory
               in case list_loop entries err [] of
                    (None, audio_files) \<Rightarrow> Inr (sort audio_files)
                  | (Some e, audio_files) \<Rightarrow> Inr audio_files)))"

text \<open>The loop over the extensions; an exception of the file system leaves it.\<close>

fun find_loop :: "fs \<Rightarrow> string \<Rightarrow> string \<Rightarrow> string list \<Rightarrow> string list \<Rightarrow> exn + string list" where
  "find_loop F name directory [] found_files = Inr found_files"
| "find_loop F name directory (ext # exts) found_files =
     (let candidate = path_append directory (name @ ext)
      in bindE (fs_exists F candidate) (\<lambda>exists.
           if \<not> exists then find_loop F name directory exts found_files
           else bindE (fs_is_regular_file F candidate) (\<lambda>regular.
             find_loop F name directory exts
               (if regular then found_files @ [candidate] else found_files))))"

definition findAudioFile :: "fs \<Rightarrow> string \<Rightarrow> string \<Rightarrow> AudioSystem \<Rightarrow> exn + string" where
  "findAudioFile F name directory A =
     (if \<not> isPathAllowed F directory (m_whitelist A) then Inr []
      else bindE (fs_exists F directory) (\<lambda>exists.
        if \<not> exists then Inr []
        else case find_loop F name directory getSupportedExtensions [] of
               Inl err \<Rightarrow> Inr []
             | Inr [] \<Rightarrow> Inr []
             | Inr (f # fs) \<Rightarrow> Inr f))"

definition AudioSystem_playSound ::
    "ma_lib \<Rightarrow> fs \<Rightarrow> string \<Rightarrow> int \<Rightarrow> (AudioSystem, bool) act" where
  "AudioSystem_playSound ma F filepath volume =
     (\<lambda>A. case fs_exists F filepath of
            Inl e \<Rightarrow> (Inl e, A)
          | Inr False \<Rightarrow> (Inr False, A)
          | Inr True \<Rightarrow>
              if \<not> isPathAllowed F (path_parent filepath) (m_whitelist A) then (Inr False, A)
              else let volume = std_clamp volume 0 100
                   in case m_player A of
                        None \<Rightarrow> (Inr False, A)
                      | Some p \<Rightarrow>
                          if \<not> MiniaudioPlayer_isInitialized p then (Inr False, A)
                          else let (r, p') = MiniaudioPlayer_playSound ma F filepath volume p
                               in (r, A\<lparr>m_player := Some p'\<rparr>))"

definition AudioSystem_setMasterVolume :: "int \<Rightarrow> AudioSystem \<Rightarrow> AudioSystem" where
  "AudioSystem_setMasterVolume volume A =
     (case m_player A of
        None \<Rightarrow> A
      | Some p \<Rightarrow> if MiniaudioPlayer_isInitialized p
                  then A\<lparr>m_player := Some (MiniaudioPlayer_setMasterVolume volume p)\<rparr> else A)"

definition AudioSystem_getMasterVolume :: "AudioSystem \<Rightarrow> int" where
  "AudioSystem_getMasterVolume A =
     (case m_player A of
        None \<Rightarrow> 70
      | Some p \<Rightarrow> if MiniaudioPlayer_isInitialized p then MiniaudioPlayer_getMasterVolume p else 70)"

definition AudioSystem_stopAllSounds :: "AudioSystem \<Rightarrow> AudioSystem" where
  "AudioSystem_stopAllSounds A =
     (case m_player A of
        None \<Rightarrow> A
      | Some p \<Rightarrow> if MiniaudioPlayer_isInitialized p
                  then A\<lparr>m_player := Some (MiniaudioPlayer_stopAll p)\<rparr> else A)"

text \<open>The destructor logs; then the members are destroyed, the player with its engine.\<close>

definition AudioSystem_dtor :: "AudioSystem \<Rightarrow> MiniaudioPlayer option" where
  "AudioSystem_dtor A = map_option MiniaudioPlayer_dtor (m_player A)"

section \<open>The contract of the whitelist\<close>

definition below :: "fs \<Rightarrow> string \<Rightarrow> string \<Rightarrow> bool" where
  "below F d p =
     (case (fs_weakly_canonical F d, fs_weakly_canonical F p) of
        (Inr cd, Inr cp) \<Rightarrow> starts_with (normalizePath cp) (normalizePath cd)
      | _ \<Rightarrow> False)"

locale directory_sandbox =
  fixes allowed :: "string \<Rightarrow> 'w \<Rightarrow> bool"
    and add :: "string \<Rightarrow> 'w \<Rightarrow> 'w"
    and inside :: "string \<Rightarrow> string \<Rightarrow> bool"
    and none :: 'w
  assumes allowed_none: "\<not> allowed p none"
    and allowed_add: "allowed p (add d w) \<longleftrightarrow> allowed p w \<or> inside d p"
begin

lemma allowed_fold: "allowed p (fold add ds w) \<longleftrightarrow> allowed p w \<or> (\<exists>d \<in> set ds. inside d p)"
  by (induction ds arbitrary: w) (auto simp: allowed_add)

lemma allowed_only_added: "allowed p (fold add ds none) \<longleftrightarrow> (\<exists>d \<in> set ds. inside d p)"
  by (simp add: allowed_fold allowed_none)

end

interpretation whitelist: directory_sandbox
  "isPathAllowed F" "addWhitelistedDirectory F" "below F" DirectoryWhitelist_empty
  for F
  by unfold_locales
    (auto simp: isPathAllowed_def addWhitelistedDirectory_def below_def DirectoryWhitelist_empty_def
      Let_def list_ex_iff split: sum.splits)

text \<open>
  Canonical absolute paths as lists of components, none of them empty or with a slash or
  backslash. On these, the comparison of the normalized strings is containment of directories.
\<close>

definition comps_ok :: "string list \<Rightarrow> bool" where
  "comps_ok cs \<longleftrightarrow> (\<forall>c \<in> set cs. c \<noteq> [] \<and> slash \<notin> set c \<and> CHR 0x5C \<notin> set c)"

definition canon_path :: "string list \<Rightarrow> string" where
  "canon_path cs = (if cs = [] then [slash] else concat (map (\<lambda>c. slash # c) cs))"

lemma comps_ok_Cons [simp]:
  "comps_ok (c # cs) \<longleftrightarrow> c \<noteq> [] \<and> slash \<notin> set c \<and> CHR 0x5C \<notin> set c \<and> comps_ok cs"
  by (auto simp: comps_ok_def)

lemma comps_ok_Nil [simp]: "comps_ok []"
  by (simp add: comps_ok_def)

lemma map_no_backslash: "CHR 0x5C \<notin> set s \<Longrightarrow> map (\<lambda>c. if c = CHR 0x5C then slash else c) s = s"
  by (induction s) auto

lemma canon_path_snoc:
  "concat (map (\<lambda>c. slash # c) cs) @ [slash] = slash # concat (map (\<lambda>c. c @ [slash]) cs)"
  by (induction cs) auto

lemma normalizePath_canon:
  assumes "comps_ok cs"
  shows "normalizePath (canon_path cs) = slash # concat (map (\<lambda>c. c @ [slash]) cs)"
proof (cases "cs = []")
  case True
  then show ?thesis by (simp add: normalizePath_def canon_path_def)
next
  case False
  let ?s = "concat (map (\<lambda>c. slash # c) cs)"
  have bs: "CHR 0x5C \<notin> set ?s" using assms by (auto simp: comps_ok_def)
  have "last cs \<in> set cs" using False by simp
  then have l: "last cs \<noteq> []" "slash \<notin> set (last cs)" using assms by (auto simp: comps_ok_def)
  have "?s = concat (map (\<lambda>c. slash # c) (butlast cs)) @ slash # last cs"
    using append_butlast_last_id [OF False] by (metis concat.simps concat_append list.simps(8,9) map_append self_append_conv)
  then have "last ?s = last (last cs)" using l(1) by simp
  then have "last ?s \<noteq> slash" using l by (metis last_in_set)
  then show ?thesis
    using False by (simp add: normalizePath_def canon_path_def map_no_backslash [OF bs] canon_path_snoc)
qed

lemma prefix_component:
  "slash \<notin> set d \<Longrightarrow> slash \<notin> set c \<Longrightarrow>
   prefix (d @ slash # x) (c @ slash # y) \<longleftrightarrow> d = c \<and> prefix x y"
proof (induction d arbitrary: c)
  case Nil
  then show ?case by (cases c) auto
next
  case (Cons a d)
  then show ?case by (cases c) auto
qed

lemma prefix_components:
  "comps_ok cs \<Longrightarrow> comps_ok ds \<Longrightarrow>
   prefix (concat (map (\<lambda>c. c @ [slash]) ds)) (concat (map (\<lambda>c. c @ [slash]) cs)) \<longleftrightarrow> prefix ds cs"
proof (induction ds arbitrary: cs)
  case Nil
  then show ?case by simp
next
  case (Cons d ds)
  then show ?case by (cases cs) (simp_all add: prefix_component)
qed

lemma below_canon:
  assumes "fs_weakly_canonical F d = Inr (canon_path ds)" "comps_ok ds"
    and "fs_weakly_canonical F p = Inr (canon_path cs)" "comps_ok cs"
  shows "below F d p \<longleftrightarrow> prefix ds cs"
  using assms by (simp add: below_def starts_with_prefix normalizePath_canon prefix_components)

section \<open>Sounds played through the audio system\<close>

definition AudioSystem_run :: "ma_lib \<Rightarrow> fs \<Rightarrow> audio_op list \<Rightarrow> AudioSystem \<Rightarrow> AudioSystem" where
  "AudioSystem_run ma F =
     audio_run (AudioSystem_playSound ma F) AudioSystem_setMasterVolume AudioSystem_stopAllSounds"

text \<open>The operations that pass the audio system's own guards reach the player, in order.\<close>

definition playable :: "fs \<Rightarrow> DirectoryWhitelist \<Rightarrow> string \<Rightarrow> bool" where
  "playable F W f \<longleftrightarrow> fs_exists F f = Inr True \<and> isPathAllowed F (path_parent f) W"

fun forwarded :: "fs \<Rightarrow> DirectoryWhitelist \<Rightarrow> audio_op \<Rightarrow> audio_op list" where
  "forwarded F W (OpPlay f v) = (if playable F W f then [OpPlay f (std_clamp v 0 100)] else [])"
| "forwarded F W a = [a]"

lemmas AudioSystem_op_defs =
  AudioSystem_playSound_def AudioSystem_setMasterVolume_def AudioSystem_stopAllSounds_def

lemma AudioSystem_ops_whitelist [simp]:
  "m_whitelist (snd (AudioSystem_playSound ma F f v A)) = m_whitelist A"
  "m_whitelist (AudioSystem_setMasterVolume v A) = m_whitelist A"
  "m_whitelist (AudioSystem_stopAllSounds A) = m_whitelist A"
  by (auto simp: AudioSystem_op_defs Let_def split: sum.splits bool.splits option.splits prod.splits)

lemma player_initialized_ops [simp]:
  "player_initialized (snd (MiniaudioPlayer_playSound ma F f v p)) = player_initialized p"
  "player_initialized (MiniaudioPlayer_setMasterVolume v p) = player_initialized p"
  "player_initialized (MiniaudioPlayer_stopAll p) = player_initialized p"
  by (auto simp: MiniaudioPlayer_playSound_def MiniaudioPlayer_setMasterVolume_def
      MiniaudioPlayer_stopAll_def ma_call_do_def Let_def split: sum.splits bool.splits)

text \<open>A run of the audio system is a run of its player on the operations let through.\<close>

lemma AudioSystem_run_player:
  assumes "m_player A = Some p" and "player_initialized p"
  shows "m_player (AudioSystem_run ma F ops A) =
     Some (audio_run (MiniaudioPlayer_playSound ma F) MiniaudioPlayer_setMasterVolume
             MiniaudioPlayer_stopAll (concat (map (forwarded F (m_whitelist A)) ops)) p)"
  using assms
proof (induction ops arbitrary: A p)
  case Nil
  then show ?case by (simp add: AudioSystem_run_def)
next
  case (Cons x ops)
  note IH = Cons.IH [unfolded AudioSystem_run_def]
  show ?case
  proof (cases x)
    case (OpPlay f v)
    let ?A = "snd (AudioSystem_playSound ma F f v A)"
    let ?p = "if playable F (m_whitelist A) f
      then snd (MiniaudioPlayer_playSound ma F f (std_clamp v 0 100) p) else p"
    have "m_player ?A = Some ?p"
      using Cons.prems by (auto simp: AudioSystem_playSound_def playable_def Let_def
          MiniaudioPlayer_isInitialized_def split: sum.splits bool.splits prod.splits)
    moreover have "player_initialized ?p" using Cons.prems by simp
    ultimately show ?thesis
      using IH [of ?A ?p] OpPlay by (simp add: AudioSystem_run_def split: if_splits)
  next
    case (OpSetMaster v)
    then show ?thesis using Cons.prems IH [of "AudioSystem_setMasterVolume v A"]
      by (simp add: AudioSystem_run_def AudioSystem_setMasterVolume_def MiniaudioPlayer_isInitialized_def)
  next
    case OpStop
    then show ?thesis using Cons.prems IH [of "AudioSystem_stopAllSounds A"]
      by (simp add: AudioSystem_run_def AudioSystem_stopAllSounds_def MiniaudioPlayer_isInitialized_def)
  qed
qed

lemma AudioSystem_run_uninitialized:
  assumes "m_player A = None \<or> (\<exists>p. m_player A = Some p \<and> \<not> player_initialized p)"
  shows "AudioSystem_run ma F ops A = A"
  using assms
proof (induction ops)
  case Nil
  then show ?case by (simp add: AudioSystem_run_def)
next
  case (Cons x ops)
  have "snd (AudioSystem_playSound ma F f v A) = A" "AudioSystem_setMasterVolume v A = A"
    "AudioSystem_stopAllSounds A = A" for f v
    using Cons.prems by (auto simp: AudioSystem_op_defs Let_def MiniaudioPlayer_isInitialized_def
        split: sum.splits bool.splits option.splits)
  with Cons show ?case by (cases x) (simp_all add: AudioSystem_run_def)
qed

definition played :: "AudioSystem \<Rightarrow> string set" where
  "played A = (case m_player A of None \<Rightarrow> {} | Some p \<Rightarrow> set (started (ma_calls p)))"

lemma played_run:
  "f \<in> played (AudioSystem_run ma F ops A) \<Longrightarrow>
   f \<in> played A \<or> (playable F (m_whitelist A) f \<and> (\<exists>v. OpPlay f v \<in> set ops))"
proof (cases "\<exists>p. m_player A = Some p \<and> player_initialized p")
  case True
  then obtain p where p: "m_player A = Some p" "player_initialized p" by blast
  have only: "playable F W f \<and> (\<exists>v. OpPlay f v \<in> set ops)"
    if "OpPlay f v \<in> set (concat (map (forwarded F W) ops))" for W v
  proof -
    from that obtain x where x: "x \<in> set ops" "OpPlay f v \<in> set (forwarded F W x)" by auto
    show ?thesis by (cases x; use x in \<open>auto split: if_splits\<close>)
  qed
  let ?ops = "concat (map (forwarded F (m_whitelist A)) ops)"
  assume "f \<in> played (AudioSystem_run ma F ops A)"
  then have "f \<in> {f. \<exists>v. OpPlay f v \<in> set ?ops} \<union> set (started (ma_calls p))"
    using miniaudio.run_started [of ma F ?ops p]
    by (auto simp: played_def AudioSystem_run_player [OF p] simp del: set_concat)
  then consider v where "OpPlay f v \<in> set ?ops" | "f \<in> set (started (ma_calls p))" by blast
  then show ?thesis using p only by cases (blast, simp add: played_def)
next
  case False
  then have "AudioSystem_run ma F ops A = A"
    by (intro AudioSystem_run_uninitialized) (cases "m_player A"; simp)
  then show "f \<in> played (AudioSystem_run ma F ops A) \<Longrightarrow> ?thesis" by simp
qed

lemma played_new: "played (AudioSystem_new ma F) = {}"
  by (simp add: played_def AudioSystem_new_def MiniaudioPlayer_initialize_def MiniaudioPlayer_new_def
      ma_call_do_def Let_def)

section \<open>Listing a directory\<close>

definition audio_stems :: "dir_entry list \<Rightarrow> string list" where
  "audio_stems es = map (path_stem \<circ> entry_path)
     (filter (\<lambda>e. entry_is_regular e = Inr True \<and> isSupportedAudioFile (entry_path e)) es)"

lemma list_loop_ok:
  "\<forall>e \<in> set es. \<exists>b. entry_is_regular e = Inr b \<Longrightarrow>
   list_loop es err acc = (err, acc @ audio_stems es)"
  by (induction es arbitrary: acc) (auto simp: audio_stems_def)

lemma list_loop_prefix:
  "\<exists>ds. prefix ds es \<and> snd (list_loop es err acc) = acc @ audio_stems ds"
proof (induction es arbitrary: acc)
  case Nil
  then show ?case by (simp add: audio_stems_def)
next
  case (Cons e es)
  show ?case
  proof (cases "entry_is_regular e")
    case (Inl x)
    then show ?thesis by (intro exI [of _ "[]"]) (simp add: audio_stems_def)
  next
    case (Inr b)
    let ?acc = "if b \<and> isSupportedAudioFile (entry_path e) then acc @ [path_stem (entry_path e)] else acc"
    obtain ds where "prefix ds es" "snd (list_loop es err ?acc) = ?acc @ audio_stems ds"
      using Cons by blast
    with Inr show ?thesis by (intro exI [of _ "e # ds"]) (auto simp: audio_stems_def)
  qed
qed

section \<open>Finding a file and playing it\<close>

definition audio_candidate :: "fs \<Rightarrow> string \<Rightarrow> bool" where
  "audio_candidate F c \<longleftrightarrow> fs_exists F c = Inr True \<and> fs_is_regular_file F c = Inr True"

lemma find_loop_ok:
  "find_loop F name directory exts acc = Inr fs \<Longrightarrow>
   fs = acc @ filter (audio_candidate F) (map (\<lambda>ext. path_append directory (name @ ext)) exts)"
proof (induction exts arbitrary: acc)
  case Nil
  then show ?case by simp
next
  case (Cons ext exts)
  let ?c = "path_append directory (name @ ext)"
  from Cons.prems obtain e where e: "fs_exists F ?c = Inr e"
    by (cases "fs_exists F ?c") (simp_all add: Let_def)
  show ?case
  proof (cases e)
    case True
    with Cons.prems e obtain r where "fs_is_regular_file F ?c = Inr r"
      by (cases "fs_is_regular_file F ?c") (simp_all add: Let_def)
    with True e Cons.prems Cons.IH [of acc] Cons.IH [of "acc @ [?c]"] show ?thesis
      by (simp add: audio_candidate_def Let_def split: if_splits)
  next
    case False
    with e Cons.prems Cons.IH show ?thesis by (auto simp: audio_candidate_def Let_def)
  qed
qed

lemma findAudioFile_result:
  assumes "findAudioFile F name directory A = Inr f" and "f \<noteq> []"
  shows "isPathAllowed F directory (m_whitelist A) \<and>
    (\<exists>fs. filter (audio_candidate F)
       (map (\<lambda>ext. path_append directory (name @ ext)) getSupportedExtensions) = f # fs)"
  using assms find_loop_ok [of F name directory getSupportedExtensions "[]"]
  by (auto simp: findAudioFile_def bindE_def split: if_splits sum.splits list.splits)

section \<open>Properties\<close>

text \<open>
  C4: Sandboxing of playback. From construction on, whatever sounds are requested, every sound
  that miniaudio is asked to start exists and lies in a directory that is one of the default
  sound directories or below it, component by component, when the canonical paths involved are
  free of backslashes. Escapes with dot-dot, symbolic links or a common name prefix are refused.
\<close>

theorem playback_stays_in_default_directories:
  assumes "f \<in> played (AudioSystem_run ma F ops (AudioSystem_new ma F))"
    and "\<And>d. d \<in> set default_directories \<Longrightarrow>
           \<exists>ds. comps_ok ds \<and> fs_weakly_canonical F d = Inr (canon_path ds)"
    and "comps_ok ps" and "fs_weakly_canonical F (path_parent f) = Inr (canon_path ps)"
  shows "fs_exists F f = Inr True \<and>
    (\<exists>d \<in> set default_directories.
       \<exists>ds. fs_weakly_canonical F d = Inr (canon_path ds) \<and> prefix ds ps)"
proof -
  have "playable F (DirectoryWhitelist_new F) f"
    using played_run [OF assms(1)] by (simp add: played_new) (simp add: AudioSystem_new_def)
  then obtain d where d: "fs_exists F f = Inr True" "d \<in> set default_directories" "below F d (path_parent f)"
    by (auto simp: playable_def DirectoryWhitelist_new_def whitelist.allowed_only_added)
  then obtain ds where "comps_ok ds" "fs_weakly_canonical F d = Inr (canon_path ds)"
    using assms(2) by blast
  with d assms(3,4) show ?thesis by (auto simp: below_canon)
qed

definition sample_fs :: fs where
  "sample_fs = \<lparr>fs_exists = (\<lambda>p. Inr (List.member [''./sounds'', ''./sounds/a.mp3''] p)),
     fs_is_directory = (\<lambda>p. Inr (p = ''./sounds'')),
     fs_is_regular_file = (\<lambda>p. Inr (p = ''./sounds/a.mp3'')),
     fs_weakly_canonical = (\<lambda>p. Inr (''/srv'' @ drop 1 p)),
     fs_directory_iterator = (\<lambda>p. ([\<lparr>entry_path = ''./sounds/a.mp3'', entry_is_regular = Inr True\<rparr>], None))\<rparr>"

definition sample_ma :: ma_lib where
  "sample_ma = \<lparr>ma_init_result = (\<lambda>_. 0), ma_play_result = (\<lambda>_ _. 0)\<rparr>"

lemma sample_played:
  "''./sounds/a.mp3'' \<in> played (AudioSystem_run sample_ma sample_fs
     [OpPlay ''/etc/passwd'' v, OpPlay ''./sounds/a.mp3'' 0] (AudioSystem_new sample_ma sample_fs))"
proof -
  have new: "m_player (AudioSystem_new sample_ma sample_fs) =
      Some \<lparr>m_engine = True, m_master_volume = f32_round (7 / 10), player_initialized = True,
        ma_calls = [MaEngineInit]\<rparr>"
    by (simp add: AudioSystem_new_def MiniaudioPlayer_initialize_def MiniaudioPlayer_new_def
        sample_ma_def ma_call_do_def)
  have pl: "playable sample_fs (m_whitelist (AudioSystem_new sample_ma sample_fs)) ''./sounds/a.mp3''"
    by (simp add: AudioSystem_new_def playable_def) code_simp
  have np: "\<not> playable sample_fs W ''/etc/passwd''" for W
    by (simp add: playable_def sample_fs_def)
  have ex: "fs_exists sample_fs ''./sounds/a.mp3'' = Inr True" by (simp add: sample_fs_def)
  have ok: "ma_play_result sample_ma h f = 0" for h f by (simp add: sample_ma_def)
  show ?thesis
    unfolding played_def by (subst AudioSystem_run_player [OF new])
      (simp_all add: pl np MiniaudioPlayer_playSound_def ma_call_do_def ex ok Let_def)
qed

theorem playback_stays_in_default_directories_witness:
  "fs_exists sample_fs ''./sounds/a.mp3'' = Inr True \<and>
   (\<exists>d \<in> set default_directories. \<exists>ds. fs_weakly_canonical sample_fs d = Inr (canon_path ds) \<and>
      prefix ds [''srv'', ''sounds''])"
proof (rule playback_stays_in_default_directories [OF sample_played])
  fix d :: string assume "d \<in> set default_directories"
  then show "\<exists>ds. comps_ok ds \<and> fs_weakly_canonical sample_fs d = Inr (canon_path ds)"
    by (intro exI [of _ "[''srv'', drop 2 d]"])
      (auto simp: default_directories_def sample_fs_def canon_path_def)
next
  show "fs_weakly_canonical sample_fs (path_parent ''./sounds/a.mp3'') = Inr (canon_path [''srv'', ''sounds''])"
    by code_simp
qed simp

text \<open>
  C17: A path is allowed exactly when one of the added directories contains it component by
  component, for canonical paths free of backslashes.
\<close>

theorem whitelist_is_directory_containment:
  assumes "\<And>d. d \<in> set dirs \<Longrightarrow>
      \<exists>ds. comps_ok ds \<and> fs_weakly_canonical F d = Inr (canon_path ds)"
    and "comps_ok cs" and "fs_weakly_canonical F p = Inr (canon_path cs)"
  shows "isPathAllowed F p (fold (addWhitelistedDirectory F) dirs DirectoryWhitelist_empty) \<longleftrightarrow>
    (\<exists>d \<in> set dirs. \<exists>ds. comps_ok ds \<and> fs_weakly_canonical F d = Inr (canon_path ds) \<and> prefix ds cs)"
  unfolding whitelist.allowed_only_added
  using assms(1) below_canon [OF _ _ assms(3,2)] by blast

theorem whitelist_is_directory_containment_witness:
  "isPathAllowed sample_fs ''./sounds/x''
     (fold (addWhitelistedDirectory sample_fs) [''./sounds''] DirectoryWhitelist_empty) \<longleftrightarrow>
   (\<exists>d \<in> set [''./sounds'']. \<exists>ds. comps_ok ds \<and>
      fs_weakly_canonical sample_fs d = Inr (canon_path ds) \<and> prefix ds [''srv'', ''sounds'', ''x''])"
  by (intro whitelist_is_directory_containment exI [of _ "[''srv'', ''sounds'']"])
    (auto simp: sample_fs_def canon_path_def)

text \<open>
  The replacement of backslashes, meant for Windows paths, weakens the whitelist on POSIX,
  where a backslash is an ordinary character of a file name: next to a whitelisted directory
  \<open>d\<close>, any directory whose name continues \<open>d\<close> with a backslash is allowed as well, although it
  is not inside \<open>d\<close>.
\<close>

theorem backslash_sibling_is_allowed:
  assumes "fs_weakly_canonical F d = Inr s" and "s \<noteq> []" and "last s \<noteq> slash" and "last s \<noteq> CHR 0x5C"
    and "fs_weakly_canonical F p = Inr (s @ CHR 0x5C # x)"
  shows "isPathAllowed F p (addWhitelistedDirectory F d W)"
proof -
  let ?m = "map (\<lambda>c. if c = CHR 0x5C then slash else c)"
  have "last (?m s) \<noteq> slash" using assms by (simp add: last_map)
  then have "normalizePath s = ?m s @ [slash]" using assms by (simp add: normalizePath_def)
  moreover have "prefix (?m s @ [slash]) (normalizePath (s @ CHR 0x5C # x))"
    by (auto simp: normalizePath_def Let_def)
  ultimately have "below F d p" using assms by (simp add: below_def starts_with_prefix)
  then show ?thesis by (simp add: whitelist.allowed_add)
qed

theorem backslash_sibling_is_allowed_witness:
  "isPathAllowed sample_fs (''./sounds'' @ [CHR 0x5C] @ ''private'')
     (addWhitelistedDirectory sample_fs ''./sounds'' DirectoryWhitelist_empty)"
  by (rule backslash_sibling_is_allowed [of _ _ "''/srv/sounds''" _ "''private''"])
    (simp_all add: sample_fs_def)

text \<open>
  C38: Listing an allowed directory gives the names, without extension, of exactly its regular
  files with a supported extension, each as often as it occurs, in sorted order.
\<close>

theorem listAudioFiles_sorted_and_complete:
  assumes "isPathAllowed F directory (m_whitelist A)"
    and "fs_exists F directory = Inr True" and "fs_is_directory F directory = Inr True"
    and "fs_directory_iterator F directory = (entries, None)"
    and "\<And>e. e \<in> set entries \<Longrightarrow> \<exists>b. entry_is_regular e = Inr b"
  shows "\<exists>files. listAudioFiles F directory A = Inr files \<and> sorted files \<and>
    mset files = mset (audio_stems entries)"
  using assms list_loop_ok [of entries None "[]"] by (simp add: listAudioFiles_def)

theorem listAudioFiles_sorted_and_complete_witness:
  "\<exists>files. listAudioFiles sample_fs ''./sounds'' (AudioSystem_new sample_ma sample_fs) = Inr files \<and>
     sorted files \<and> mset files = mset (audio_stems [\<lparr>entry_path = ''./sounds/a.mp3'', entry_is_regular = Inr True\<rparr>])"
proof (rule listAudioFiles_sorted_and_complete)
  have "isPathAllowed sample_fs ''./sounds'' (DirectoryWhitelist_new sample_fs)" by code_simp
  then show "isPathAllowed sample_fs ''./sounds'' (m_whitelist (AudioSystem_new sample_ma sample_fs))"
    by (simp add: AudioSystem_new_def)
qed (auto simp: sample_fs_def)

text \<open>
  A file that \<open>findAudioFile\<close> finds for a name without a slash is the first of the supported
  extensions that exists as a regular file, and passes every check of \<open>playSound\<close>.
\<close>

theorem found_file_is_playable:
  assumes "findAudioFile F name directory A = Inr f" and "f \<noteq> []"
    and "slash \<notin> set name" and "directory \<noteq> []" and "last directory \<noteq> slash"
  shows "playable F (m_whitelist A) f \<and>
    find (audio_candidate F) (map (\<lambda>ext. path_append directory (name @ ext)) getSupportedExtensions) = Some f"
proof -
  let ?cs = "map (\<lambda>ext. path_append directory (name @ ext)) getSupportedExtensions"
  obtain fs where a: "isPathAllowed F directory (m_whitelist A)" and fs: "filter (audio_candidate F) ?cs = f # fs"
    using findAudioFile_result [OF assms(1,2)] by blast
  have "f \<in> set ?cs" "audio_candidate F f"
    using arg_cong [OF fs, of set] by (auto simp del: set_map)
  moreover then have "path_parent f = directory"
    using assms(3-5) by (auto simp: getSupportedExtensions_def path_parent_append)
  moreover have "find P xs = (case filter P xs of [] \<Rightarrow> None | x # _ \<Rightarrow> Some x)" for P and xs :: "string list"
    by (induction xs) auto
  ultimately show ?thesis using a fs by (simp add: playable_def audio_candidate_def)
qed

theorem found_file_is_playable_witness:
  "playable sample_fs (m_whitelist (AudioSystem_new sample_ma sample_fs)) ''./sounds/a.mp3'' \<and>
   find (audio_candidate sample_fs) (map (\<lambda>ext. path_append ''./sounds'' (''a'' @ ext)) getSupportedExtensions)
     = Some ''./sounds/a.mp3''"
proof (rule found_file_is_playable)
  have "findAudioFile sample_fs ''a'' ''./sounds''
      \<lparr>m_whitelist = DirectoryWhitelist_new sample_fs, m_player = None\<rparr> = Inr ''./sounds/a.mp3''"
    by code_simp
  then show "findAudioFile sample_fs ''a'' ''./sounds'' (AudioSystem_new sample_ma sample_fs) = Inr ''./sounds/a.mp3''"
    by (simp add: findAudioFile_def AudioSystem_new_def)
qed simp_all

end
