(* ===== verification/Lua_Engine.thy ===== *)
theory Lua_Engine
  imports Command_Parser Audio_System "HOL-Library.AList"
begin

text \<open>
  \<^verbatim>\<open>include/seraphbot/core/lua_command_engine.hpp\<close> and \<^verbatim>\<open>src/core/lua_command_engine.cpp\<close>:
  metadata, cooldowns, permissions, the context given to Lua scripts, loading and registering
  scripts, and the handler that guards and runs a script.

  The Lua interpreter (through sol2) is not part of the sources. It is the parameter record
  \<open>lua_lib\<close>: its state is a value of a type \<open>'v\<close> that every call passes on, and results of
  scripts, tables and functions are values of \<open>'r\<close>, \<open>'t\<close> and \<open>'f\<close>. A running Lua function is
  given by what it does with the object it gets: it returns, ends in an error, or calls one of
  the methods the engine exports and continues with the answer. A script that never ends is
  outside the model.

  \<^verbatim>\<open>steady_clock::now()\<close> is the parameter \<open>clock\<close>, the reading at each call in turn, in
  nanoseconds since the clock's epoch; \<open>clock_reads\<close> counts the calls.
\<close>

section \<open>Metadata and cooldowns\<close>

record CommandMetadata =
  meta_name :: string
  meta_description :: string
  meta_usage :: string
  meta_aliases :: "string list"
  global_cooldown :: int
  command_cooldown :: int
  user_cooldown :: int
  mod_only :: bool
  vip_only :: bool
  subscriber_only :: bool
  allowed_users :: "string list"
  meta_enabled :: bool
  max_uses_per_stream :: int

record CooldownTracker =
  last_global_command :: int
  last_command_use :: "string \<rightharpoonup> int"
  user_command_cooldowns :: "string \<rightharpoonup> string \<rightharpoonup> int"
  command_use_count :: "string \<rightharpoonup> int"

definition CooldownTracker_new :: CooldownTracker where
  "CooldownTracker_new = \<lparr>last_global_command = 0, last_command_use = Map.empty,
     user_command_cooldowns = Map.empty, command_use_count = Map.empty\<rparr>"

definition isOnCooldown :: "int \<Rightarrow> string \<Rightarrow> string \<Rightarrow> CommandMetadata \<Rightarrow> CooldownTracker \<Rightarrow> bool" where
  "isOnCooldown now command user meta T =
     (if global_cooldown meta > 0 \<and>
         duration_cast_seconds (now - last_global_command T) < global_cooldown meta then True
      else if command_cooldown meta > 0 \<and>
         (case last_command_use T command of
            None \<Rightarrow> False
          | Some t \<Rightarrow> duration_cast_seconds (now - t) < command_cooldown meta) then True
      else if user_cooldown meta > 0 \<and>
         (case user_command_cooldowns T command of
            None \<Rightarrow> False
          | Some users \<Rightarrow>
              (case users user of
                 None \<Rightarrow> False
               | Some t \<Rightarrow> duration_cast_seconds (now - t) < user_cooldown meta)) then True
      else False)"

text \<open>
  \<^verbatim>\<open>operator[]\<close> on a map inserts a default value for a missing key. The counter is an
  \<^verbatim>\<open>int\<close>; it would take more than two thousand million uses of one command to overflow it.
\<close>

definition recordUsage :: "int \<Rightarrow> string \<Rightarrow> string \<Rightarrow> CooldownTracker \<Rightarrow> CooldownTracker" where
  "recordUsage now command user T =
     (let T1 = T\<lparr>last_global_command := now\<rparr>;
          T2 = T1\<lparr>last_command_use := (last_command_use T1)(command \<mapsto> now)\<rparr>;
          users = (case user_command_cooldowns T2 command of None \<Rightarrow> Map.empty | Some us \<Rightarrow> us);
          T3 = T2\<lparr>user_command_cooldowns := (user_command_cooldowns T2)(command \<mapsto> users(user \<mapsto> now))\<rparr>;
          n = (case command_use_count T3 command of None \<Rightarrow> 0 | Some n \<Rightarrow> n)
      in T3\<lparr>command_use_count := (command_use_count T3)(command \<mapsto> n + 1)\<rparr>)"

definition CooldownTracker_resetStreamCounters :: "CooldownTracker \<Rightarrow> CooldownTracker" where
  "CooldownTracker_resetStreamCounters T = T\<lparr>command_use_count := Map.empty\<rparr>"

section \<open>The context of a script\<close>

text \<open>
  \<^verbatim>\<open>LuaCommandContext\<close> holds a reference to the command's context and to the audio system, and
  the channel owner's name, which no method reads. Its methods are functions of what they read.
\<close>

definition getUser :: "'s CommandContext \<Rightarrow> string" where
  "getUser ctx = msg_user (ctx_message ctx)"

definition getCommand :: "'s CommandContext \<Rightarrow> string" where
  "getCommand ctx = ctx_command ctx"

definition getArgs :: "'s CommandContext \<Rightarrow> string list" where
  "getArgs ctx = ctx_args ctx"

definition joinArgs :: "int option \<Rightarrow> 's CommandContext \<Rightarrow> string" where
  "joinArgs start_index ctx =
     (let idx = (case start_index of None \<Rightarrow> 0 | Some i \<Rightarrow> i)
      in CommandContext_joinArgs (nat (max 0 idx)) ctx)"

definition getMessageText :: "'s CommandContext \<Rightarrow> string" where
  "getMessageText ctx = msg_text (ctx_message ctx)"

definition isBroadcaster :: "'s CommandContext \<Rightarrow> bool" where
  "isBroadcaster ctx = List.member (msg_badges (ctx_message ctx)) ''broadcaster''"

definition isModerator :: "'s CommandContext \<Rightarrow> bool" where
  "isModerator ctx =
     list_ex (\<lambda>badge. badge = ''moderator'' \<or> badge = ''broadcaster'') (msg_badges (ctx_message ctx))"

definition isVip :: "'s CommandContext \<Rightarrow> bool" where
  "isVip ctx =
     list_ex (\<lambda>badge. badge = ''vip'' \<or> badge = ''moderator'' \<or> badge = ''broadcaster'')
       (msg_badges (ctx_message ctx))"

definition isSubscriber :: "'s CommandContext \<Rightarrow> bool" where
  "isSubscriber ctx =
     list_ex (\<lambda>badge. badge = ''subscriber'' \<or> badge = ''vip'' \<or> badge = ''moderator'' \<or>
         badge = ''broadcaster'') (msg_badges (ctx_message ctx))"

definition hasBadge :: "string \<Rightarrow> 's CommandContext \<Rightarrow> bool" where
  "hasBadge badge_name ctx = list_ex (\<lambda>badge. badge = badge_name) (msg_badges (ctx_message ctx))"

definition isFounder :: "'s CommandContext \<Rightarrow> bool" where
  "isFounder ctx = List.member (msg_badges (ctx_message ctx)) ''founder''"

definition getSubscriberMonths :: "'s CommandContext \<Rightarrow> int" where
  "getSubscriberMonths ctx = (if isSubscriber ctx then 5 else 0)"

section \<open>The interpreter\<close>

datatype lua_value = VNil | VBool bool | VInt int | VStr string | VStrs "string list"

datatype lua_api =
    GetUser | GetCommand | GetArgs | JoinArgs "int option" | Reply string | GetMessageText
  | IsBroadcaster | IsFounder | IsModerator | IsVip | IsSubscriber | HasBadge string
  | GetSubscriberMonths | ListAudioFiles string | FindAudioFile string string
  | PlaySound string "int option" | LuaLog string

text \<open>
  What a protected call does: it returns, fails with a Lua error, lets an exception through, or
  calls a method and goes on with its value or, under \<^verbatim>\<open>pcall\<close>, with its exception.
\<close>

datatype 'v lua_behaviour =
    LuaReturn 'v
  | LuaError string 'v
  | LuaThrow exn 'v
  | LuaCall lua_api "exn + lua_value \<Rightarrow> 'v lua_behaviour"

record ('v, 'r, 't, 'f) lua_lib =
  lua_open_libraries :: "'v \<Rightarrow> 'v"
  lua_bind_environment :: "'v \<Rightarrow> 'v"
  lua_script_file :: "string \<Rightarrow> 'v \<Rightarrow> (exn + 'r) \<times> 'v"
  res_valid :: "'r \<Rightarrow> bool"
  res_is_table :: "'r \<Rightarrow> bool"
  res_table :: "'v \<Rightarrow> 'r \<Rightarrow> exn + 't"
  tbl_valid :: "'v \<Rightarrow> 't \<Rightarrow> string \<Rightarrow> bool"
  tbl_string :: "'v \<Rightarrow> 't \<Rightarrow> string \<Rightarrow> exn + string"
  tbl_table :: "'v \<Rightarrow> 't \<Rightarrow> string \<Rightarrow> exn + 't"
  tbl_function :: "'v \<Rightarrow> 't \<Rightarrow> string \<Rightarrow> exn + 'f"
  tbl_get_or_string :: "'v \<Rightarrow> 't \<Rightarrow> string \<Rightarrow> string \<Rightarrow> string"
  tbl_get_or_int :: "'v \<Rightarrow> 't \<Rightarrow> string \<Rightarrow> int \<Rightarrow> int"
  tbl_get_or_bool :: "'v \<Rightarrow> 't \<Rightarrow> string \<Rightarrow> bool \<Rightarrow> bool"
  tbl_size :: "'v \<Rightarrow> 't \<Rightarrow> nat"
  tbl_index_valid :: "'v \<Rightarrow> 't \<Rightarrow> nat \<Rightarrow> bool"
  tbl_index_string :: "'v \<Rightarrow> 't \<Rightarrow> nat \<Rightarrow> exn + string"
  fn_valid :: "'f \<Rightarrow> bool"
  fn_call :: "'f \<Rightarrow> string list \<Rightarrow> 'v \<Rightarrow> 'v lua_behaviour"

text \<open>Everything the engine asks from outside the sources.\<close>

record ('v, 'r, 't, 'f) lua_env =
  env_lua :: "('v, 'r, 't, 'f) lua_lib"
  env_fs :: fs
  env_ma :: ma_lib
  env_clock :: "nat \<Rightarrow> int"
  env_hash_order :: "(string \<times> string) list \<Rightarrow> (string \<times> string) list"

section \<open>The engine\<close>

record 'v LuaCommandEngine =
  m_lua :: 'v
  m_command_files :: "(string \<times> string) list"
  m_command_metadata :: "string \<rightharpoonup> CommandMetadata"
  m_cooldown_tracker :: CooldownTracker
  m_audio_system :: AudioSystem
  m_channel_owner :: string
  engine_initialized :: bool
  clock_reads :: nat

definition LuaCommandEngine_new :: "('v, 'r, 't, 'f) lua_env \<Rightarrow> 'v \<Rightarrow> 'v LuaCommandEngine" where
  "LuaCommandEngine_new E v =
     \<lparr>m_lua = v, m_command_files = [], m_command_metadata = Map.empty,
      m_cooldown_tracker = CooldownTracker_new, m_audio_system = AudioSystem_new (env_ma E) (env_fs E),
      m_channel_owner = ''lagizur'', engine_initialized = False, clock_reads = 0\<rparr>"

text \<open>
  The usertype and the function \<^verbatim>\<open>log\<close> become known to the interpreter. Which methods a script
  can then call is \<^typ>\<open>lua_api\<close>.
\<close>

definition setupLuaEnvironment ::
    "('v, 'r, 't, 'f) lua_env \<Rightarrow> 'v LuaCommandEngine \<Rightarrow> 'v LuaCommandEngine" where
  "setupLuaEnvironment E eng = eng\<lparr>m_lua := lua_bind_environment (env_lua E) (m_lua eng)\<rparr>"

definition LuaCommandEngine_initialize ::
    "('v, 'r, 't, 'f) lua_env \<Rightarrow> 'v LuaCommandEngine \<Rightarrow> 'v LuaCommandEngine" where
  "LuaCommandEngine_initialize E eng =
     (if engine_initialized eng then eng
      else let eng1 = eng\<lparr>m_lua := lua_open_libraries (env_lua E) (m_lua eng)\<rparr>;
               eng2 = setupLuaEnvironment E eng1
           in eng2\<lparr>engine_initialized := True\<rparr>)"

text \<open>The loop over a Lua array that collects the valid entries as strings.\<close>

fun string_array_loop :: "('v, 'r, 't, 'f) lua_lib \<Rightarrow> 'v \<Rightarrow> 't \<Rightarrow> nat list \<Rightarrow> string list \<Rightarrow> exn + string list"
where
  "string_array_loop L v t [] acc = Inr acc"
| "string_array_loop L v t (i # is) acc =
     (if tbl_index_valid L v t i
      then bindE (tbl_index_string L v t i) (\<lambda>s. string_array_loop L v t is (acc @ [s]))
      else string_array_loop L v t is acc)"

definition string_array :: "('v, 'r, 't, 'f) lua_lib \<Rightarrow> 'v \<Rightarrow> 't \<Rightarrow> string \<Rightarrow> exn + string list" where
  "string_array L v t key =
     (if tbl_valid L v t key
      then bindE (tbl_table L v t key) (\<lambda>a. string_array_loop L v a [1..<Suc (tbl_size L v a)] [])
      else Inr [])"

definition parseCommandMetadata ::
    "('v, 'r, 't, 'f) lua_lib \<Rightarrow> 'v \<Rightarrow> 't \<Rightarrow> string \<Rightarrow> exn + CommandMetadata" where
  "parseCommandMetadata L v command_table default_name =
     (let name = tbl_get_or_string L v command_table ''name'' default_name
      in bindE (string_array L v command_table ''aliases'') (\<lambda>aliases.
         bindE (string_array L v command_table ''allowed_users'') (\<lambda>allowed.
           Inr \<lparr>meta_name = name,
                meta_description = tbl_get_or_string L v command_table ''description'' [],
                meta_usage = tbl_get_or_string L v command_table ''usage'' (''!'' @ name),
                meta_aliases = aliases,
                global_cooldown = tbl_get_or_int L v command_table ''global_cooldown'' 0,
                command_cooldown = tbl_get_or_int L v command_table ''command_cooldown'' 0,
                user_cooldown = tbl_get_or_int L v command_table ''user_cooldown'' 0,
                mod_only = tbl_get_or_bool L v command_table ''mod_only'' False,
                vip_only = tbl_get_or_bool L v command_table ''vip_only'' False,
                subscriber_only = tbl_get_or_bool L v command_table ''subscriber_only'' False,
                allowed_users = allowed,
                meta_enabled = tbl_get_or_bool L v command_table ''enabled'' True,
                max_uses_per_stream = tbl_get_or_int L v command_table ''max_uses_per_stream'' (- 1)\<rparr>)))"

text \<open>
  The body of the \<^verbatim>\<open>try\<close> block of \<open>loadLuaCommand\<close> up to the first change of the engine: the
  name and the metadata, \<open>None\<close> for an early \<^verbatim>\<open>return false\<close>, or an exception.
\<close>

definition read_command ::
    "('v, 'r, 't, 'f) lua_lib \<Rightarrow> 'v \<Rightarrow> 'r \<Rightarrow> exn + (string \<times> CommandMetadata) option" where
  "read_command L v result =
     (if \<not> res_valid L result then Inr None
      else if \<not> res_is_table L result then Inr None
      else bindE (res_table L v result) (\<lambda>command_table.
        if \<not> tbl_valid L v command_table ''name'' then Inr None
        else if \<not> tbl_valid L v command_table ''execute'' then Inr None
        else bindE (tbl_string L v command_table ''name'') (\<lambda>command_name.
          if command_name = [] then Inr None
          else bindE (parseCommandMetadata L v command_table command_name) (\<lambda>metadata.
            Inr (Some (command_name, metadata))))))"

fun alias_loop :: "string list \<Rightarrow> CommandMetadata \<Rightarrow> string \<Rightarrow> 'v LuaCommandEngine \<Rightarrow> 'v LuaCommandEngine"
where
  "alias_loop [] metadata file_path eng = eng"
| "alias_loop (alias # aliases) metadata file_path eng =
     alias_loop aliases metadata file_path
       (eng\<lparr>m_command_metadata := (m_command_metadata eng)(alias \<mapsto> metadata),
            m_command_files := AList.update alias file_path (m_command_files eng)\<rparr>)"

definition store_command ::
    "string \<Rightarrow> CommandMetadata \<Rightarrow> string \<Rightarrow> 'v LuaCommandEngine \<Rightarrow> 'v LuaCommandEngine" where
  "store_command command_name metadata file_path eng =
     alias_loop (meta_aliases metadata) metadata file_path
       (eng\<lparr>m_command_files := AList.update command_name file_path (m_command_files eng),
            m_command_metadata := (m_command_metadata eng)(command_name \<mapsto> metadata)\<rparr>)"

definition loadLuaCommand ::
    "('v, 'r, 't, 'f) lua_env \<Rightarrow> string \<Rightarrow> ('v LuaCommandEngine, bool) act" where
  "loadLuaCommand E file_path =
     (\<lambda>eng. if \<not> engine_initialized eng then (Inr False, eng)
            else case fs_exists (env_fs E) file_path of
                   Inl e \<Rightarrow> (Inl e, eng)
                 | Inr False \<Rightarrow> (Inr False, eng)
                 | Inr True \<Rightarrow>
                     let (result, v) = lua_script_file (env_lua E) file_path (m_lua eng);
                         eng1 = eng\<lparr>m_lua := v\<rparr>
                     in case bindE result (read_command (env_lua E) v) of
                          Inl err \<Rightarrow> (Inr False, eng1)
                        | Inr None \<Rightarrow> (Inr False, eng1)
                        | Inr (Some (command_name, metadata)) \<Rightarrow>
                            (Inr True, store_command command_name metadata file_path eng1))"

fun load_loop ::
    "('v, 'r, 't, 'f) lua_env \<Rightarrow> dir_entry list \<Rightarrow> nat \<Rightarrow> 'v LuaCommandEngine \<Rightarrow> nat \<times> 'v LuaCommandEngine"
where
  "load_loop E [] loaded_count eng = (loaded_count, eng)"
| "load_loop E (entry # entries) loaded_count eng =
     (case entry_is_regular entry of
        Inl err \<Rightarrow> (loaded_count, eng)
      | Inr regular \<Rightarrow>
          if regular \<and> path_extension (entry_path entry) = ''.lua''
          then case loadLuaCommand E (entry_path entry) eng of
                 (Inl err, eng') \<Rightarrow> (loaded_count, eng')
               | (Inr ok, eng') \<Rightarrow> load_loop E entries (if ok then loaded_count + 1 else loaded_count) eng'
          else load_loop E entries loaded_count eng)"

definition loadCommandsFromDirectory ::
    "('v, 'r, 't, 'f) lua_env \<Rightarrow> string \<Rightarrow> ('v LuaCommandEngine, nat) act" where
  "loadCommandsFromDirectory E directory =
     bindA (lift (fs_exists (env_fs E) directory)) (\<lambda>exists.
       if \<not> exists then ret 0
       else bindA (lift (fs_is_directory (env_fs E) directory)) (\<lambda>is_dir.
         if \<not> is_dir then ret 0
         else (\<lambda>eng. let (n, eng') = load_loop E (fst (fs_directory_iterator (env_fs E) directory)) 0 eng
                     in (Inr n, eng'))))"

section \<open>Running a script\<close>

type_synonym ('v, 'w) lua_world = "'v LuaCommandEngine \<times> 'w"

definition lua_playSound ::
    "('v, 'r, 't, 'f) lua_env \<Rightarrow> string \<Rightarrow> int option \<Rightarrow> (('v, 'w) lua_world, bool) act" where
  "lua_playSound E filepath volume =
     (\<lambda>(eng, w).
        let vol = (case volume of None \<Rightarrow> 70 | Some x \<Rightarrow> x);
            (r, A) = AudioSystem_playSound (env_ma E) (env_fs E) filepath vol (m_audio_system eng)
        in (r, (eng\<lparr>m_audio_system := A\<rparr>, w)))"

text \<open>The methods of the usertype, by name.\<close>

fun lua_method ::
    "('v, 'r, 't, 'f) lua_env \<Rightarrow> ('v, 'w) lua_world CommandContext \<Rightarrow> lua_api
      \<Rightarrow> (('v, 'w) lua_world, lua_value) act" where
  "lua_method E ctx GetUser = ret (VStr (getUser ctx))"
| "lua_method E ctx GetCommand = ret (VStr (getCommand ctx))"
| "lua_method E ctx GetArgs = ret (VStrs (getArgs ctx))"
| "lua_method E ctx (JoinArgs i) = ret (VStr (joinArgs i ctx))"
| "lua_method E ctx (Reply message) = thenA (ctx_reply ctx message) (ret VNil)"
| "lua_method E ctx GetMessageText = ret (VStr (getMessageText ctx))"
| "lua_method E ctx IsBroadcaster = ret (VBool (isBroadcaster ctx))"
| "lua_method E ctx IsFounder = ret (VBool (isFounder ctx))"
| "lua_method E ctx IsModerator = ret (VBool (isModerator ctx))"
| "lua_method E ctx IsVip = ret (VBool (isVip ctx))"
| "lua_method E ctx IsSubscriber = ret (VBool (isSubscriber ctx))"
| "lua_method E ctx (HasBadge b) = ret (VBool (hasBadge b ctx))"
| "lua_method E ctx GetSubscriberMonths = ret (VInt (getSubscriberMonths ctx))"
| "lua_method E ctx (ListAudioFiles d) =
     (\<lambda>s. (bindE (listAudioFiles (env_fs E) d (m_audio_system (fst s))) (\<lambda>xs. Inr (VStrs xs)), s))"
| "lua_method E ctx (FindAudioFile n d) =
     (\<lambda>s. (bindE (findAudioFile (env_fs E) n d (m_audio_system (fst s))) (\<lambda>x. Inr (VStr x)), s))"
| "lua_method E ctx (PlaySound f v) = bindA (lua_playSound E f v) (\<lambda>b. ret (VBool b))"
| "lua_method E ctx (LuaLog message) = ret VNil"

text \<open>The call of a protected function: true if its result is valid.\<close>

primrec lua_exec ::
    "('v, 'r, 't, 'f) lua_env \<Rightarrow> ('v, 'w) lua_world CommandContext \<Rightarrow> 'v lua_behaviour
      \<Rightarrow> (('v, 'w) lua_world, bool) act" where
  "lua_exec E ctx (LuaReturn v) = (\<lambda>(eng, w). (Inr True, (eng\<lparr>m_lua := v\<rparr>, w)))"
| "lua_exec E ctx (LuaError err v) = (\<lambda>(eng, w). (Inr False, (eng\<lparr>m_lua := v\<rparr>, w)))"
| "lua_exec E ctx (LuaThrow e v) = (\<lambda>(eng, w). (Inl e, (eng\<lparr>m_lua := v\<rparr>, w)))"
| "lua_exec E ctx (LuaCall a k) =
     (\<lambda>s. lua_exec E ctx (k (fst (lua_method E ctx a s))) (snd (lua_method E ctx a s)))"

definition executeLuaCommand ::
    "('v, 'r, 't, 'f) lua_env \<Rightarrow> 'f \<Rightarrow> ('v, 'w) lua_world CommandContext \<Rightarrow> (('v, 'w) lua_world, unit) act" where
  "executeLuaCommand E lua_func ctx =
     catchA
       (bindA (\<lambda>s. lua_exec E ctx (fn_call (env_lua E) lua_func (ctx_args ctx) (m_lua (fst s))) s) (\<lambda>valid.
          if \<not> valid then ctx_reply ctx ''Command error occured - check logs'' else ret ()))
       (\<lambda>err. ctx_reply ctx ''Command execution failed'')"

definition hasPermission :: "'s CommandContext \<Rightarrow> CommandMetadata \<Rightarrow> bool" where
  "hasPermission ctx meta =
     (if allowed_users meta \<noteq> [] \<and> List.member (allowed_users meta) (msg_user (ctx_message ctx)) then True
      else if mod_only meta \<and> \<not> isModerator ctx then False
      else if vip_only meta \<and> \<not> isVip ctx then False
      else if subscriber_only meta \<and> \<not> isSubscriber ctx then False
      else True)"

definition steady_now :: "('v, 'r, 't, 'f) lua_env \<Rightarrow> (('v, 'w) lua_world, int) act" where
  "steady_now E =
     (\<lambda>(eng, w). (Inr (env_clock E (clock_reads eng)), (eng\<lparr>clock_reads := Suc (clock_reads eng)\<rparr>, w)))"

text \<open>
  The handler registered for a command. Its guards come first: the verdict says which of the
  early returns is taken, or that the script runs.
\<close>

datatype verdict = NoMetadata | Disabled | NoPermission | OnCooldown | LimitReached | Execute

definition check_command ::
    "('v, 'r, 't, 'f) lua_env \<Rightarrow> string \<Rightarrow> ('v, 'w) lua_world CommandContext \<Rightarrow> (('v, 'w) lua_world, verdict) act" where
  "check_command E command_name ctx =
     bindA (getsA (\<lambda>(eng, w). m_command_metadata eng command_name)) (\<lambda>meta_it.
       case meta_it of
         None \<Rightarrow> ret NoMetadata
       | Some meta \<Rightarrow>
           if \<not> meta_enabled meta then ret Disabled
           else if \<not> hasPermission ctx meta then ret NoPermission
           else bindA (steady_now E) (\<lambda>now.
             bindA (getsA (\<lambda>(eng, w). m_cooldown_tracker eng)) (\<lambda>T.
               if isOnCooldown now command_name (msg_user (ctx_message ctx)) meta T then ret OnCooldown
               else if max_uses_per_stream meta > 0 \<and>
                 (let current_uses = (case command_use_count T command_name of None \<Rightarrow> 0 | Some n \<Rightarrow> n)
                  in current_uses \<ge> max_uses_per_stream meta) then ret LimitReached
               else ret Execute)))"

definition run_command ::
    "('v, 'r, 't, 'f) lua_env \<Rightarrow> 'f \<Rightarrow> string \<Rightarrow> ('v, 'w) lua_world CommandContext \<Rightarrow> verdict
      \<Rightarrow> (('v, 'w) lua_world, unit) act" where
  "run_command E execute_func command_name ctx v =
     (case v of
        NoMetadata \<Rightarrow> ctx_reply ctx ''Command configuration error''
      | Disabled \<Rightarrow> ret ()
      | NoPermission \<Rightarrow> ctx_reply ctx (''You don'' @ [CHR 0x27] @ ''t have permission to use this command.'')
      | OnCooldown \<Rightarrow> ctx_reply ctx ''Command is on cooldown.''
      | LimitReached \<Rightarrow> ctx_reply ctx ''Command has reached its usage limit for this stream.''
      | Execute \<Rightarrow>
          thenA (executeLuaCommand E execute_func ctx)
            (bindA (steady_now E) (\<lambda>now.
               modifyA (\<lambda>(eng, w).
                 (eng\<lparr>m_cooldown_tracker :=
                     recordUsage now command_name (msg_user (ctx_message ctx)) (m_cooldown_tracker eng)\<rparr>, w)))))"

definition lua_handler ::
    "('v, 'r, 't, 'f) lua_env \<Rightarrow> 'f \<Rightarrow> string \<Rightarrow> ('v, 'w) lua_world CommandContext
      \<Rightarrow> (('v, 'w) lua_world, unit) act" where
  "lua_handler E execute_func command_name ctx =
     bindA (check_command E command_name ctx) (run_command E execute_func command_name ctx)"

section \<open>Registration and reload\<close>

text \<open>
  The closures the program registers as handlers: the one above, with what it captures, and
  the two of \<^verbatim>\<open>Application::run\<close>.
\<close>

datatype 'f handler = LuaHandler 'f string | ReloadHandler | CommandsHandler

definition register_one ::
    "('v, 'r, 't, 'f) lua_env \<Rightarrow> string \<times> string \<Rightarrow> 'v LuaCommandEngine \<times> 'f handler CommandParser
      \<Rightarrow> 'v LuaCommandEngine \<times> 'f handler CommandParser" where
  "register_one E = (\<lambda>(command_name, file_path) (eng, parser).
     let L = env_lua E;
         (result, v) = lua_script_file L file_path (m_lua eng);
         eng1 = eng\<lparr>m_lua := v\<rparr>
     in case result of
          Inl err \<Rightarrow> (eng1, parser)
        | Inr res \<Rightarrow>
            if \<not> res_valid L res then (eng1, parser)
            else case bindE (res_table L v res) (\<lambda>command_table. tbl_function L v command_table ''execute'') of
                   Inl err \<Rightarrow> (eng1, parser)
                 | Inr execute_func \<Rightarrow>
                     if \<not> fn_valid L execute_func then (eng1, parser)
                     else (eng1, registerCommand command_name (Some (LuaHandler execute_func command_name)) parser))"

definition registerWithParser ::
    "('v, 'r, 't, 'f) lua_env \<Rightarrow> 'v LuaCommandEngine \<times> 'f handler CommandParser
      \<Rightarrow> 'v LuaCommandEngine \<times> 'f handler CommandParser" where
  "registerWithParser E = (\<lambda>(eng, parser).
     if \<not> engine_initialized eng then (eng, parser)
     else fold (register_one E) (env_hash_order E (m_command_files eng)) (eng, parser))"

fun reload_loop :: "('v, 'r, 't, 'f) lua_env \<Rightarrow> (string \<times> string) list \<Rightarrow> ('v LuaCommandEngine, unit) act" where
  "reload_loop E [] = ret ()"
| "reload_loop E ((command_name, file_path) # files) =
     bindA (loadLuaCommand E file_path) (\<lambda>loaded. reload_loop E files)"

definition reloadAllCommands :: "('v, 'r, 't, 'f) lua_env \<Rightarrow> ('v LuaCommandEngine, unit) act" where
  "reloadAllCommands E =
     (\<lambda>eng. let files_to_reload = m_command_files eng;
                eng1 = eng\<lparr>m_command_files := []\<rparr>
            in reload_loop E (env_hash_order E files_to_reload) eng1)"

definition getLoadedCommands :: "('v, 'r, 't, 'f) lua_env \<Rightarrow> 'v LuaCommandEngine \<Rightarrow> string list" where
  "getLoadedCommands E eng = map fst (env_hash_order E (m_command_files eng))"

definition getCommandMetadata :: "string \<Rightarrow> 'v LuaCommandEngine \<Rightarrow> CommandMetadata option" where
  "getCommandMetadata command_name eng = m_command_metadata eng command_name"

definition LuaCommandEngine_resetStreamCounters :: "'v LuaCommandEngine \<Rightarrow> 'v LuaCommandEngine" where
  "LuaCommandEngine_resetStreamCounters eng =
     eng\<lparr>m_cooldown_tracker := CooldownTracker_resetStreamCounters (m_cooldown_tracker eng)\<rparr>"

definition getAudioSystem :: "'v LuaCommandEngine \<Rightarrow> AudioSystem" where
  "getAudioSystem eng = m_audio_system eng"

end
