(* ===== verification/Lua_Guards.thy ===== *)
theory Lua_Guards
  imports Lua_Engine
begin

text \<open>
  What the guards of a Lua command promise: who may run a command, how far apart in time
  executions are, how many there are per stream, and that a script, whatever it does, cannot
  play a sound outside the whitelisted directories.
\<close>

section \<open>Permissions\<close>

text \<open>The badges are ordered: a higher one includes the rights of the lower ones.\<close>

definition badge_level :: "string \<Rightarrow> nat" where
  "badge_level b =
     (if b = ''broadcaster'' \<or> b = ''moderator'' then 3
      else if b = ''vip'' then 2 else if b = ''subscriber'' then 1 else 0)"

definition badge_rank :: "string list \<Rightarrow> nat" where
  "badge_rank bs = foldr max (map badge_level bs) 0"

definition required_rank :: "CommandMetadata \<Rightarrow> nat" where
  "required_rank meta =
     (if mod_only meta then 3 else if vip_only meta then 2 else if subscriber_only meta then 1 else 0)"

lemma le_badge_rank: "k \<le> badge_rank bs \<longleftrightarrow> k = 0 \<or> (\<exists>b \<in> set bs. k \<le> badge_level b)"
  unfolding badge_rank_def by (induction bs) (auto simp: le_max_iff_disj)

lemma badge_levels:
  "3 \<le> badge_level b \<longleftrightarrow> b = ''moderator'' \<or> b = ''broadcaster''"
  "2 \<le> badge_level b \<longleftrightarrow> b = ''vip'' \<or> b = ''moderator'' \<or> b = ''broadcaster''"
  "Suc 0 \<le> badge_level b \<longleftrightarrow> b = ''subscriber'' \<or> b = ''vip'' \<or> b = ''moderator'' \<or> b = ''broadcaster''"
  by (simp_all add: badge_level_def)

lemma roles_by_rank:
  "isModerator ctx \<longleftrightarrow> 3 \<le> badge_rank (msg_badges (ctx_message ctx))"
  "isVip ctx \<longleftrightarrow> 2 \<le> badge_rank (msg_badges (ctx_message ctx))"
  "isSubscriber ctx \<longleftrightarrow> 1 \<le> badge_rank (msg_badges (ctx_message ctx))"
  by (simp_all add: isModerator_def isVip_def isSubscriber_def le_badge_rank list_ex_iff badge_levels)

section \<open>What running a script leaves alone\<close>

text \<open>A reply function that returns and does not touch the engine, as the application's does.\<close>

definition reply_ok :: "('v, 'w) lua_world CommandContext \<Rightarrow> bool" where
  "reply_ok ctx \<longleftrightarrow> (\<forall>msg eng w. \<exists>w'. ctx_reply ctx msg (eng, w) = (Inr (), (eng, w')))"

definition replies_ok :: "('f \<times> string \<times> ('v, 'w) lua_world CommandContext) list \<Rightarrow> bool" where
  "replies_ok invs \<longleftrightarrow> list_all (\<lambda>(f, n, ctx). reply_ok ctx) invs"

lemma replies_ok_simps [simp]:
  "replies_ok []" "replies_ok ((f, n, ctx) # invs) \<longleftrightarrow> reply_ok ctx \<and> replies_ok invs"
  by (simp_all add: replies_ok_def)

definition same_guards :: "'v LuaCommandEngine \<Rightarrow> 'v LuaCommandEngine \<Rightarrow> bool" where
  "same_guards eng eng' \<longleftrightarrow>
     m_command_metadata eng' = m_command_metadata eng \<and> m_cooldown_tracker eng' = m_cooldown_tracker eng \<and>
     clock_reads eng' = clock_reads eng \<and> m_command_files eng' = m_command_files eng \<and>
     engine_initialized eng' = engine_initialized eng"

lemma same_guards_refl [simp]: "same_guards eng eng"
  by (simp add: same_guards_def)

lemma same_guards_trans: "same_guards a b \<Longrightarrow> same_guards b c \<Longrightarrow> same_guards a c"
  by (simp add: same_guards_def)

lemma reply_okE:
  assumes "reply_ok ctx"
  obtains w' where "ctx_reply ctx msg s = (Inr (), (fst s, w'))"
  using assms unfolding reply_ok_def by (metis prod.collapse)

lemma reply_same_guards [simp]: "reply_ok ctx \<Longrightarrow> fst (snd (ctx_reply ctx msg s)) = fst s"
  by (metis fst_conv reply_okE snd_conv)

text \<open>
  The audio system after a script is the one before it after a sequence of operations of the
  audio system; the rest of what the guards read is unchanged.
\<close>

definition audio_reached ::
    "('v, 'r, 't, 'f) lua_env \<Rightarrow> 'v LuaCommandEngine \<Rightarrow> 'v LuaCommandEngine \<Rightarrow> bool" where
  "audio_reached E eng eng' \<longleftrightarrow>
     (\<exists>ops. m_audio_system eng' = AudioSystem_run (env_ma E) (env_fs E) ops (m_audio_system eng))"

lemma audio_reached_refl: "m_audio_system eng' = m_audio_system eng \<Longrightarrow> audio_reached E eng eng'"
  unfolding audio_reached_def by (intro exI [of _ "[]"]) (simp add: AudioSystem_run_def)

lemma AudioSystem_run_append:
  "AudioSystem_run ma F (xs @ ys) A = AudioSystem_run ma F ys (AudioSystem_run ma F xs A)"
  unfolding AudioSystem_run_def
proof (induction xs arbitrary: A)
  case (Cons x xs)
  then show ?case by (cases x) simp_all
qed simp

lemma audio_reached_trans:
  "audio_reached E a b \<Longrightarrow> audio_reached E b c \<Longrightarrow> audio_reached E a c"
  unfolding audio_reached_def by (metis AudioSystem_run_append)

lemma audio_reached_play: "audio_reached E (fst s) (fst (snd (lua_playSound E f v s)))"
  unfolding audio_reached_def
  by (intro exI [of _ "[OpPlay f (case v of None \<Rightarrow> 70 | Some x \<Rightarrow> x)]"])
    (simp add: AudioSystem_run_def lua_playSound_def Let_def split: prod.splits)

definition script_ok ::
    "('v, 'r, 't, 'f) lua_env \<Rightarrow> 'v LuaCommandEngine \<Rightarrow> 'v LuaCommandEngine \<Rightarrow> bool" where
  "script_ok E eng eng' \<longleftrightarrow> same_guards eng eng' \<and> audio_reached E eng eng'"

lemma script_ok_refl [simp]: "script_ok E eng eng"
  by (simp add: script_ok_def audio_reached_refl)

lemma script_ok_lua [simp]: "script_ok E eng (eng\<lparr>m_lua := v\<rparr>)"
  by (simp add: script_ok_def audio_reached_refl same_guards_def)

lemma script_ok_trans: "script_ok E a b \<Longrightarrow> script_ok E b c \<Longrightarrow> script_ok E a c"
  unfolding script_ok_def by (blast intro: same_guards_trans audio_reached_trans)

lemma lua_method_ok:
  assumes "reply_ok ctx"
  shows "script_ok E (fst s) (fst (snd (lua_method E ctx a s)))"
proof (cases a)
  case (Reply m)
  obtain w' where "ctx_reply ctx m s = (Inr (), (fst s, w'))" using assms by (rule reply_okE)
  with Reply show ?thesis by (simp add: act_simps)
next
  case (PlaySound f v)
  have "same_guards (fst s) (fst (snd (lua_playSound E f v s)))"
    by (simp add: lua_playSound_def same_guards_def Let_def split: prod.splits)
  then have "script_ok E (fst s) (fst (snd (lua_playSound E f v s)))"
    by (simp add: script_ok_def audio_reached_play)
  with PlaySound show ?thesis by (auto simp: act_simps split: prod.splits sum.splits)
qed (simp_all add: act_simps)

lemma lua_exec_ok:
  assumes "reply_ok ctx"
  shows "script_ok E (fst s) (fst (snd (lua_exec E ctx b s)))"
proof (induction b arbitrary: s)
  case (LuaCall a k)
  let ?t = "snd (lua_method E ctx a s)" and ?b = "k (fst (lua_method E ctx a s))"
  have "script_ok E (fst ?t) (fst (snd (lua_exec E ctx ?b ?t)))" by (rule LuaCall) simp
  from script_ok_trans [OF lua_method_ok [OF assms] this] show ?case by simp
qed (simp_all split: prod.splits)

lemma executeLuaCommand_ok:
  assumes "reply_ok ctx"
  shows "\<exists>eng' w'. executeLuaCommand E f ctx s = (Inr (), (eng', w')) \<and> script_ok E (fst s) eng'"
proof -
  let ?b = "fn_call (env_lua E) f (ctx_args ctx) (m_lua (fst s))"
  have rep: "\<exists>w'. ctx_reply ctx m t = (Inr (), (fst t, w'))" for m t
    using assms by (metis reply_okE)
  obtain r eng1 w1 where x: "lua_exec E ctx ?b s = (r, (eng1, w1))" by (metis prod.collapse)
  have ok: "script_ok E (fst s) eng1" using lua_exec_ok [OF assms, of E s ?b] x by simp
  show ?thesis
  proof (cases "r = Inr True")
    case True
    with x ok show ?thesis by (simp add: executeLuaCommand_def act_simps)
  next
    case False
    let ?m = "if r = Inr False then ''Command error occured - check logs'' else ''Command execution failed''"
    obtain w2 where "ctx_reply ctx ?m (eng1, w1) = (Inr (), (eng1, w2))" using rep [of ?m "(eng1, w1)"] by auto
    with False x ok show ?thesis
      by (cases r) (auto simp: executeLuaCommand_def act_simps)
  qed
qed

section \<open>Sequences of invocations\<close>

text \<open>
  An event per invocation of a handler: the command and the user, the verdict of the guards,
  and the readings of the clock at the check and, if the script runs, at the record of its use.
\<close>

record guard_event =
  ev_name :: string
  ev_user :: string
  ev_verdict :: verdict
  ev_checked :: int
  ev_recorded :: int

definition executed :: "guard_event \<Rightarrow> bool" where
  "executed ev \<longleftrightarrow> ev_verdict ev = Execute"

definition verdict_of ::
    "('v, 'r, 't, 'f) lua_env \<Rightarrow> string \<Rightarrow> ('v, 'w) lua_world CommandContext \<Rightarrow> ('v, 'w) lua_world \<Rightarrow> verdict" where
  "verdict_of E n ctx s = (case fst (check_command E n ctx s) of Inr v \<Rightarrow> v | Inl e \<Rightarrow> NoMetadata)"

fun lua_trace ::
    "('v, 'r, 't, 'f) lua_env \<Rightarrow> ('f \<times> string \<times> ('v, 'w) lua_world CommandContext) list
      \<Rightarrow> ('v, 'w) lua_world \<Rightarrow> guard_event list" where
  "lua_trace E [] s = []"
| "lua_trace E ((f, n, ctx) # invs) s =
     \<lparr>ev_name = n, ev_user = msg_user (ctx_message ctx), ev_verdict = verdict_of E n ctx s,
      ev_checked = env_clock E (clock_reads (fst s)),
      ev_recorded = env_clock E (Suc (clock_reads (fst s)))\<rparr>
       # lua_trace E invs (snd (lua_handler E f n ctx s))"

definition current_uses :: "string \<Rightarrow> CooldownTracker \<Rightarrow> int" where
  "current_uses n T = (case command_use_count T n of None \<Rightarrow> 0 | Some k \<Rightarrow> k)"

text \<open>The guards, as conditions.\<close>

lemma check_command_eq:
  "check_command E n ctx (eng, w) =
     (case m_command_metadata eng n of
        None \<Rightarrow> (Inr NoMetadata, (eng, w))
      | Some meta \<Rightarrow>
          if \<not> meta_enabled meta then (Inr Disabled, (eng, w))
          else if \<not> hasPermission ctx meta then (Inr NoPermission, (eng, w))
          else (Inr (if isOnCooldown (env_clock E (clock_reads eng)) n (msg_user (ctx_message ctx)) meta
                          (m_cooldown_tracker eng) then OnCooldown
                     else if max_uses_per_stream meta > 0 \<and>
                          current_uses n (m_cooldown_tracker eng) \<ge> max_uses_per_stream meta then LimitReached
                     else Execute),
                (eng\<lparr>clock_reads := Suc (clock_reads eng)\<rparr>, w)))"
  by (auto simp: check_command_def steady_now_def current_uses_def act_simps Let_def split: option.splits)

lemma check_command_run:
  "\<exists>v k. check_command E n ctx s = (Inr v, ((fst s)\<lparr>clock_reads := k\<rparr>, snd s)) \<and>
     clock_reads (fst s) \<le> k \<and> (v = Execute \<longrightarrow> k = Suc (clock_reads (fst s)))"
proof -
  obtain eng w where s: "s = (eng, w)" by (cases s)
  let ?k = "clock_reads eng"
  have "(\<exists>v. check_command E n ctx s = (Inr v, (eng, w)) \<and> v \<noteq> Execute) \<or>
      (\<exists>v. check_command E n ctx s = (Inr v, (eng\<lparr>clock_reads := Suc ?k\<rparr>, w)))"
    unfolding s check_command_eq by (simp split: option.splits)
  then consider (early) v where "check_command E n ctx s = (Inr v, (eng, w))" "v \<noteq> Execute"
    | (late) v where "check_command E n ctx s = (Inr v, (eng\<lparr>clock_reads := Suc ?k\<rparr>, w))"
    by blast
  then show ?thesis
  proof cases
    case early
    then show ?thesis by (intro exI [of _ v] exI [of _ ?k]) (simp add: s)
  next
    case late
    then show ?thesis by (intro exI [of _ v] exI [of _ "Suc ?k"]) (simp add: s)
  qed
qed

lemma verdict_Execute:
  "verdict_of E n ctx s = Execute \<longleftrightarrow>
     (\<exists>meta. m_command_metadata (fst s) n = Some meta \<and> meta_enabled meta \<and> hasPermission ctx meta \<and>
        \<not> isOnCooldown (env_clock E (clock_reads (fst s))) n (msg_user (ctx_message ctx)) meta
            (m_cooldown_tracker (fst s)) \<and>
        (max_uses_per_stream meta > 0 \<longrightarrow> current_uses n (m_cooldown_tracker (fst s)) < max_uses_per_stream meta))"
  by (cases s) (auto simp: verdict_of_def check_command_eq split: option.splits)

lemma handler_run:
  assumes "reply_ok ctx"
  obtains eng' w' where "lua_handler E f n ctx s = (Inr (), (eng', w'))"
    and "m_command_metadata eng' = m_command_metadata (fst s)"
    and "audio_reached E (fst s) eng'"
    and "clock_reads (fst s) \<le> clock_reads eng'"
    and "m_cooldown_tracker eng' =
      (if verdict_of E n ctx s = Execute
       then recordUsage (env_clock E (Suc (clock_reads (fst s)))) n (msg_user (ctx_message ctx))
              (m_cooldown_tracker (fst s))
       else m_cooldown_tracker (fst s))"
    and "verdict_of E n ctx s = Execute \<Longrightarrow> clock_reads eng' = Suc (Suc (clock_reads (fst s)))"
proof -
  obtain v k where c: "check_command E n ctx s = (Inr v, ((fst s)\<lparr>clock_reads := k\<rparr>, snd s))"
    and k: "clock_reads (fst s) \<le> k" "v = Execute \<Longrightarrow> k = Suc (clock_reads (fst s))"
    using check_command_run by blast
  let ?s1 = "((fst s)\<lparr>clock_reads := k\<rparr>, snd s)"
  have v: "verdict_of E n ctx s = v" by (simp add: verdict_of_def c)
  show ?thesis
  proof (cases "v = Execute")
    case True
    obtain eng2 w2 where x: "executeLuaCommand E f ctx ?s1 = (Inr (), (eng2, w2))"
      "script_ok E (fst ?s1) eng2" using executeLuaCommand_ok [OF assms, of E f ?s1] by blast
    let ?eng = "eng2\<lparr>clock_reads := Suc (clock_reads eng2),
      m_cooldown_tracker := recordUsage (env_clock E (clock_reads eng2)) n (msg_user (ctx_message ctx))
        (m_cooldown_tracker eng2)\<rparr>"
    have r: "lua_handler E f n ctx s = (Inr (), (?eng, w2))"
      using True x(1) c by (simp add: lua_handler_def run_command_def act_simps steady_now_def)
    have "same_guards (fst ?s1) eng2" "audio_reached E (fst ?s1) eng2" using x(2) by (simp_all add: script_ok_def)
    then show ?thesis
      using True k v by (intro that [OF r]) (simp_all add: same_guards_def audio_reached_def)
  next
    case False
    have "\<exists>w2. run_command E f n ctx v ?s1 = (Inr (), (fst ?s1, w2))"
      using False assms by (cases v) (auto simp: run_command_def act_simps reply_ok_def)
    then obtain w2 where "run_command E f n ctx v ?s1 = (Inr (), (fst ?s1, w2))" by blast
    then show ?thesis
      by (intro that [of "fst ?s1" w2]) (use False c k v in
        \<open>auto simp: lua_handler_def act_simps audio_reached_refl\<close>)
  qed
qed

text \<open>
  Two executions are spaced when the second is checked at least the cooldowns of its command
  after the use of the first was recorded: the global one in any case, the command's own if it
  is the same command, the user's if the user is the same too.
\<close>

definition spaced :: "(string \<rightharpoonup> CommandMetadata) \<Rightarrow> guard_event \<Rightarrow> guard_event \<Rightarrow> bool" where
  "spaced M p e \<longleftrightarrow>
     (\<exists>meta. M (ev_name e) = Some meta \<and>
        (let gap = ev_checked e - ev_recorded p
         in global_cooldown meta * 10 ^ 9 \<le> gap \<and>
            (ev_name p = ev_name e \<longrightarrow> command_cooldown meta * 10 ^ 9 \<le> gap) \<and>
            (ev_name p = ev_name e \<and> ev_user p = ev_user e \<longrightarrow> user_cooldown meta * 10 ^ 9 \<le> gap)))"

lemma duration_cast_bound: "0 < c \<Longrightarrow> \<not> duration_cast_seconds d < c \<Longrightarrow> c * 10 ^ 9 \<le> d"
proof (cases "0 \<le> d")
  case True
  assume "0 < c" "\<not> duration_cast_seconds d < c"
  with True have "c * 10 ^ 9 \<le> d div 10 ^ 9 * 10 ^ 9"
    by (intro mult_right_mono) (simp_all add: duration_cast_seconds_def)
  also have "\<dots> \<le> d" by simp
  finally show ?thesis .
next
  case False
  then have "duration_cast_seconds d \<le> 0"
    by (simp add: duration_cast_seconds_def pos_imp_zdiv_nonneg_iff)
  then show "0 < c \<Longrightarrow> \<not> duration_cast_seconds d < c \<Longrightarrow> ?thesis" by linarith
qed

lemma cooldown_gap:
  assumes "c > 0 \<Longrightarrow> \<not> duration_cast_seconds (now - t) < c" and "r \<le> t" and "r \<le> now"
  shows "c * 10 ^ 9 \<le> now - r"
proof (cases "0 < c")
  case True
  with assms show ?thesis using duration_cast_bound [of c "now - t"] by simp
next
  case False
  then have "c * 10 ^ 9 \<le> 0" by simp
  with assms show ?thesis by linarith
qed

text \<open>The tracker remembers, for each past execution, a use at least as late.\<close>

definition tracked :: "guard_event \<Rightarrow> CooldownTracker \<Rightarrow> bool" where
  "tracked p T \<longleftrightarrow>
     ev_recorded p \<le> last_global_command T \<and>
     (\<exists>t. last_command_use T (ev_name p) = Some t \<and> ev_recorded p \<le> t) \<and>
     (\<exists>us t. user_command_cooldowns T (ev_name p) = Some us \<and> us (ev_user p) = Some t \<and> ev_recorded p \<le> t)"

lemma tracked_recordUsage: "tracked p T \<Longrightarrow> ev_recorded p \<le> now \<Longrightarrow> tracked p (recordUsage now n u T)"
  by (auto simp: tracked_def recordUsage_def Let_def)

lemma tracked_recordUsage_new:
  "ev_recorded p = now \<Longrightarrow> tracked p (recordUsage now (ev_name p) (ev_user p) T)"
  by (simp add: tracked_def recordUsage_def Let_def)

lemma tracked_spaced:
  assumes "tracked p T" and "ev_recorded p \<le> ev_checked e" and "M (ev_name e) = Some meta"
    and "\<not> isOnCooldown (ev_checked e) (ev_name e) (ev_user e) meta T"
  shows "spaced M p e"
proof -
  obtain t us t' where p: "ev_recorded p \<le> last_global_command T"
    "last_command_use T (ev_name p) = Some t" "ev_recorded p \<le> t"
    "user_command_cooldowns T (ev_name p) = Some us" "us (ev_user p) = Some t'" "ev_recorded p \<le> t'"
    using assms(1) by (auto simp: tracked_def)
  have "global_cooldown meta * 10 ^ 9 \<le> ev_checked e - ev_recorded p"
    by (rule cooldown_gap [OF _ p(1) assms(2)]) (use assms(4) in \<open>auto simp: isOnCooldown_def split: if_splits\<close>)
  moreover have "command_cooldown meta * 10 ^ 9 \<le> ev_checked e - ev_recorded p" if "ev_name p = ev_name e"
    by (rule cooldown_gap [OF _ p(3) assms(2)])
      (use assms(4) p(2) that in \<open>auto simp: isOnCooldown_def split: if_splits\<close>)
  moreover have "user_cooldown meta * 10 ^ 9 \<le> ev_checked e - ev_recorded p"
    if "ev_name p = ev_name e" "ev_user p = ev_user e"
    by (rule cooldown_gap [OF _ p(6) assms(2)])
      (use assms(4) p(4,5) that in \<open>auto simp: isOnCooldown_def split: if_splits\<close>)
  ultimately show ?thesis using assms(3) by (simp add: spaced_def Let_def)
qed

definition past_ok :: "('v, 'r, 't, 'f) lua_env \<Rightarrow> guard_event \<Rightarrow> 'v LuaCommandEngine \<Rightarrow> bool" where
  "past_ok E p eng \<longleftrightarrow> tracked p (m_cooldown_tracker eng) \<and> ev_recorded p \<le> env_clock E (clock_reads eng)"

lemma lua_trace_spaced:
  assumes mono: "\<And>i j. i \<le> j \<Longrightarrow> env_clock E i \<le> env_clock E j"
    and "replies_ok invs"
    and "\<And>p. p \<in> set past \<Longrightarrow> past_ok E p (fst s)"
  shows "(\<forall>p \<in> set past. \<forall>e \<in> set (filter executed (lua_trace E invs s)). spaced (m_command_metadata (fst s)) p e) \<and>
     sorted_wrt (spaced (m_command_metadata (fst s))) (filter executed (lua_trace E invs s))"
  using assms(2,3)
proof (induction invs arbitrary: s past)
  case Nil
  then show ?case by simp
next
  case (Cons inv invs)
  obtain f n ctx where inv: "inv = (f, n, ctx)" by (cases inv)
  then have rep: "reply_ok ctx" and reps: "replies_ok invs" using Cons.prems(1) by simp_all
  let ?k = "clock_reads (fst s)" and ?u = "msg_user (ctx_message ctx)"
  let ?e = "\<lparr>ev_name = n, ev_user = ?u, ev_verdict = verdict_of E n ctx s,
      ev_checked = env_clock E ?k, ev_recorded = env_clock E (Suc ?k)\<rparr>"
  let ?T = "m_cooldown_tracker (fst s)"
  obtain eng' w' where h: "lua_handler E f n ctx s = (Inr (), (eng', w'))"
    "m_command_metadata eng' = m_command_metadata (fst s)" "clock_reads (fst s) \<le> clock_reads eng'"
    "m_cooldown_tracker eng' = (if verdict_of E n ctx s = Execute then recordUsage (env_clock E (Suc ?k)) n ?u ?T else ?T)"
    "verdict_of E n ctx s = Execute \<Longrightarrow> clock_reads eng' = Suc (Suc ?k)"
    using handler_run [OF rep, of E f n s] by metis
  have past: "past_ok E p eng'" if "p \<in> set past" for p
  proof -
    have p: "tracked p ?T" "ev_recorded p \<le> env_clock E ?k" using Cons.prems(2) [OF that] by (auto simp: past_ok_def)
    have "ev_recorded p \<le> env_clock E (Suc ?k)" using p(2) mono [of ?k "Suc ?k"] by simp
    moreover have "ev_recorded p \<le> env_clock E (clock_reads eng')" using p(2) mono [OF h(3)] by simp
    ultimately show ?thesis using p(1) by (simp add: past_ok_def h(4) tracked_recordUsage)
  qed
  show ?case
  proof (cases "verdict_of E n ctx s = Execute")
    case True
    have "past_ok E ?e eng'"
      using mono [of "Suc ?k" "Suc (Suc ?k)"] tracked_recordUsage_new [of ?e]
      by (simp add: past_ok_def h(4,5) True)
    with past have "\<And>p. p \<in> set (?e # past) \<Longrightarrow> past_ok E p (fst (eng', w'))" by auto
    note IH = Cons.IH [of "?e # past" "(eng', w')", OF reps this]
    obtain meta where "m_command_metadata (fst s) n = Some meta"
      "\<not> isOnCooldown (env_clock E ?k) n ?u meta ?T" using True by (auto simp: verdict_Execute)
    then have "spaced (m_command_metadata (fst s)) p ?e" if "p \<in> set past" for p
      using Cons.prems(2) [OF that] by (intro tracked_spaced) (auto simp: past_ok_def)
    moreover have "executed ?e" using True by (simp add: executed_def)
    ultimately show ?thesis using IH inv h(1,2) by (auto simp: inv)
  next
    case False
    have "\<And>p. p \<in> set past \<Longrightarrow> past_ok E p (fst (eng', w'))" using past by simp
    note IH = Cons.IH [of past "(eng', w')", OF reps this]
    have "\<not> executed ?e" using False by (simp add: executed_def)
    then show ?thesis using IH h(1,2) by (auto simp: inv)
  qed
qed

lemma current_uses_recordUsage:
  "current_uses m (recordUsage now n u T) = (if m = n then current_uses n T + 1 else current_uses m T)"
  by (simp add: current_uses_def recordUsage_def Let_def)

lemma lua_trace_limit:
  assumes "replies_ok invs"
    and "m_command_metadata (fst s) n = Some meta" and "0 < max_uses_per_stream meta"
  shows "int (length (filter (\<lambda>e. executed e \<and> ev_name e = n) (lua_trace E invs s)))
      + current_uses n (m_cooldown_tracker (fst s))
    \<le> max (current_uses n (m_cooldown_tracker (fst s))) (max_uses_per_stream meta)"
  using assms(1,2)
proof (induction invs arbitrary: s)
  case Nil
  then show ?case by simp
next
  case (Cons inv invs)
  obtain f m ctx where inv: "inv = (f, m, ctx)" by (cases inv)
  then have rep: "reply_ok ctx" and reps: "replies_ok invs" using Cons.prems(1) by simp_all
  let ?T = "m_cooldown_tracker (fst s)"
  obtain eng' w' where h: "lua_handler E f m ctx s = (Inr (), (eng', w'))"
    "m_command_metadata eng' = m_command_metadata (fst s)"
    "m_cooldown_tracker eng' = (if verdict_of E m ctx s = Execute
       then recordUsage (env_clock E (Suc (clock_reads (fst s)))) m (msg_user (ctx_message ctx)) ?T else ?T)"
    using handler_run [OF rep, of E f m s] by metis
  have IH: "int (length (filter (\<lambda>e. executed e \<and> ev_name e = n) (lua_trace E invs (eng', w'))))
      + current_uses n (m_cooldown_tracker eng')
    \<le> max (current_uses n (m_cooldown_tracker eng')) (max_uses_per_stream meta)"
    using Cons.IH [of "(eng', w')", OF reps] Cons.prems(2) h(2) by simp
  show ?case
  proof (cases "verdict_of E m ctx s = Execute \<and> m = n")
    case True
    then have m: "m = n" and v: "verdict_of E n ctx s = Execute" by auto
    then have "current_uses n ?T < max_uses_per_stream meta"
      using Cons.prems(2) assms(3) by (auto simp: verdict_Execute)
    moreover have "current_uses n (m_cooldown_tracker eng') = current_uses n ?T + 1"
      using h(3) by (simp add: m v current_uses_recordUsage)
    ultimately show ?thesis using IH h(1) by (simp add: inv m v executed_def)
  next
    case False
    with IH show ?thesis by (auto simp: inv h current_uses_recordUsage executed_def split: if_splits)
  qed
qed

definition lua_run ::
    "('v, 'r, 't, 'f) lua_env \<Rightarrow> ('f \<times> string \<times> ('v, 'w) lua_world CommandContext) list
      \<Rightarrow> ('v, 'w) lua_world \<Rightarrow> ('v, 'w) lua_world" where
  "lua_run E invs s = fold (\<lambda>(f, n, ctx) t. snd (lua_handler E f n ctx t)) invs s"

lemma lua_run_audio:
  assumes "replies_ok invs"
  shows "audio_reached E (fst s) (fst (lua_run E invs s))"
  using assms
proof (induction invs arbitrary: s)
  case Nil
  then show ?case by (simp add: lua_run_def audio_reached_refl)
next
  case (Cons inv invs)
  obtain f n ctx where inv: "inv = (f, n, ctx)" by (cases inv)
  then have rep: "reply_ok ctx" and reps: "replies_ok invs" using Cons.prems by simp_all
  obtain eng' w' where h: "lua_handler E f n ctx s = (Inr (), (eng', w'))" "audio_reached E (fst s) eng'"
    using handler_run [OF rep, of E f n s] by metis
  have "audio_reached E eng' (fst (lua_run E invs (eng', w')))"
    using Cons.IH [of "(eng', w')", OF reps] by simp
  with h show ?case by (auto simp: lua_run_def inv intro: audio_reached_trans)
qed

section \<open>Loading and reloading\<close>

lemma alias_loop_fields:
  "m_command_metadata (alias_loop as meta path eng) n =
     (if n \<in> set as then Some meta else m_command_metadata eng n)"
  "map_of (m_command_files (alias_loop as meta path eng)) n =
     (if n \<in> set as then Some path else map_of (m_command_files eng) n)"
  "m_cooldown_tracker (alias_loop as meta path eng) = m_cooldown_tracker eng"
  "m_audio_system (alias_loop as meta path eng) = m_audio_system eng"
  "m_lua (alias_loop as meta path eng) = m_lua eng"
  "engine_initialized (alias_loop as meta path eng) = engine_initialized eng"
  by (induction as arbitrary: eng) (auto simp: update_conv')

lemma store_command_fields:
  "m_command_metadata (store_command c meta path eng) n =
     (if n \<in> set (c # meta_aliases meta) then Some meta else m_command_metadata eng n)"
  "map_of (m_command_files (store_command c meta path eng)) n =
     (if n \<in> set (c # meta_aliases meta) then Some path else map_of (m_command_files eng) n)"
  "m_cooldown_tracker (store_command c meta path eng) = m_cooldown_tracker eng"
  "m_audio_system (store_command c meta path eng) = m_audio_system eng"
  "m_lua (store_command c meta path eng) = m_lua eng"
  "engine_initialized (store_command c meta path eng) = engine_initialized eng"
  by (auto simp: store_command_def alias_loop_fields update_conv')

lemma loadLuaCommand_dom:
  "dom (m_command_metadata eng) \<subseteq> dom (m_command_metadata (snd (loadLuaCommand E path eng)))"
proof -
  have "m_command_metadata (snd (loadLuaCommand E path eng)) n \<noteq> None"
    if "m_command_metadata eng n \<noteq> None" for n
    using that by (auto simp: loadLuaCommand_def store_command_fields Let_def
        split: sum.splits bool.splits prod.splits option.splits)
  then show ?thesis by blast
qed

lemma reload_loop_dom:
  "dom (m_command_metadata eng) \<subseteq> dom (m_command_metadata (snd (reload_loop E files eng)))"
proof (induction files arbitrary: eng)
  case Nil
  then show ?case by (simp add: act_simps)
next
  case (Cons x files)
  obtain n path where x: "x = (n, path)" by (cases x)
  obtain r eng1 where l: "loadLuaCommand E path eng = (r, eng1)" by fastforce
  then have "dom (m_command_metadata eng) \<subseteq> dom (m_command_metadata eng1)"
    using loadLuaCommand_dom [of eng E path] by simp
  with Cons [of eng1] show ?case by (cases r) (simp_all add: x l act_simps)
qed

lemma register_one_dom: "dom (m_commands P) \<subseteq> dom (m_commands (snd (register_one E x (eng, P))))"
  by (auto simp: register_one_def registerCommand_def Let_def
      split: prod.splits sum.splits if_splits)

lemma register_fold_dom: "dom (m_commands (snd s)) \<subseteq> dom (m_commands (snd (fold (register_one E) files s)))"
proof (induction files arbitrary: s)
  case (Cons x files)
  have "dom (m_commands (snd s)) \<subseteq> dom (m_commands (snd (register_one E x s)))"
    using register_one_dom [of "snd s" E x "fst s"] by simp
  from subset_trans [OF this Cons] show ?case by simp
qed simp

section \<open>A small interpreter for the witnesses\<close>

text \<open>
  Every file defines the command \<open>dice\<close> with the alias \<open>d\<close>, a cooldown of five seconds and two
  uses per stream; the script replies and then tries to play two files. The state counts runs.
\<close>

definition sample_lua :: "(nat, unit, unit, unit) lua_lib" where
  "sample_lua = \<lparr>lua_open_libraries = (\<lambda>v. v), lua_bind_environment = (\<lambda>v. v),
     lua_script_file = (\<lambda>p v. (Inr (), v)), res_valid = (\<lambda>_. True), res_is_table = (\<lambda>_. True),
     res_table = (\<lambda>v r. Inr ()), tbl_valid = (\<lambda>v t k. List.member [''name'', ''execute'', ''aliases''] k),
     tbl_string = (\<lambda>v t k. Inr ''dice''), tbl_table = (\<lambda>v t k. Inr ()), tbl_function = (\<lambda>v t k. Inr ()),
     tbl_get_or_string = (\<lambda>v t k d. d),
     tbl_get_or_int = (\<lambda>v t k d. if k = ''command_cooldown'' then 5
                        else if k = ''max_uses_per_stream'' then 2 else d),
     tbl_get_or_bool = (\<lambda>v t k d. d), tbl_size = (\<lambda>v t. 1), tbl_index_valid = (\<lambda>v t i. True),
     tbl_index_string = (\<lambda>v t i. Inr ''d''), fn_valid = (\<lambda>f. True),
     fn_call = (\<lambda>f as v. LuaCall (Reply ''rolled'') (\<lambda>_. LuaCall (PlaySound ''/etc/passwd'' None)
       (\<lambda>_. LuaCall (PlaySound ''./sounds/a.mp3'' (Some 0)) (\<lambda>_. LuaReturn (v + 1)))))\<rparr>"

definition sample_env :: "(nat, unit, unit, unit) lua_env" where
  "sample_env = \<lparr>env_lua = sample_lua, env_fs = sample_fs, env_ma = sample_ma,
     env_clock = (\<lambda>i. int i * 10 ^ 10), env_hash_order = (\<lambda>xs. xs)\<rparr>"

definition sample_meta :: CommandMetadata where
  "sample_meta = \<lparr>meta_name = ''dice'', meta_description = [], meta_usage = ''!dice'',
     meta_aliases = [''d''], global_cooldown = 0, command_cooldown = 5, user_cooldown = 0,
     mod_only = False, vip_only = False, subscriber_only = False, allowed_users = [],
     meta_enabled = True, max_uses_per_stream = 2\<rparr>"

definition sample_engine :: "nat LuaCommandEngine" where
  "sample_engine = (LuaCommandEngine_new sample_env 0)
     \<lparr>engine_initialized := True, m_command_files := [(''dice'', ''dice.lua'')],
      m_command_metadata := [''dice'' \<mapsto> sample_meta]\<rparr>"

definition sample_ctx :: "(nat, string list) lua_world CommandContext" where
  "sample_ctx = CommandContext_new \<lparr>msg_user = ''ann'', msg_text = ''!dice'', msg_color = [], msg_badges = []\<rparr>
     ''dice'' [] (\<lambda>m (eng, w). (Inr (), (eng, w @ [m])))"

lemma sample_ctx_ok: "reply_ok sample_ctx"
  by (simp add: reply_ok_def sample_ctx_def CommandContext_new_def)

lemma sample_engine_fields:
  "m_command_metadata sample_engine ''dice'' = Some sample_meta"
  "m_cooldown_tracker sample_engine = CooldownTracker_new"
  "m_audio_system sample_engine = AudioSystem_new sample_ma sample_fs"
  by (simp_all add: sample_engine_def LuaCommandEngine_new_def sample_env_def)

section \<open>Properties\<close>

text \<open>
  C1: Rate limiting. In any sequence of invocations of Lua commands, whatever the scripts do,
  every two executions of scripts are separated by the cooldowns of the later command: the
  global one always, its own if both are executions of it, the user's if the user is the same
  as well. The clock is steady, and replying returns and does not change the engine.
\<close>

theorem cooldowns_separate_executions:
  assumes "\<And>i j. i \<le> j \<Longrightarrow> env_clock E i \<le> env_clock E j" and "replies_ok invs"
  shows "sorted_wrt (spaced (m_command_metadata (fst s))) (filter executed (lua_trace E invs s))"
  using lua_trace_spaced [of E invs "[]" s] assms by simp

theorem cooldowns_separate_executions_witness:
  "sorted_wrt (spaced (m_command_metadata sample_engine))
     (filter executed (lua_trace sample_env (replicate 4 ((), ''dice'', sample_ctx)) (sample_engine, [])))"
  using cooldowns_separate_executions [of sample_env "replicate 4 ((), ''dice'', sample_ctx)" "(sample_engine, [])"]
  by (simp add: sample_ctx_ok sample_env_def replies_ok_def list_all_iff)

text \<open>
  C8: The limit on uses. A command with a positive \<^verbatim>\<open>max_uses_per_stream\<close> is executed at most that
  many times in any sequence of invocations that starts with no recorded use.
\<close>

theorem usage_limit_respected:
  assumes "replies_ok invs" and "m_command_metadata (fst s) n = Some meta"
    and "0 < max_uses_per_stream meta" and "command_use_count (m_cooldown_tracker (fst s)) n = None"
  shows "int (length (filter (\<lambda>e. executed e \<and> ev_name e = n) (lua_trace E invs s))) \<le> max_uses_per_stream meta"
  using lua_trace_limit [OF assms(1-3), of E] assms(3,4) by (simp add: current_uses_def)

theorem usage_limit_respected_witness:
  "int (length (filter (\<lambda>e. executed e \<and> ev_name e = ''dice'')
     (lua_trace sample_env (replicate 4 ((), ''dice'', sample_ctx)) (sample_engine, [])))) \<le> 2"
  using usage_limit_respected [of "replicate 4 ((), ''dice'', sample_ctx)" "(sample_engine, [])" "''dice''"
      sample_meta sample_env]
  by (simp add: sample_ctx_ok replies_ok_def list_all_iff sample_engine_fields sample_meta_def CooldownTracker_new_def)

lemma played_confined:
  assumes "f \<in> played (AudioSystem_run M F ops (AudioSystem_new M F))"
  shows "fs_exists F f = Inr True \<and> (\<exists>d \<in> set default_directories. below F d (path_parent f))"
proof -
  have "playable F (m_whitelist (AudioSystem_new M F)) f"
    using assms played_run [of f M F ops "AudioSystem_new M F"]
    by (simp add: played_new)
  then show ?thesis
    by (simp add: playable_def AudioSystem_new_def DirectoryWhitelist_new_def whitelist.allowed_only_added)
qed

text \<open>
  No script, whatever methods it calls with whatever arguments, in any sequence of commands,
  makes the program start a sound that does not exist or whose directory is not inside one of
  the default sound directories.
\<close>

theorem scripts_stay_in_sandbox:
  assumes "replies_ok invs" and "m_audio_system (fst s) = AudioSystem_new (env_ma E) (env_fs E)"
    and "f \<in> played (m_audio_system (fst (lua_run E invs s)))"
  shows "fs_exists (env_fs E) f = Inr True \<and> (\<exists>d \<in> set default_directories. below (env_fs E) d (path_parent f))"
  using lua_run_audio [OF assms(1), of E s] assms(2,3) by (auto simp: audio_reached_def dest: played_confined)

lemma snd_lua_PlaySound:
  "snd (lua_method E ctx (PlaySound f v) (eng, w)) =
     (eng\<lparr>m_audio_system := snd (AudioSystem_playSound (env_ma E) (env_fs E) f
        (case v of None \<Rightarrow> 70 | Some x \<Rightarrow> x) (m_audio_system eng))\<rparr>, w)"
  by (simp add: lua_playSound_def act_simps Let_def split: prod.splits sum.splits)

lemma sample_run_audio:
  "m_audio_system (fst (lua_run sample_env [((), ''dice'', sample_ctx)] (sample_engine, []))) =
     AudioSystem_run sample_ma sample_fs [OpPlay ''/etc/passwd'' 70, OpPlay ''./sounds/a.mp3'' 0]
       (AudioSystem_new sample_ma sample_fs)"
proof -
  have "hasPermission sample_ctx sample_meta" by (simp add: hasPermission_def sample_meta_def)
  moreover have "\<not> isOnCooldown (env_clock sample_env n) ''dice'' u sample_meta CooldownTracker_new" for n u
    by (simp add: isOnCooldown_def sample_meta_def CooldownTracker_new_def)
  moreover have "current_uses ''dice'' CooldownTracker_new < max_uses_per_stream sample_meta"
    by (simp add: current_uses_def CooldownTracker_new_def sample_meta_def)
  ultimately have "check_command sample_env ''dice'' sample_ctx (sample_engine, []) =
      (Inr Execute, (sample_engine\<lparr>clock_reads := Suc (clock_reads sample_engine)\<rparr>, []))"
    by (simp add: check_command_eq sample_engine_fields sample_meta_def)
  then show ?thesis
    by (simp add: lua_run_def lua_handler_def run_command_def executeLuaCommand_def act_simps
        sample_env_def sample_lua_def sample_ctx_def CommandContext_new_def snd_lua_PlaySound
        steady_now_def sample_engine_fields AudioSystem_run_def Let_def
        del: lua_method.simps(16))
qed

theorem scripts_stay_in_sandbox_witness:
  "fs_exists (env_fs sample_env) ''./sounds/a.mp3'' = Inr True \<and>
   (\<exists>d \<in> set default_directories. below (env_fs sample_env) d (path_parent ''./sounds/a.mp3''))"
proof (rule scripts_stay_in_sandbox)
  show "''./sounds/a.mp3'' \<in> played (m_audio_system
      (fst (lua_run sample_env [((), ''dice'', sample_ctx)] (sample_engine, []))))"
    unfolding sample_run_audio by (rule sample_played)
qed (simp_all add: sample_ctx_ok sample_engine_fields sample_env_def)

text \<open>
  C15: Permissions form a hierarchy. A user may run a command exactly if they are on its list of
  allowed users or the highest of their badges reaches the highest role the command requires,
  where broadcaster and moderator stand above VIP, VIP above subscriber, and subscriber above
  everybody.
\<close>

theorem permission_is_by_rank:
  "hasPermission ctx meta \<longleftrightarrow>
     msg_user (ctx_message ctx) \<in> set (allowed_users meta) \<or>
     required_rank meta \<le> badge_rank (msg_badges (ctx_message ctx))"
proof -
  have "3 \<le> r \<Longrightarrow> 2 \<le> r" "2 \<le> r \<Longrightarrow> 1 \<le> r" for r :: nat by simp_all
  then show ?thesis
    by (auto simp: hasPermission_def required_rank_def roles_by_rank)
qed

text \<open>
  C19: A refused command runs nothing. The handler never throws, and unless all its guards let
  the command pass, the interpreter, the audio system, the cooldowns, the counters and the
  loaded commands are the same afterwards.
\<close>

theorem refused_command_runs_nothing:
  assumes "reply_ok ctx"
  shows "\<exists>eng' w'. lua_handler E f n ctx s = (Inr (), (eng', w')) \<and>
    (verdict_of E n ctx s \<noteq> Execute \<longrightarrow> eng'\<lparr>clock_reads := 0\<rparr> = (fst s)\<lparr>clock_reads := 0\<rparr>)"
proof (cases "verdict_of E n ctx s = Execute")
  case True
  then show ?thesis using handler_run [OF assms, of E f n s] by metis
next
  case False
  obtain v k where c: "check_command E n ctx s = (Inr v, ((fst s)\<lparr>clock_reads := k\<rparr>, snd s))"
    using check_command_run by blast
  with False have "v \<noteq> Execute" by (simp add: verdict_of_def)
  then have "\<exists>w2. run_command E f n ctx v ((fst s)\<lparr>clock_reads := k\<rparr>, snd s) = (Inr (), ((fst s)\<lparr>clock_reads := k\<rparr>, w2))"
    using assms by (cases v) (auto simp: run_command_def act_simps reply_ok_def)
  with c show ?thesis by (auto simp: lua_handler_def act_simps)
qed

theorem refused_command_runs_nothing_witness:
  "\<exists>eng' w'. lua_handler sample_env () ''unknown'' sample_ctx (sample_engine, []) = (Inr (), (eng', w')) \<and>
     eng'\<lparr>clock_reads := 0\<rparr> = sample_engine\<lparr>clock_reads := 0\<rparr>"
proof -
  have "verdict_of sample_env ''unknown'' sample_ctx (sample_engine, []) \<noteq> Execute"
    by (simp add: verdict_Execute sample_engine_def)
  then show ?thesis
    using refused_command_runs_nothing [OF sample_ctx_ok, of sample_env "()" "''unknown''" "(sample_engine, [])"]
    by auto
qed

text \<open>
  Cooldowns and counters are kept per registered name, and an alias is a name of its own: a
  use recorded under one name changes neither the cooldown state nor the use count seen by
  another name of the same command, so each alias has the full limit again.
\<close>

theorem alias_has_its_own_limits:
  assumes "other \<noteq> n" and "global_cooldown meta = 0"
  shows "isOnCooldown now other user meta (recordUsage t n user' T) = isOnCooldown now other user meta T \<and>
    current_uses other (recordUsage t n user' T) = current_uses other T"
  using assms by (simp add: isOnCooldown_def recordUsage_def current_uses_def Let_def)

theorem alias_has_its_own_limits_witness:
  "current_uses ''d'' (recordUsage 7 ''dice'' ''ann'' (recordUsage 1 ''dice'' ''ann'' CooldownTracker_new)) =
     current_uses ''d'' (recordUsage 1 ''dice'' ''ann'' CooldownTracker_new)"
  using alias_has_its_own_limits [of "''d''" "''dice''" sample_meta 8 "''ann''" 7 "''ann''"
      "recordUsage 1 ''dice'' ''ann'' CooldownTracker_new"]
  by (simp add: sample_meta_def)

text \<open>
  What loading a script does in each case. If the file system throws, nothing changed; if
  the file is rejected, only the interpreter's state may have changed; if it is accepted,
  exactly the name and the aliases of the command now map to the file and to its metadata, and
  the cooldowns and the audio system are unchanged.
\<close>

theorem loadLuaCommand_effect:
  "case loadLuaCommand E path eng of
     (Inl e, eng') \<Rightarrow> eng' = eng \<and> fs_exists (env_fs E) path = Inl e
   | (Inr False, eng') \<Rightarrow> eng' = eng\<lparr>m_lua := m_lua eng'\<rparr>
   | (Inr True, eng') \<Rightarrow>
       \<exists>name meta. name \<noteq> [] \<and> engine_initialized eng \<and> fs_exists (env_fs E) path = Inr True \<and>
         m_command_metadata eng' = (\<lambda>n. if n \<in> set (name # meta_aliases meta) then Some meta
                                        else m_command_metadata eng n) \<and>
         map_of (m_command_files eng') = (\<lambda>n. if n \<in> set (name # meta_aliases meta) then Some path
                                              else map_of (m_command_files eng) n) \<and>
         m_cooldown_tracker eng' = m_cooldown_tracker eng \<and> m_audio_system eng' = m_audio_system eng"
proof -
  have name: "c \<noteq> []" if "bindE r (read_command L v) = Inr (Some (c, meta))" for r L and v :: 'a and c meta
    using that by (auto simp: read_command_def bindE_Inr split: if_splits)
  show ?thesis
    by (auto simp: loadLuaCommand_def store_command_fields fun_eq_iff Let_def dest!: name
        split: sum.splits bool.splits prod.splits option.splits)
qed

text \<open>
  Reloading never forgets a command. Every command with metadata still has metadata after
  \<open>reloadAllCommands\<close>, and every registered handler name is still registered after
  \<open>registerWithParser\<close>, also where the script has been deleted or no longer loads.
\<close>

theorem reload_never_forgets:
  "dom (m_command_metadata eng) \<subseteq> dom (m_command_metadata (snd (reloadAllCommands E eng))) \<and>
   dom (m_commands P) \<subseteq> dom (m_commands (snd (registerWithParser E (snd (reloadAllCommands E eng), P))))"
  using reload_loop_dom [of "eng\<lparr>m_command_files := []\<rparr>" E "env_hash_order E (m_command_files eng)"]
    register_fold_dom [of "(snd (reloadAllCommands E eng), P)" E]
  by (simp add: reloadAllCommands_def registerWithParser_def Let_def)

end
