(* ===== verification/Application.thy ===== *)
theory Application
  imports Logging Ui_Frames Service_Safety Obs_Service Lua_Guards
begin

text \<open>
  \<^verbatim>\<open>include/seraphbot/application.hpp\<close>, \<^verbatim>\<open>src/application.cpp\<close> and \<^verbatim>\<open>src/main.cpp\<close>: the objects of
  the program, the callbacks that connect the Twitch service with the chat log and the commands,
  the native commands, the frame loop, and \<open>main\<close>.

  The Lua engine works on its own object and, through replies, on the rest of the world: the
  engine is taken out of the world while a handler runs and put back afterwards.
\<close>

section \<open>Callbacks and commands\<close>

type_synonym ('v, 'f) commands = "'v LuaCommandEngine \<times> 'f handler CommandParser"
type_synonym ('v, 'f) app_tw = "(AppState \<times> ('v, 'f) commands) tw_world"
type_synonym ('v, 'f) app_lua = "('v, ('v, 'f) app_tw io) lua_world"

definition engine_of :: "('v, 'f) app_tw \<Rightarrow> 'v LuaCommandEngine" where
  "engine_of W = fst (snd (tw_app W))"

definition parser_of :: "('v, 'f) app_tw \<Rightarrow> 'f handler CommandParser" where
  "parser_of W = snd (snd (tw_app W))"

definition put_engine :: "'v LuaCommandEngine \<Rightarrow> ('v, 'f) app_tw \<Rightarrow> ('v, 'f) app_tw" where
  "put_engine eng W = W\<lparr>tw_app := (fst (tw_app W), (eng, parser_of W))\<rparr>"

definition put_parser :: "'f handler CommandParser \<Rightarrow> ('v, 'f) app_tw \<Rightarrow> ('v, 'f) app_tw" where
  "put_parser P W = W\<lparr>tw_app := (fst (tw_app W), (engine_of W, P))\<rparr>"

definition with_engine :: "(('v, 'f) app_lua, 'r) act \<Rightarrow> (('v, 'f) app_tw io, 'r) act" where
  "with_engine m = (\<lambda>(tr, W).
     case m (engine_of W, (tr, W)) of (r, (eng, (tr', W'))) \<Rightarrow> (r, (tr', put_engine eng W')))"

text \<open>\<open>reply_fn\<close>.\<close>

definition app_reply :: "string \<Rightarrow> (('v, 'f) app_lua, unit) act" where
  "app_reply text = (\<lambda>(eng, (tr, W)). (Inr (), (eng, (tr, TwitchService_sendMessage text W))))"

definition reload_handler ::
    "('v, 'r, 't, 'f) lua_env \<Rightarrow> ('v, 'f) app_lua CommandContext \<Rightarrow> (('v, 'f) app_lua, unit) act" where
  "reload_handler E ctx =
     thenA (ctx_reply ctx ''Reloading Lua commands...'') (
     thenA (\<lambda>(eng, s). let (r, eng') = reloadAllCommands E eng in (r, (eng', s))) (
     thenA (modifyA (\<lambda>(eng, (tr, W)).
              let (eng', P) = registerWithParser E (eng, parser_of W) in (eng', (tr, put_parser P W))))
       (ctx_reply ctx ''Lua commands reloaded!'')))"

definition commands_handler ::
    "('v, 'r, 't, 'f) lua_env \<Rightarrow> ('v, 'f) app_lua CommandContext \<Rightarrow> (('v, 'f) app_lua, unit) act" where
  "commands_handler E ctx =
     bindA (getsA (\<lambda>(eng, s). getLoadedCommands E eng)) (\<lambda>loaded_commands.
       if loaded_commands = [] then ctx_reply ctx ''No Lua commands loaded''
       else ctx_reply ctx (sep_loop '', '' 0 0 loaded_commands ''Loaded commands: ''))"

definition invoke ::
    "('v, 'r, 't, 'f) lua_env \<Rightarrow> 'f handler \<Rightarrow> ('v, 'f) app_lua CommandContext \<Rightarrow> (('v, 'f) app_lua, unit) act" where
  "invoke E h ctx =
     (case h of
        LuaHandler f n \<Rightarrow> lua_handler E f n ctx
      | ReloadHandler \<Rightarrow> reload_handler E ctx
      | CommandsHandler \<Rightarrow> commands_handler E ctx)"

definition push_message :: "ChatMessage \<Rightarrow> ('v, 'f) app_tw \<Rightarrow> ('v, 'f) app_tw" where
  "push_message msg W = W\<lparr>tw_app := (pushChatMessage msg (fst (tw_app W)), snd (tw_app W))\<rparr>"

definition app_message :: "('v, 'r, 't, 'f) lua_env \<Rightarrow> ChatMessage \<Rightarrow> (('v, 'f) app_tw io, unit) act" where
  "app_message E msg =
     thenA (modify_obj (push_message msg)) (
     bindA get_obj (\<lambda>W.
     bindA (with_engine (parseAndExecute (invoke E) (parser_of W) msg app_reply)) (\<lambda>handled. ret ())))"

definition app_status :: "string \<Rightarrow> AppState \<times> ('v, 'f) commands \<Rightarrow> AppState \<times> ('v, 'f) commands" where
  "app_status status = (\<lambda>(st, x). (set_last_status status st, x))"

text \<open>\<open>setupCallbacks\<close> gives the service these two.\<close>

definition app_callbacks :: "('v, 'r, 't, 'f) lua_env \<Rightarrow> ('v, 'f) commands callbacks" where
  "app_callbacks E = \<lparr>on_message = app_message E, on_status = app_status\<rparr>"

section \<open>Initialisation\<close>

record ('v, 'f) Application =
  m_thread_count :: nat
  m_cfg :: ClientConfig
  m_conn :: "ConnectionManager option"
  m_app_state :: "AppState option"
  m_command_parser :: "'f handler CommandParser option"
  m_command_engine :: "'v LuaCommandEngine option"
  m_tw_service :: "TwitchService option"
  m_disc_not :: "Notifications option"
  m_obs :: "OBSService option"
  m_auth_vm :: "State option"
  m_discord_vm :: "(string \<times> string) option"
  m_chat_vm :: bool

definition Application_threads :: "nat \<Rightarrow> ('v, 'f) Application" where
  "Application_threads thread_count =
     \<lparr>m_thread_count = thread_count, m_cfg = ClientConfig_default, m_conn = None, m_app_state = None,
      m_command_parser = None, m_command_engine = None, m_tw_service = None, m_disc_not = None, m_obs = None,
      m_auth_vm = None, m_discord_vm = None, m_chat_vm = False\<rparr>"

definition Application_new :: "('v, 'f) Application" where
  "Application_new = Application_threads 3"

definition initializeServices ::
    "('v, 'r, 't, 'f) lua_env \<Rightarrow> 'v \<Rightarrow> ('v, 'f) Application \<Rightarrow> ('v, 'f) Application" where
  "initializeServices E v A =
     A\<lparr>m_conn := Some (ConnectionManager_new (m_thread_count A)),
       m_app_state := Some AppState_new,
       m_command_parser := Some CommandParser_new,
       m_command_engine := Some (LuaCommandEngine_new E v),
       m_tw_service := Some (TwitchService_new (m_cfg A))\<rparr>"

definition initializeDiscord :: "('v, 'f) Application \<Rightarrow> ('v, 'f) Application" where
  "initializeDiscord A =
     A\<lparr>m_disc_not := Some (Notifications_new (m_cfg A)), m_obs := Some (OBSService_new ''testpassword'')\<rparr>"

definition initializeViewmodels :: "('v, 'f) Application \<Rightarrow> ('v, 'f) Application" where
  "initializeViewmodels A =
     A\<lparr>m_auth_vm := Some Disconnected,
       m_discord_vm := Some (replicate 512 (CHR 0x00), replicate 512 (CHR 0x00)),
       m_chat_vm := True\<rparr>"

text \<open>
  The view models and the manager refer to the objects made so far. From here on the program works
  on these objects together: the world of the theory \<^verbatim>\<open>Ui\<close>.
\<close>

definition app_world :: "('v, 'f) Application \<Rightarrow> ('v, 'f) commands ui_world" where
  "app_world A =
     \<lparr>m_window = False, m_context = False, m_backend = False, m_message_input = [],
      auth_vm_state = the (m_auth_vm A), vm_webhook_url = fst (the (m_discord_vm A)),
      vm_notification_text = snd (the (m_discord_vm A)),
      ui_tw = \<lparr>tw_service = the (m_tw_service A), tw_objects = [], tw_tasks = [],
        tw_app = (the (m_app_state A), (the (m_command_engine A), the (m_command_parser A)))\<rparr>,
      ui_notifications = the (m_disc_not A), ui_discord_tasks = []\<rparr>"

definition initializeUi :: "ui_env \<Rightarrow> ('x ui_world uio, unit) act" where
  "initializeUi U = ImGuiManager_init U"

definition setupCallbacks :: "'x ui_world \<Rightarrow> 'x ui_world" where
  "setupCallbacks = update_tw (\<lambda>W. setStatusCallback (setMessageCallback W))"

definition Application_initialize ::
    "('v, 'r, 't, 'f) lua_env \<Rightarrow> ui_env \<Rightarrow> 'v \<Rightarrow> ('v, 'f) Application \<Rightarrow> (exn + bool) \<times> ('v, 'f) commands ui_world uio" where
  "Application_initialize E U v A =
     (let A' = initializeViewmodels (initializeDiscord (initializeServices E v A))
      in thenA (initializeUi U) (thenA (ui_modify setupCallbacks) (ret True)) ([], app_world A'))"

section \<open>The frame loop and \<open>main\<close>\<close>

text \<open>
  \<^verbatim>\<open>std::filesystem::create_directories\<close> is the parameter \<open>mkdirs\<close>. A command that the scripts and
  the program both define is the program's: it is registered last.
\<close>

definition on_engine :: "('v LuaCommandEngine, 'r) act \<Rightarrow> (('v, 'f) commands ui_world uio, 'r) act" where
  "on_engine m = (\<lambda>(tr, X). case m (engine_of (ui_tw X)) of (r, eng) \<Rightarrow> (r, (tr, update_tw (put_engine eng) X)))"

definition register_scripts ::
    "('v, 'r, 't, 'f) lua_env \<Rightarrow> ('v, 'f) commands ui_world \<Rightarrow> ('v, 'f) commands ui_world" where
  "register_scripts E X =
     (let (eng, P) = registerWithParser E (engine_of (ui_tw X), parser_of (ui_tw X))
      in update_tw (\<lambda>W. put_parser P (put_engine eng W)) X)"

definition register_native :: "('v, 'f) commands ui_world \<Rightarrow> ('v, 'f) commands ui_world" where
  "register_native =
     update_tw (\<lambda>W. put_parser (registerCommand ''commands'' (Some CommandsHandler)
       (registerCommand ''reload'' (Some ReloadHandler) (parser_of W))) W)"

definition run_setup ::
    "('v, 'r, 't, 'f) lua_env \<Rightarrow> (string \<Rightarrow> exn + bool) \<Rightarrow> (('v, 'f) commands ui_world uio, unit) act" where
  "run_setup E mkdirs =
     thenA (on_engine (modifyA (LuaCommandEngine_initialize E))) (
     bindA (lift (fs_exists (env_fs E) ''commands'')) (\<lambda>exists.
     thenA
       (if exists then bindA (on_engine (loadCommandsFromDirectory E ''commands'')) (\<lambda>loaded. ret ())
        else bindA (lift (mkdirs ''commands'')) (\<lambda>created. ret ())) (
     thenA (ui_modify (register_scripts E)) (ui_modify register_native))))"

definition frame :: "ui_env \<Rightarrow> 'x callbacks \<Rightarrow> ('x ui_world uio, unit) act" where
  "frame U C =
     thenA poll (
     thenA beginFrame (
     thenA (manageDocking U) (
     thenA manageFloating (
     thenA (manageAuth U C) (
     thenA (manageDiscord U) (
     thenA (manageChat U) (
     thenA endFrame (
     thenA render swapBuffers))))))))"

text \<open>The loop, for at most a number of frames; \<open>None\<close> if it has not ended by then.\<close>

fun frame_loop :: "nat \<Rightarrow> ui_env \<Rightarrow> 'x callbacks \<Rightarrow> ('x ui_world uio, int option) act" where
  "frame_loop 0 U C = ret None"
| "frame_loop (Suc n) U C =
     bindA (shouldClose U) (\<lambda>close.
       if close then ret (Some 0) else thenA (frame U C) (frame_loop n U C))"

definition Application_run ::
    "('v, 'r, 't, 'f) lua_env \<Rightarrow> ui_env \<Rightarrow> (string \<Rightarrow> exn + bool) \<Rightarrow> nat
      \<Rightarrow> (('v, 'f) commands ui_world uio, int option) act" where
  "Application_run E U mkdirs n = thenA (run_setup E mkdirs) (frame_loop n U (app_callbacks E))"

definition Application_shutdown ::
    "('v, 'f) Application \<Rightarrow> ('x ui_world uio, ('v, 'f) Application) act" where
  "Application_shutdown A =
     thenA ImGuiManager_dtor (ret (A\<lparr>m_tw_service := None, m_app_state := None, m_conn := None\<rparr>))"

text \<open>
  \<open>main\<close> catches \<^verbatim>\<open>std::runtime_error\<close>, which \<^verbatim>\<open>system_error\<close> is one of; any other exception
  leaves it and ends the program.
\<close>

datatype outcome = Exit int | Terminated exn | Running

fun is_runtime_error :: "exn \<Rightarrow> bool" where
  "is_runtime_error (SystemError c w) = True"
| "is_runtime_error (RuntimeError w) = True"
| "is_runtime_error (OtherException w) = False"

definition main_logger :: Logger where
  "main_logger = Logger_trace ''Check'' (pushContext ''Main'' (setLevel Trace (Logger_init Config_default Logger_new)))"

definition main_catch :: "exn \<Rightarrow> outcome" where
  "main_catch err = (if is_runtime_error err then Exit 0 else Terminated err)"

definition main ::
    "('v, 'r, 't, 'f) lua_env \<Rightarrow> ui_env \<Rightarrow> (string \<Rightarrow> exn + bool) \<Rightarrow> 'v \<Rightarrow> nat \<Rightarrow> outcome" where
  "main E U mkdirs v n =
     (case Application_initialize E U v Application_new of
        (Inl err, s) \<Rightarrow> main_catch err
      | (Inr initialized, s) \<Rightarrow>
          if \<not> initialized then Exit (- 1)
          else case Application_run E U mkdirs n s of
                 (Inl err, s') \<Rightarrow> main_catch err
               | (Inr None, s') \<Rightarrow> Running
               | (Inr (Some code), s') \<Rightarrow> Exit code)"

section \<open>What scripts may change\<close>

text \<open>All that a call replies has the property \<open>Q\<close>.\<close>

primrec says :: "(string \<Rightarrow> bool) \<Rightarrow> 'v lua_behaviour \<Rightarrow> bool" where
  "says Q (LuaReturn v) \<longleftrightarrow> True"
| "says Q (LuaError err v) \<longleftrightarrow> True"
| "says Q (LuaThrow err v) \<longleftrightarrow> True"
| "says Q (LuaCall a k) \<longleftrightarrow> (case a of Reply text \<Rightarrow> Q text | _ \<Rightarrow> True) \<and> (\<forall>r. says Q (k r))"

lemma says_anything: "says (\<lambda>_. True) b"
  by (induction b) (simp_all split: lua_api.split)

text \<open>What the engine says itself.\<close>

definition engine_texts :: "string list" where
  "engine_texts =
     [''Command configuration error'', ''You don'' @ [CHR 0x27] @ ''t have permission to use this command.'',
      ''Command is on cooldown.'', ''Command has reached its usage limit for this stream.'',
      ''Command error occured - check logs'', ''Command execution failed'']"

text \<open>
  A relation that holds for what scripts and handlers do to the engine themselves, and for their
  replies, holds for a whole command.
\<close>

locale script_order = state_order R
  for R :: "('v, 'w) lua_world \<Rightarrow> ('v, 'w) lua_world \<Rightarrow> bool" +
  fixes E :: "('v, 'r, 't, 'f) lua_env"
  assumes lua_state: "R (eng, w) (eng\<lparr>m_lua := v\<rparr>, w)"
    and clock_read: "R (eng, w) (eng\<lparr>clock_reads := k\<rparr>, w)"
    and usage: "R (eng, w) (eng\<lparr>m_cooldown_tracker := T\<rparr>, w)"
    and sound: "relA R (lua_playSound E path vol)"
begin

lemma method_rel:
  assumes "\<And>text. a = Reply text \<Longrightarrow> relA R (ctx_reply ctx text)"
  shows "relA R (lua_method E ctx a)"
proof (cases a)
  case (Reply message)
  show ?thesis unfolding Reply lua_method.simps by (intro rel_rules assms Reply)
next
  case (PlaySound path vol)
  show ?thesis unfolding PlaySound lua_method.simps by (intro rel_rules sound)
qed (simp_all add: rel_rules, simp_all add: relA_def state_refl)

lemma exec_rel:
  assumes "\<And>text. Q text \<Longrightarrow> relA R (ctx_reply ctx text)" and "says Q b"
  shows "relA R (lua_exec E ctx b)"
  using assms(2)
proof (induction b)
  case (LuaCall a k)
  have m: "relA R (lua_method E ctx a)" by (rule method_rel) (use LuaCall.prems assms(1) in auto)
  have "relA R (lua_exec E ctx (k r))" for r using LuaCall by simp
  with m show ?case unfolding relA_def lua_exec.simps by (blast intro: state_trans)
qed (auto simp: relA_def lua_state)

lemma clock_rel: "relA R (steady_now E)"
  by (auto simp: relA_def steady_now_def clock_read)

lemma handler_says_rel:
  assumes q: "\<And>text. Q text \<Longrightarrow> relA R (ctx_reply ctx text)" and e: "list_all Q engine_texts"
    and s: "\<And>v. says Q (fn_call (env_lua E) f (ctx_args ctx) v)"
  shows "relA R (lua_handler E f n ctx)"
proof -
  have t: "t \<in> set engine_texts \<Longrightarrow> relA R (ctx_reply ctx t)" for t using e q by (auto simp: list_all_iff)
  note r = t [unfolded engine_texts_def, simplified]
  have x: "relA R (\<lambda>s. lua_exec E ctx (fn_call (env_lua E) f (ctx_args ctx) (m_lua (fst s))) s)"
    using exec_rel [OF q s] unfolding relA_def by blast
  have e: "relA R (executeLuaCommand E f ctx)"
    unfolding executeLuaCommand_def by (intro rel_rules x) (simp_all add: r)
  have "relA R (check_command E n ctx)"
    unfolding check_command_def by (intro rel_rules clock_rel)
  moreover have "relA R (run_command E f n ctx v)" for v
  proof (cases v)
    case Execute
    then show ?thesis
      unfolding run_command_def
      by (simp, intro rel_rules e clock_rel rel_modifyA) (simp add: case_prod_beta, metis usage prod.collapse)
  qed (simp_all add: run_command_def rel_rules r)
  ultimately show ?thesis unfolding lua_handler_def by (intro rel_rules)
qed

lemma handler_rel: "(\<And>text. relA R (ctx_reply ctx text)) \<Longrightarrow> relA R (lua_handler E f n ctx)"
  by (rule handler_says_rel [of "\<lambda>_. True"]) (simp_all add: says_anything list_all_iff)

end

section \<open>The callback only sends\<close>

text \<open>
  Handlers change the world outside the engine and the parser in one way: they send messages. So
  the callback keeps the contract that the service relies on.
\<close>

definition lua_only :: "('v, 'f) app_lua \<Rightarrow> ('v, 'f) app_lua \<Rightarrow> bool" where
  "lua_only s s' \<longleftrightarrow> only_sends (snd s) (snd s') \<and> fst (tw_app (snd (snd s'))) = fst (tw_app (snd (snd s)))"

abbreviation lua_sends :: "(('v, 'f) app_lua, 'r) act \<Rightarrow> bool" where
  "lua_sends m \<equiv> relA lua_only m"

interpretation lua_sending: state_order lua_only
  by unfold_locales (auto simp: lua_only_def intro: only_sends_trans)

lemmas lua_rules = lua_sending.rel_rules

lemma lua_only_engine: "lua_only (eng, s) (eng', s)"
  by (simp add: lua_only_def)

definition replies :: "('v, 'f) app_lua CommandContext \<Rightarrow> bool" where
  "replies ctx \<longleftrightarrow> (\<forall>text. lua_sends (ctx_reply ctx text))"

lemma app_reply_sends: "lua_sends (app_reply text)"
  by (auto simp: relA_def app_reply_def lua_only_def only_sends_sendMessage)
    (simp add: TwitchService_sendMessage_def co_spawn_def)

interpretation lua_scripts: script_order lua_only E for E
  by unfold_locales (auto simp: lua_only_engine relA_def lua_playSound_def Let_def split: prod.splits)

lemma lua_handler_sends: "replies ctx \<Longrightarrow> lua_sends (lua_handler E f n ctx)"
  by (rule lua_scripts.handler_rel) (simp add: replies_def)

lemma invoke_sends:
  assumes "replies ctx"
  shows "lua_sends (invoke E h ctx)"
proof -
  have r: "lua_sends (ctx_reply ctx t)" for t using assms by (simp add: replies_def)
  have "lua_sends (\<lambda>(eng, s). let (r, eng') = reloadAllCommands E eng in (r, (eng', s)))"
    by (auto simp: relA_def lua_only_engine split: prod.splits)
  moreover have "lua_sends (modifyA (\<lambda>(eng, (tr, W)).
      let (eng', P) = registerWithParser E (eng, parser_of W) in (eng', (tr, put_parser P W))))"
    by (auto simp: relA_def act_simps put_parser_def lua_only_def split: prod.splits)
  ultimately have "lua_sends (reload_handler E ctx)"
    unfolding reload_handler_def by (intro lua_rules r)
  moreover have "lua_sends (commands_handler E ctx)"
    unfolding commands_handler_def by (intro lua_rules r)
  ultimately show ?thesis
    using lua_handler_sends [OF assms] by (cases h) (simp_all add: invoke_def)
qed

lemma parse_sends: "lua_sends (parseAndExecute (invoke E) P msg app_reply)"
proof -
  have "replies (CommandContext_new msg cmd args app_reply)" for cmd args
    by (simp add: replies_def CommandContext_new_def app_reply_sends)
  then show ?thesis
    unfolding parseAndExecute_def Let_def case_prod_beta by (intro lua_rules invoke_sends)
qed

lemma with_engine_sends:
  assumes "lua_sends m"
  shows "only_sends (tr, W) (snd (with_engine m (tr, W)))"
    and "fst (tw_app (snd (snd (with_engine m (tr, W))))) = fst (tw_app W)"
proof -
  obtain r eng tr' W' where m: "m (engine_of W, (tr, W)) = (r, (eng, (tr', W')))" by (metis prod.collapse)
  then have "lua_only (engine_of W, (tr, W)) (eng, (tr', W'))" using assms unfolding relA_def by (metis snd_conv)
  then have s: "only_sends (tr, W) (tr', W')" "fst (tw_app W') = fst (tw_app W)" by (simp_all add: lua_only_def)
  from s(1) have "only_sends (tr, W) (tr', put_engine eng W')"
    by (rule only_sends_trans) (simp add: put_engine_def)
  with s(2) show "only_sends (tr, W) (snd (with_engine m (tr, W)))"
    "fst (tw_app (snd (snd (with_engine m (tr, W))))) = fst (tw_app W)"
    by (simp_all add: with_engine_def m put_engine_def)
qed

lemma parse_returns: "\<exists>b s'. parseAndExecute invk P msg rep s = (Inr b, s')"
  by (auto simp: parseAndExecute_def act_simps Let_def split: prod.splits option.splits sum.splits)

lemma app_message_run:
  "\<exists>W'. app_message E msg (tr, W) = (Inr (), (tr, W')) \<and> only_sends (tr, push_message msg W) (tr, W') \<and>
     fst (tw_app W') = pushChatMessage msg (fst (tw_app W))"
proof -
  let ?P = "push_message msg W"
  let ?m = "parseAndExecute (invoke E) (parser_of ?P) msg app_reply"
  obtain b eng tr' W' where "?m (engine_of ?P, (tr, ?P)) = (Inr b, (eng, (tr', W')))"
    using parse_returns by (metis prod.collapse)
  then have w: "with_engine ?m (tr, ?P) = (Inr b, (tr', put_engine eng W'))" by (simp add: with_engine_def)
  have "lua_sends ?m" by (rule parse_sends)
  from with_engine_sends [OF this, of tr ?P] w
  have o: "only_sends (tr, ?P) (tr', put_engine eng W')" "fst (tw_app (put_engine eng W')) = fst (tw_app ?P)" by simp_all
  then have "tr' = tr" by (simp add: only_sends_def)
  with w o show ?thesis by (simp add: app_message_def act_simps push_message_def)
qed

lemma app_message_sends: "sends (app_message E msg)"
  unfolding relA_def
proof
  fix s :: "('a, 'b) app_tw io"
  obtain tr W where s: "s = (tr, W)" by (cases s)
  obtain W' where W': "app_message E msg (tr, W) = (Inr (), (tr, W'))" "only_sends (tr, push_message msg W) (tr, W')"
    using app_message_run [of E msg tr W] by blast
  have "only_sends (tr, W) (tr, push_message msg W)" by (simp add: push_message_def)
  from only_sends_trans [OF this W'(2)] W'(1) show "only_sends s (snd (app_message E msg s))" by (simp add: s)
qed

interpretation app: message_callback "app_callbacks E" for E
  by unfold_locales (simp add: app_callbacks_def app_message_sends)

section \<open>Properties\<close>

text \<open>
  C21: From the service to the application. Whatever the text, the scripts and the state, the message
  callback returns; the message is queued for the chat window exactly once and nothing else of the
  shared application state changes; and all that happens to the service is that replies are queued
  behind the tasks there are, and only while messages can be sent.
\<close>

theorem message_is_queued_and_answered:
  "\<exists>W' ms. app_message E msg (tr, W) = (Inr (), (tr, W')) \<and>
     fst (tw_app W') = pushChatMessage msg (fst (tw_app W)) \<and>
     tw_service W' = tw_service W \<and> tw_objects W' = tw_objects W \<and>
     tw_tasks W' = tw_tasks W @ map SendTask ms \<and> (ms = [] \<or> canSendMessages W)"
proof -
  obtain W' where W': "app_message E msg (tr, W) = (Inr (), (tr, W'))" "only_sends (tr, push_message msg W) (tr, W')"
    "fst (tw_app W') = pushChatMessage msg (fst (tw_app W))" using app_message_run [of E msg tr W] by blast
  then obtain ms where "tw_service W' = tw_service W" "tw_objects W' = tw_objects W"
    "tw_tasks W' = tw_tasks W @ map SendTask ms" "ms = [] \<or> canSendMessages (push_message msg W)"
    by (auto simp: only_sends_def push_message_def)
  with W' show ?thesis by (intro exI [of _ W'] exI [of _ ms]) (simp add: push_message_def canSendMessages_def)
qed

lemma register_native_lookup:
  "parser_lookup (parser_of (ui_tw (register_native X))) k =
     (if transform_tolower k = ''commands'' then Some CommandsHandler
      else if transform_tolower k = ''reload'' then Some ReloadHandler
      else parser_lookup (parser_of (ui_tw X)) k)"
proof -
  have "transform_tolower ''commands'' = ''commands''" "transform_tolower ''reload'' = ''reload''"
    by (simp_all add: transform_tolower_def tolower_def)
  then show ?thesis
    by (simp add: register_native_def update_tw_def parser_of_def put_parser_def parser_registry.lookup_register)
qed

text \<open>
  The program's own commands are there. When the set-up of \<open>run\<close> returns, \<open>reload\<close> and
  \<open>commands\<close> are bound to the program's handlers, also when scripts define commands of these names.
\<close>

theorem native_commands_bound:
  assumes "run_setup E mkdirs (tr, X) = (Inr (), (tr', X'))"
  shows "parser_lookup (parser_of (ui_tw X')) ''reload'' = Some ReloadHandler \<and>
    parser_lookup (parser_of (ui_tw X')) ''commands'' = Some CommandsHandler"
proof -
  obtain Y where "X' = register_native Y"
    using assms by (auto simp: run_setup_def act_simps split: prod.splits sum.splits)
  then show ?thesis by (simp add: register_native_lookup transform_tolower_def tolower_def)
qed

theorem native_commands_bound_witness:
  "\<exists>X'. snd (snd (run_setup sample_env (\<lambda>p. Inr True) ([], app_world (initializeServices sample_env 0 Application_new)))) = X' \<and>
    parser_lookup (parser_of (ui_tw X')) ''reload'' = Some ReloadHandler"
proof -
  let ?X = "app_world (initializeServices sample_env 0 Application_new)"
  have "fst (run_setup sample_env (\<lambda>p. Inr True) ([], ?X)) = Inr ()"
    by (simp add: run_setup_def on_engine_def act_simps sample_env_def sample_fs_def)
  then obtain tr' X' where r: "run_setup sample_env (\<lambda>p. Inr True) ([], ?X) = (Inr (), (tr', X'))"
    by (metis prod.collapse)
  from native_commands_bound [OF r] r show ?thesis by simp
qed

text \<open>
  The exit status. If \<open>main\<close> returns, its status is 0, whatever went wrong on the way: in
  particular when the window library cannot be initialised or the window cannot be created.
\<close>

theorem main_status_is_zero:
  assumes "main E U mkdirs v n = Exit code"
  shows "code = 0"
proof -
  have loop: "c = 0" if "frame_loop k U C s = (Inr (Some c), s')" for k c C and s s' :: "('a, 'd) commands ui_world uio"
    using that
    by (induction k arbitrary: s) (auto simp: act_simps split: prod.splits sum.splits if_splits)
  show ?thesis
    using assms
    by (auto simp: main_def main_catch_def Application_initialize_def Application_run_def act_simps Let_def
        split: prod.splits sum.splits option.splits if_splits dest: loop)
qed

theorem main_status_is_zero_witness:
  "\<exists>code. main sample_env (sample_keys\<lparr>ui_glfw_init := (\<lambda>tr. False)\<rparr>) (\<lambda>p. Inr True) 0 1 = Exit code \<and> code = 0"
proof -
  let ?U = "sample_keys\<lparr>ui_glfw_init := (\<lambda>tr. False)\<rparr>"
  have "\<exists>code. main sample_env ?U (\<lambda>p. Inr True) 0 1 = Exit code"
    by (simp add: main_def Application_initialize_def initializeUi_def ImGuiManager_init_def initWindow_def act_simps Let_def
        main_catch_def)
  then obtain code where c: "main sample_env ?U (\<lambda>p. Inr True) 0 1 = Exit code" by blast
  with main_status_is_zero [OF c] show ?thesis by blast
qed

end
