(* ===== verification/Program_Runs.thy ===== *)
theory Program_Runs
  imports Application
begin

text \<open>
  The runs of the program: frames of the UI thread, resumptions of the service's tasks by the
  thread pool, and notifications to Discord, in any order. A frame and a resumption are taken as
  one step each.
\<close>

section \<open>Steps\<close>

datatype app_event = Frame | Task nat | DiscordTask nat

text \<open>The notification reads the configuration that it shares with the service.\<close>

definition discord_task :: "net_env \<Rightarrow> 'j json_lib \<Rightarrow> string \<Rightarrow> ('x ui_world io, unit) act" where
  "discord_task N J message = (\<lambda>(tr, X).
     case Notifications_sendMessage N J message
            (tr, (ui_notifications X)\<lparr>nt_cfg := m_config (tw_service (ui_tw X))\<rparr>) of
       (r, (tr', D)) \<Rightarrow> (r, (tr', X)))"

type_synonym 'x program = "net_call list \<times> ui_call list \<times> 'x ui_world"

inductive app_step ::
    "net_env \<Rightarrow> 'j json_lib \<Rightarrow> ui_env \<Rightarrow> 'x callbacks \<Rightarrow> 'x program \<Rightarrow> app_event \<Rightarrow> 'x program option \<Rightarrow> bool"
  for N J U C where
    frame_step: "frame U C (ur, X) = (Inr (), (ur', X')) \<Longrightarrow>
      app_step N J U C (tr, ur, X) Frame (Some (tr, ur', X'))"
  | task_step: "tw_step N J C (tr, ui_tw X) (Resume i) (Some (tr', W')) \<Longrightarrow>
      app_step N J U C (tr, ur, X) (Task i) (Some (tr', ur, X\<lparr>ui_tw := W'\<rparr>))"
  | task_crash: "tw_step N J C (tr, ui_tw X) (Resume i) None \<Longrightarrow>
      app_step N J U C (tr, ur, X) (Task i) None"
  | discord_step: "j < length (ui_discord_tasks X) \<Longrightarrow>
      discord_task N J (ui_discord_tasks X ! j) (tr, X) = (r, (tr', X')) \<Longrightarrow>
      app_step N J U C (tr, ur, X) (DiscordTask j)
        (Some (tr', ur, X'\<lparr>ui_discord_tasks := take j (ui_discord_tasks X') @ drop (Suc j) (ui_discord_tasks X')\<rparr>))"

inductive app_run ::
    "net_env \<Rightarrow> 'j json_lib \<Rightarrow> ui_env \<Rightarrow> 'x callbacks \<Rightarrow> 'x program \<Rightarrow> app_event list \<Rightarrow> 'x program option \<Rightarrow> bool"
  for N J U C where
    app_run_nil: "app_run N J U C s [] (Some s)"
  | app_run_step: "app_run N J U C s evs (Some s') \<Longrightarrow> app_step N J U C s' ev r \<Longrightarrow> app_run N J U C s (evs @ [ev]) r"

text \<open>The program has been initialised and \<open>run\<close> has reached its loop.\<close>

definition app_started ::
    "('v, 'r, 't, 'f) lua_env \<Rightarrow> ui_env \<Rightarrow> (string \<Rightarrow> exn + bool) \<Rightarrow> 'v \<Rightarrow> ('v, 'f) commands ui_world uio \<Rightarrow> bool" where
  "app_started E U mkdirs v s \<longleftrightarrow>
     (case Application_initialize E U v Application_new of
        (Inl e, s0) \<Rightarrow> False
      | (Inr ok, s0) \<Rightarrow> ok \<and> run_setup E mkdirs s0 = (Inr (), s))"

section \<open>Frames\<close>

lemma does_frame: "D \<or> no_logout U \<Longrightarrow> does D C (frame U C)"
  unfolding frame_def
  by (intro does_intros does_backend does_docking does_floating does_auth does_discord does_chat)

lemma nests_frame: "nests (st, n) (frame U C) (st, n)"
  unfolding frame_def
  by (rule nests_thenA nests_backend nests_docking nests_floating nests_auth nests_discord nests_chat)+

section \<open>The initial world\<close>

definition same_service :: "'w tw_world \<Rightarrow> 'w tw_world \<Rightarrow> bool" where
  "same_service W W' \<longleftrightarrow> tw_service W' = tw_service W \<and> tw_objects W' = tw_objects W \<and> tw_tasks W' = tw_tasks W"

abbreviation app_effect :: "('x ui_world uio, 'r) act \<Rightarrow> bool" where
  "app_effect m \<equiv> relA (\<lambda>s s'. same_service (ui_tw (snd s)) (ui_tw (snd s'))) m"

interpretation app_only: state_order "\<lambda>s s'. same_service (ui_tw (snd s)) (ui_tw (snd s'))"
  by unfold_locales (simp_all add: same_service_def)

lemma app_effect_ui: "app_effect (ui c)" "app_effect (ui_ask g d)"
  by (auto simp: relA_def act_simps same_service_def)

lemma app_effect_modify: "(\<And>X. same_service (ui_tw X) (ui_tw (g X))) \<Longrightarrow> app_effect (ui_modify g)"
  by (auto simp: relA_def act_simps)

lemma app_effect_engine: "app_effect (on_engine m)"
  by (auto simp: relA_def on_engine_def update_tw_def put_engine_def same_service_def split: prod.splits)

lemma app_effect_init: "app_effect (ImGuiManager_init U)"
  unfolding ImGuiManager_init_def initWindow_def backend_init_def
  by (intro app_only.rel_rules app_effect_ui app_effect_modify; simp add: same_service_def)

lemma app_effect_setup: "app_effect (run_setup E mkdirs)"
  unfolding run_setup_def
  by (intro app_only.rel_rules app_effect_engine app_effect_modify)
    (simp_all add: same_service_def register_scripts_def register_native_def update_tw_def put_parser_def put_engine_def
      split: prod.splits)

lemma started_initial:
  assumes "app_started E U mkdirs v (ur, X)"
  shows "\<exists>x. ui_tw X = tw_initial ClientConfig_default x"
proof -
  let ?A = "initializeViewmodels (initializeDiscord (initializeServices E v Application_new)) :: ('a, 'd) Application"
  obtain r ur1 X1 where i: "ImGuiManager_init U ([], app_world ?A) = (r, (ur1, X1))" by (metis prod.collapse)
  then have 1: "same_service (ui_tw (app_world ?A)) (ui_tw X1)"
    using app_effect_init [of U] unfolding relA_def by (metis snd_conv)
  have s: "run_setup E mkdirs (ur1, setupCallbacks X1) = (Inr (), (ur, X))"
    using assms i by (cases r) (simp_all add: app_started_def Application_initialize_def initializeUi_def act_simps Let_def)
  then have 2: "same_service (ui_tw (setupCallbacks X1)) (ui_tw X)"
    using app_effect_setup [of E mkdirs] unfolding relA_def by (metis snd_conv)
  have "ui_tw X = tw_initial ClientConfig_default (tw_app (ui_tw X))"
    using 1 2 by (intro tw_world.equality)
      (simp_all add: same_service_def setupCallbacks_def update_tw_def app_world_def initializeViewmodels_def
        initializeDiscord_def initializeServices_def Application_new_def Application_threads_def tw_initial_def
        setStatusCallback_def setMessageCallback_def update_service_def)
  then show ?thesis by blast
qed

lemma started_disconnected: "app_started E U mkdirs v (ur, X) \<Longrightarrow> m_state (tw_service (ui_tw X)) = Disconnected"
  using started_initial [of E U mkdirs v ur X]
  by (auto simp: tw_initial_def setStatusCallback_def setMessageCallback_def update_service_def TwitchService_new_def)

section \<open>Invariants of runs\<close>

lemma discord_task_run:
  assumes "discord_task N J m (tr, X) = (r, (tr', X'))"
  shows "X' = X"
    and "confined h tr \<Longrightarrow> helix_host (m_config (tw_service (ui_tw X))) = h \<Longrightarrow> confined h tr'"
proof -
  let ?D = "(ui_notifications X)\<lparr>nt_cfg := m_config (tw_service (ui_tw X))\<rparr>"
  obtain q tr1 D where n: "Notifications_sendMessage N J m (tr, ?D) = (q, (tr1, D))" by (metis prod.collapse)
  with assms show "X' = X" by (simp add: discord_task_def)
  have t: "tr' = tr1" using assms n by (simp add: discord_task_def)
  show "confined h tr'" if "confined h tr" "helix_host (m_config (tw_service (ui_tw X))) = h"
    using invA_D [OF Notifications_confined [of h N J m], of "(tr, ?D)"] n that t by simp
qed

definition program_ok :: "string \<Rightarrow> 'x program \<Rightarrow> bool" where
  "program_ok h = (\<lambda>(tr, ur, X). tw_inv (ui_tw X) \<and> confined h tr \<and> host_ok h (ui_tw X))"

lemma started_ok:
  assumes "app_started E U mkdirs v (ur, X)"
  shows "program_ok ''api.twitch.tv'' ([], ur, X)" and "no_dangling (ui_tw X)"
proof -
  obtain x where X: "ui_tw X = tw_initial ClientConfig_default x" using started_initial [OF assms] by blast
  note d = tw_initial_def setStatusCallback_def setMessageCallback_def update_service_def TwitchService_new_def
  show "program_ok ''api.twitch.tv'' ([], ur, X)"
    using initial_inv [of ClientConfig_default x]
    by (simp add: program_ok_def X host_ok_def confined_def) (simp add: d ClientConfig_default_def)
  show "no_dangling (ui_tw X)" by (simp add: X d no_dangling_def)
qed

lemma frame_calls:
  assumes "D \<or> no_logout U" and "frame U C (ur, X) = (r, (ur', X'))"
  shows "\<exists>evs. tw_run N J C (tr, ui_tw X) evs (Some (tr, ui_tw X')) \<and> (\<forall>i. Resume i \<notin> set evs) \<and>
    (D \<or> Disconnect \<notin> set evs)"
proof -
  have "ui_calls D C (ui_tw X) (ui_tw X')"
    using does_frame [OF assms(1), of C] assms(2) unfolding relA_def by (metis snd_conv)
  then show ?thesis by (rule ui_calls_run)
qed

lemma app_step_ok:
  assumes "app_step N J U (app_callbacks E) s ev (Some s')" and "program_ok h s"
  shows "program_ok h s'"
  using assms(1)
proof cases
  case (frame_step ur X ur' X' tr)
  obtain evs where r: "tw_run N J (app_callbacks E) (tr, ui_tw X) evs (Some (tr, ui_tw X'))"
    using frame_calls [of True, OF _ frame_step(4)] by blast
  from app.run_confined [OF r, of h] assms(2) frame_step show ?thesis by (simp add: program_ok_def)
next
  case (task_step tr X i tr' W' ur)
  have "tw_inv W'" using app.step_keeps_inv [OF task_step(4)] assms(2) task_step(1) by (simp add: program_ok_def)
  moreover have "confined_with h (host_ok h) (tr', W')"
    using app.step_confined [OF task_step(4), of h] assms(2) task_step(1) by (simp add: program_ok_def)
  ultimately show ?thesis using task_step by (simp add: program_ok_def)
next
  case (discord_step j X tr r tr' X' ur)
  with assms(2) discord_task_run [OF discord_step(5)] show ?thesis by (simp add: program_ok_def host_ok_def)
qed

lemma app_run_ok:
  assumes "app_run N J U (app_callbacks E) s evs r" and "program_ok h s" and "r = Some s'"
  shows "program_ok h s'"
  using assms
proof (induction arbitrary: s')
  case (app_run_step s evs s1 ev r)
  then show ?case using app_step_ok by blast
qed simp

lemma app_step_alive:
  assumes "app_step N J U (app_callbacks E) s ev r" and "program_ok h s" and "no_dangling (ui_tw (snd (snd s)))"
    and "no_logout U"
  shows "\<exists>s'. r = Some s' \<and> no_dangling (ui_tw (snd (snd s')))"
  using assms(1)
proof cases
  case (frame_step ur X ur' X' tr)
  obtain evs where e: "tw_run N J (app_callbacks E) (tr, ui_tw X) evs (Some (tr, ui_tw X'))" "Disconnect \<notin> set evs"
    using frame_calls [of False, OF _ frame_step(4)] assms(4) by blast
  from app.run_no_dangling [OF e(1) _ _ e(2)] assms(2,3) frame_step show ?thesis by (simp add: program_ok_def)
next
  case (task_step tr X i tr' W' ur)
  with app.step_no_dangling [OF task_step(4)] assms(2,3) show ?thesis by (simp add: program_ok_def)
next
  case (task_crash tr X i ur)
  with app.step_no_dangling [OF task_crash(4)] assms(2,3) show ?thesis by (simp add: program_ok_def)
next
  case (discord_step j X tr r tr' X' ur)
  with assms(3) discord_task_run(1) [OF discord_step(5)] show ?thesis by simp
qed

lemma app_run_alive:
  assumes "app_run N J U (app_callbacks E) s evs r" and "program_ok h s" and "no_dangling (ui_tw (snd (snd s)))"
    and "no_logout U"
  shows "\<exists>s'. r = Some s' \<and> no_dangling (ui_tw (snd (snd s')))"
  using assms
proof induction
  case (app_run_step s evs s1 ev r)
  have "program_ok h s1" by (rule app_run_ok [OF app_run_step.hyps(1) app_run_step.prems(1) refl])
  with app_run_step app_step_alive [OF app_run_step.hyps(2)] show ?case by blast
qed simp

section \<open>A run for the witnesses\<close>

text \<open>The user presses the Test button of the Discord window and nothing else.\<close>

definition test_keys :: ui_env where
  "test_keys = sample_keys\<lparr>ui_pressed := (\<lambda>tr l. l = ''Test''), ui_input := (\<lambda>tr l b. (False, b)),
     ui_should_close := (\<lambda>tr. 50 < length tr)\<rparr>"

lemma test_keys_no_logout: "no_logout test_keys"
  by (simp add: no_logout_def test_keys_def)

lemma sample_started: "\<exists>ur X. app_started sample_env test_keys (\<lambda>p. Inr True) 0 (ur, X)"
  by (simp add: app_started_def Application_initialize_def initializeUi_def ImGuiManager_init_def initWindow_def
      backend_init_def run_setup_def on_engine_def act_simps Let_def test_keys_def sample_keys_def sample_env_def sample_fs_def
      split: prod.splits)

lemma test_frame:
  assumes "m_state (tw_service (ui_tw X)) = Disconnected"
  shows "\<exists>ur' X'. frame test_keys C (ur, X) = (Inr (), (ur', X')) \<and> ui_discord_tasks X' \<noteq> []"
  using assms
  by (simp add: frame_def poll_def beginFrame_def backend_newFrame_def manageDocking_def manageFloating_def manageAuth_def
      manageDiscord_def manageChat_def endFrame_def render_def backend_renderDrawData_def swapBuffers_def act_simps button_def
      test_keys_def AuthVM_syncFrom_def AuthVM_getState_def getState_def ChatVM_canSendMessages_def canSendMessages_def
      DiscordVM_testMessage_def)

lemma sample_run:
  obtains ur X tr' ur' X' where "app_started sample_env test_keys (\<lambda>p. Inr True) 0 (ur, X)"
    and "app_run N J test_keys (app_callbacks sample_env) ([], ur, X) [Frame, DiscordTask 0] (Some (tr', ur', X'))"
proof -
  let ?C = "app_callbacks sample_env"
  obtain ur X where s: "app_started sample_env test_keys (\<lambda>p. Inr True) 0 (ur, X)" using sample_started by blast
  obtain ur1 X1 where f: "frame test_keys ?C (ur, X) = (Inr (), (ur1, X1))" and d: "ui_discord_tasks X1 \<noteq> []"
    using test_frame [OF started_disconnected [OF s]] by blast
  have "app_run N J test_keys ?C ([], ur, X) ([] @ [Frame]) (Some ([], ur1, X1))"
    by (rule app_run_step [OF app_run_nil frame_step [OF f]])
  moreover obtain r tr2 X2 where "discord_task N J (ui_discord_tasks X1 ! 0) ([], X1) = (r, (tr2, X2))" by (metis prod.collapse)
  ultimately have "\<exists>s. app_run N J test_keys ?C ([], ur, X) (([] @ [Frame]) @ [DiscordTask 0]) (Some s)"
    using d by (blast intro: app_run_step discord_step)
  then show thesis using that [OF s] by auto
qed

end
