(* ===== verification/Lua_Numbers.thy ===== *)
theory Lua_Numbers
  imports Std_Time Colors
begin

text \<open>
  Numbers of Lua 5.4 as the scripts of \<^verbatim>\<open>src/commands\<close> use them: 64-bit integers, whose arithmetic
  wraps around, and floats. The operations on floats are those of the C library; they are the
  parameter record \<open>lua_floats\<close>, and so are the conversions of a float that sol2 makes when a
  script passes it to C++.
\<close>

section \<open>Numbers\<close>

record 'd lua_floats =
  float_strtod :: "string \<Rightarrow> 'd option"
  float_tostring :: "'d \<Rightarrow> string"
  float_of_int :: "int \<Rightarrow> 'd"
  float_add :: "'d \<Rightarrow> 'd \<Rightarrow> 'd"
  float_sub :: "'d \<Rightarrow> 'd \<Rightarrow> 'd"
  float_mul :: "'d \<Rightarrow> 'd \<Rightarrow> 'd"
  float_less :: "'d \<Rightarrow> 'd \<Rightarrow> bool"
  float_le :: "'d \<Rightarrow> 'd \<Rightarrow> bool"
  float_to_int :: "'d \<Rightarrow> int option"
  sol_integer :: "'d \<Rightarrow> int option"

datatype 'd lua_number = LInt int | LFloat 'd

definition wrap64 :: "int \<Rightarrow> int" where
  "wrap64 i = (i + 2 ^ 63) mod 2 ^ 64 - 2 ^ 63"

definition in_range64 :: "int \<Rightarrow> bool" where
  "in_range64 i \<longleftrightarrow> - (2 ^ 63) \<le> i \<and> i < 2 ^ 63"

lemma in_range64_wrap64: "in_range64 (wrap64 i)"
proof -
  have "0 \<le> (i + 2 ^ 63) mod 2 ^ 64" "(i + 2 ^ 63) mod 2 ^ 64 < 2 ^ 64" by simp_all
  then show ?thesis by (simp add: in_range64_def wrap64_def)
qed

lemma wrap64_id: "in_range64 i \<Longrightarrow> wrap64 i = i"
  by (simp add: wrap64_def in_range64_def)

fun to_float :: "'d lua_floats \<Rightarrow> 'd lua_number \<Rightarrow> 'd" where
  "to_float F (LInt i) = float_of_int F i"
| "to_float F (LFloat d) = d"

text \<open>
  Two integers give an integer; otherwise both are made floats. Comparisons of an integer with a
  float are by value; the integers are small here, and a float represents them exactly.
\<close>

fun lua_add :: "'d lua_floats \<Rightarrow> 'd lua_number \<Rightarrow> 'd lua_number \<Rightarrow> 'd lua_number" where
  "lua_add F (LInt i) (LInt j) = LInt (wrap64 (i + j))"
| "lua_add F a b = LFloat (float_add F (to_float F a) (to_float F b))"

fun lua_sub :: "'d lua_floats \<Rightarrow> 'd lua_number \<Rightarrow> 'd lua_number \<Rightarrow> 'd lua_number" where
  "lua_sub F (LInt i) (LInt j) = LInt (wrap64 (i - j))"
| "lua_sub F a b = LFloat (float_sub F (to_float F a) (to_float F b))"

fun lua_mul :: "'d lua_floats \<Rightarrow> 'd lua_number \<Rightarrow> 'd lua_number \<Rightarrow> 'd lua_number" where
  "lua_mul F (LInt i) (LInt j) = LInt (wrap64 (i * j))"
| "lua_mul F a b = LFloat (float_mul F (to_float F a) (to_float F b))"

fun lua_less :: "'d lua_floats \<Rightarrow> 'd lua_number \<Rightarrow> 'd lua_number \<Rightarrow> bool" where
  "lua_less F (LInt i) (LInt j) = (i < j)"
| "lua_less F a b = float_less F (to_float F a) (to_float F b)"

fun lua_le :: "'d lua_floats \<Rightarrow> 'd lua_number \<Rightarrow> 'd lua_number \<Rightarrow> bool" where
  "lua_le F (LInt i) (LInt j) = (i \<le> j)"
| "lua_le F a b = float_le F (to_float F a) (to_float F b)"

text \<open>\<^verbatim>\<open>math.min(a, b)\<close> and \<^verbatim>\<open>math.max(a, b)\<close>: the second replaces the first only if it is better.\<close>

definition math_min :: "'d lua_floats \<Rightarrow> 'd lua_number \<Rightarrow> 'd lua_number \<Rightarrow> 'd lua_number" where
  "math_min F a b = (if lua_less F b a then b else a)"

definition math_max :: "'d lua_floats \<Rightarrow> 'd lua_number \<Rightarrow> 'd lua_number \<Rightarrow> 'd lua_number" where
  "math_max F a b = (if lua_less F a b then b else a)"

section \<open>Numbers and text\<close>

definition show_int :: "int \<Rightarrow> string" where
  "show_int i = (if i < 0 then CHR ''-'' # show_nat (nat (- i)) else show_nat (nat i))"

fun lua_tostring :: "'d lua_floats \<Rightarrow> 'd lua_number \<Rightarrow> string" where
  "lua_tostring F (LInt i) = show_int i"
| "lua_tostring F (LFloat d) = float_tostring F d"

fun dec_value :: "nat \<Rightarrow> string \<Rightarrow> nat" where
  "dec_value acc [] = acc"
| "dec_value acc (c # cs) = dec_value (10 * acc + digit_val c) cs"

text \<open>
  The integer that a text denotes: white space around it, a sign, and decimal digits whose value
  fits, or \<^verbatim>\<open>0x\<close> and hexadecimal digits, whose value wraps around.
\<close>

definition l_str2int :: "string \<Rightarrow> int option" where
  "l_str2int str =
     (let s = dropWhile isspace str;
          neg = (case s of c # _ \<Rightarrow> c = CHR ''-'' | [] \<Rightarrow> False);
          s1 = (case s of c # rest \<Rightarrow> if c = CHR ''-'' \<or> c = CHR ''+'' then rest else s | [] \<Rightarrow> s);
          hex = (case s1 of z # x # _ \<Rightarrow> z = CHR ''0'' \<and> (x = CHR ''x'' \<or> x = CHR ''X'') | _ \<Rightarrow> False);
          digit = (if hex then is_xdigit else isdigit);
          s2 = (if hex then drop 2 s1 else s1);
          digits = takeWhile digit s2;
          v = int (if hex then hex_value 0 digits else dec_value 0 digits);
          rest = dropWhile isspace (dropWhile digit s2)
      in if digits = [] \<or> rest \<noteq> [] then None
         else if \<not> hex \<and> 2 ^ 63 + (if neg then 1 else 0) \<le> v then None
         else Some (wrap64 (if neg then - v else v)))"

text \<open>\<^verbatim>\<open>tonumber\<close> of a text: an integer if it denotes one, otherwise what \<^verbatim>\<open>strtod\<close> makes of it.\<close>

definition tonumber :: "'d lua_floats \<Rightarrow> string \<Rightarrow> 'd lua_number option" where
  "tonumber F str =
     (case l_str2int str of Some i \<Rightarrow> Some (LInt i) | None \<Rightarrow> map_option LFloat (float_strtod F str))"

fun number_ok :: "'d lua_number \<Rightarrow> bool" where
  "number_ok (LInt i) = in_range64 i"
| "number_ok (LFloat d) = True"

lemma two_guards: "(if A then None else if B then None else Some x) = Some i \<Longrightarrow> i = x"
  by (simp split: if_splits)

lemma l_str2int_range: "l_str2int s = Some i \<Longrightarrow> in_range64 i"
  unfolding l_str2int_def Let_def by (drule two_guards) (simp only: in_range64_wrap64)

lemma tonumber_ok: "tonumber F s = Some n \<Longrightarrow> number_ok n"
  by (auto simp: tonumber_def l_str2int_range split: option.splits)

section \<open>Printing and reading\<close>

lemma show_nat_digits: "list_all isdigit (show_nat n)"
proof (induction n rule: show_nat.induct)
  case (1 n)
  then show ?case
    by (cases "n < 10"; subst show_nat.simps; simp add: digit_char_props)
qed

lemma show_nat_nonempty: "show_nat n \<noteq> []"
  by (subst show_nat.simps) simp

lemma dec_value_append: "dec_value acc (xs @ ys) = dec_value (dec_value acc xs) ys"
  by (induction xs arbitrary: acc) simp_all

lemma dec_value_show_nat: "dec_value 0 (show_nat n) = n"
proof (induction n rule: show_nat.induct)
  case (1 n)
  show ?case
  proof (cases "n < 10")
    case True
    then show ?thesis by (subst show_nat.simps) (simp add: digit_char_props)
  next
    case False
    then have "dec_value 0 (show_nat (n div 10)) = n div 10" by (rule "1.IH")
    with False show ?thesis by (subst show_nat.simps) (simp add: dec_value_append digit_char_props)
  qed
qed

lemma show_nat_length: "n < 10 ^ k \<Longrightarrow> 0 < k \<Longrightarrow> length (show_nat n) \<le> k"
proof (induction k arbitrary: n)
  case (Suc k)
  show ?case
  proof (cases "n < 10")
    case True
    then show ?thesis by (subst show_nat.simps) simp
  next
    case False
    with Suc.prems have "n div 10 < 10 ^ k" "0 < k" by (auto intro: gr0I simp: less_mult_imp_div_less mult.commute)
    with Suc.IH False show ?thesis by (subst show_nat.simps) simp
  qed
qed simp

lemma isdigit_chars:
  "isdigit c \<Longrightarrow> \<not> isspace c" "isdigit c \<Longrightarrow> c \<noteq> CHR ''-''" "isdigit c \<Longrightarrow> c \<noteq> CHR ''+''"
  "isdigit c \<Longrightarrow> c \<noteq> CHR ''x''" "isdigit c \<Longrightarrow> c \<noteq> CHR ''X''"
  by (auto simp: isdigit_def isspace_def)

text \<open>Decimal digits, with or without a minus sign, are read as decimal.\<close>

lemma l_str2int_digits:
  assumes "list_all isdigit ds" and "ds \<noteq> []"
  shows "l_str2int ds = (if 2 ^ 63 \<le> int (dec_value 0 ds) then None else Some (wrap64 (int (dec_value 0 ds))))"
    and "l_str2int (CHR ''-'' # ds) =
      (if 2 ^ 63 + 1 \<le> int (dec_value 0 ds) then None else Some (wrap64 (- int (dec_value 0 ds))))"
proof -
  obtain c cs where ds: "ds = c # cs" "isdigit c" "list_all isdigit cs" using assms by (cases ds) auto
  have t: "takeWhile isdigit ds = ds" "dropWhile isdigit ds = []"
    using assms(1) by (simp_all add: takeWhile_eq_all_conv list_all_iff)
  have hex: "(case ds of z # x # r \<Rightarrow> z = CHR ''0'' \<and> (x = CHR ''x'' \<or> x = CHR ''X'') | _ \<Rightarrow> False) = False"
    using ds isdigit_chars(4,5) by (cases cs) auto
  have w: "dropWhile isspace ds = ds" "dropWhile isspace (CHR ''-'' # ds) = CHR ''-'' # ds"
    using ds isdigit_chars(1) by (auto simp: isspace_def)
  have sgn: "(case ds of c # r \<Rightarrow> c = CHR ''-'' | [] \<Rightarrow> False) = False"
    "(case ds of c # r \<Rightarrow> if c = CHR ''-'' \<or> c = CHR ''+'' then r else ds | [] \<Rightarrow> ds) = ds"
    using ds isdigit_chars(2,3) by auto
  show "l_str2int ds = (if 2 ^ 63 \<le> int (dec_value 0 ds) then None else Some (wrap64 (int (dec_value 0 ds))))"
    unfolding l_str2int_def Let_def w sgn hex if_False t using assms(2) by simp
  show "l_str2int (CHR ''-'' # ds) =
      (if 2 ^ 63 + 1 \<le> int (dec_value 0 ds) then None else Some (wrap64 (- int (dec_value 0 ds))))"
    unfolding l_str2int_def Let_def w list.case hex if_False t using assms(2) by (simp add: hex t)
qed

lemma l_str2int_show_int:
  assumes "in_range64 i"
  shows "l_str2int (show_int i) = Some i"
proof (cases "i < 0")
  case True
  with assms show ?thesis
    by (simp add: show_int_def l_str2int_digits(2) [OF show_nat_digits show_nat_nonempty] dec_value_show_nat wrap64_id)
      (simp add: in_range64_def)
next
  case False
  with assms show ?thesis
    by (simp add: show_int_def l_str2int_digits(1) [OF show_nat_digits show_nat_nonempty] dec_value_show_nat wrap64_id)
      (simp add: in_range64_def)
qed

lemma show_int_length:
  assumes "in_range64 i"
  shows "length (show_int i) \<le> 20"
proof -
  have "nat \<bar>i\<bar> < 10 ^ 19" using assms by (auto simp: in_range64_def)
  then have "length (show_nat (nat \<bar>i\<bar>)) \<le> 19" by (rule show_nat_length) simp
  then show ?thesis by (cases "i < 0") (simp_all add: show_int_def)
qed

end
