(* ===== verification/Lua_Scripts.thy ===== *)
theory Lua_Scripts
  imports Lua_Engine Lua_Numbers
begin

text \<open>
  The scripts of \<^verbatim>\<open>src/commands\<close>. A script returns a table; its field \<open>execute\<close> is a function, given here
  as the behaviour of a call: the methods of the context it calls, in order, and what it does with
  their answers. An exception that a method throws ends the call with a Lua error, since no script
  uses \<^verbatim>\<open>pcall\<close>.

  \<^verbatim>\<open>math.random\<close> is a parameter: from a state and a bound, a number between 1 and the bound.
\<close>

record ('d, 'v) lua_std =
  std_floats :: "'d lua_floats"
  std_random :: "'v \<Rightarrow> int \<Rightarrow> int \<times> 'v"

section \<open>Calls\<close>

definition lua_call :: "lua_api \<Rightarrow> 'v \<Rightarrow> (lua_value \<Rightarrow> 'v lua_behaviour) \<Rightarrow> 'v lua_behaviour" where
  "lua_call a v k = LuaCall a (\<lambda>r. case r of Inl e \<Rightarrow> LuaError (what e) v | Inr x \<Rightarrow> k x)"

definition with_str :: "'v \<Rightarrow> (string \<Rightarrow> 'v lua_behaviour) \<Rightarrow> lua_value \<Rightarrow> 'v lua_behaviour" where
  "with_str v k x = (case x of VStr s \<Rightarrow> k s | _ \<Rightarrow> LuaError ''string expected'' v)"

definition with_strs :: "'v \<Rightarrow> (string list \<Rightarrow> 'v lua_behaviour) \<Rightarrow> lua_value \<Rightarrow> 'v lua_behaviour" where
  "with_strs v k x = (case x of VStrs xs \<Rightarrow> k xs | _ \<Rightarrow> LuaError ''list expected'' v)"

text \<open>\<^verbatim>\<open>ctx:reply(text)\<close> as the last statement.\<close>

definition reply_and_return :: "string \<Rightarrow> 'v \<Rightarrow> 'v lua_behaviour" where
  "reply_and_return text v = lua_call (Reply text) v (\<lambda>_. LuaReturn v)"

text \<open>\<^verbatim>\<open>math.random(n)\<close>: the argument must have an integer value, and be positive.\<close>

definition math_random ::
    "('d, 'v) lua_std \<Rightarrow> 'd lua_number \<Rightarrow> 'v \<Rightarrow> (int \<Rightarrow> 'v \<Rightarrow> 'v lua_behaviour) \<Rightarrow> 'v lua_behaviour" where
  "math_random S n v k =
     (case (case n of LInt i \<Rightarrow> Some i | LFloat d \<Rightarrow> float_to_int (std_floats S) d) of
        None \<Rightarrow> LuaError ''number has no integer representation'' v
      | Some i \<Rightarrow>
          if i < 1 then LuaError ''interval is empty'' v
          else case std_random S v i of (r, v') \<Rightarrow> k r v')"

text \<open>\<^verbatim>\<open>xs[k]\<close>: \<^verbatim>\<open>nil\<close> outside of the list.\<close>

definition lua_nth :: "'a list \<Rightarrow> int \<Rightarrow> 'a option" where
  "lua_nth xs k = (if 1 \<le> k \<and> k \<le> int (length xs) then Some (xs ! nat (k - 1)) else None)"

definition or_error :: "'v \<Rightarrow> ('a \<Rightarrow> 'v lua_behaviour) \<Rightarrow> 'a option \<Rightarrow> 'v lua_behaviour" where
  "or_error v k x = (case x of None \<Rightarrow> LuaError ''string expected, got nil'' v | Some a \<Rightarrow> k a)"

section \<open>The small scripts\<close>

definition hello_execute :: "string list \<Rightarrow> 'v \<Rightarrow> 'v lua_behaviour" where
  "hello_execute args v =
     (if length args > 0 then reply_and_return (''Hello '' @ args ! 0 @ ''!'') v
      else lua_call GetUser v (with_str v (\<lambda>user. reply_and_return (''Hello '' @ user @ ''!'') v)))"

text \<open>The pictographs are their UTF-8 bytes.\<close>

definition flip_execute :: "('d, 'v) lua_std \<Rightarrow> string list \<Rightarrow> 'v \<Rightarrow> 'v lua_behaviour" where
  "flip_execute S args v =
     math_random S (LInt 2) v (\<lambda>r v'.
       let result = (if r = 1 then ''Heads'' else ''Tails'')
       in reply_and_return ([CHR 0xF0, CHR 0x9F, CHR 0xAA, CHR 0x99] @ '' '' @ result @ ''!'') v')"

definition dice_sides :: "'d lua_floats \<Rightarrow> string list \<Rightarrow> 'd lua_number" where
  "dice_sides F args =
     (if length args > 0
      then case tonumber F (args ! 0) of
             None \<Rightarrow> LInt 6
           | Some input \<Rightarrow> if lua_less F (LInt 1) input \<and> lua_le F input (LInt 100) then input else LInt 6
      else LInt 6)"

definition dice_execute :: "('d, 'v) lua_std \<Rightarrow> string list \<Rightarrow> 'v \<Rightarrow> 'v lua_behaviour" where
  "dice_execute S args v =
     (let sides = dice_sides (std_floats S) args
      in math_random S sides v (\<lambda>result v'.
           lua_call GetUser v' (with_str v' (\<lambda>user.
             reply_and_return ([CHR 0xF0, CHR 0x9F, CHR 0x8E, CHR 0xB2] @ '' '' @ user @ '' rolled a '' @ show_int result @
               '' (1-'' @ lua_tostring (std_floats S) sides @ '')'') v'))))"

definition special_execute :: "string list \<Rightarrow> 'v \<Rightarrow> 'v lua_behaviour" where
  "special_execute args v =
     lua_call GetUser v (with_str v (\<lambda>user.
       reply_and_return ([CHR 0xF0, CHR 0x9F, CHR 0x8E, CHR 0x89] @
         '' Special subscriber command activated by '' @ user @ ''!'') v))"

definition modcmd_execute :: "string list \<Rightarrow> 'v \<Rightarrow> 'v lua_behaviour" where
  "modcmd_execute args v =
     lua_call GetUser v (with_str v (\<lambda>user.
       reply_and_return (''This is a moderator-only command executed by '' @ user) v))"

definition vip_jokes :: "string list" where
  "vip_jokes =
     [''Why do VIPs never get lost? Because they always have priority directions!'',
      ''What did the VIP say to the regular viewer? '' @ [CHR 0x27] @ ''Thanks for the support!'' @ [CHR 0x27],
      ''Why are VIPs like good code? They'' @ [CHR 0x27] @ ''re both well-structured and valuable!'']"

definition vip_joke_execute :: "('d, 'v) lua_std \<Rightarrow> string list \<Rightarrow> 'v \<Rightarrow> 'v lua_behaviour" where
  "vip_joke_execute S args v =
     math_random S (LInt (int (length vip_jokes))) v (\<lambda>r v'.
       or_error v' (\<lambda>joke. reply_and_return ([CHR 0xF0, CHR 0x9F, CHR 0x8C, CHR 0x9F] @ '' '' @ joke) v')
         (lua_nth vip_jokes r))"

section \<open>Sound effects\<close>

text \<open>
  \<^verbatim>\<open>sfx list [page]\<close>. The list of names comes from C++; an index outside of it, or a number that is
  not an index, gives \<^verbatim>\<open>nil\<close>, and the next operation on the name is an error: \<open>None\<close>.
\<close>

definition c_sound_dir :: string where
  "c_sound_dir = ''sounds''"

text \<open>The integer that sol2 makes of a number for C++; its checks may refuse a float.\<close>

definition sol_int :: "'d lua_floats \<Rightarrow> 'd lua_number \<Rightarrow> int option" where
  "sol_int F n = (case n of LInt i \<Rightarrow> Some i | LFloat d \<Rightarrow> sol_integer F d)"

definition sound_at :: "'d lua_floats \<Rightarrow> string list \<Rightarrow> 'd lua_number \<Rightarrow> string option" where
  "sound_at F sounds i = (case sol_int F i of None \<Rightarrow> None | Some k \<Rightarrow> lua_nth sounds k)"

definition start_index :: "'d lua_floats \<Rightarrow> 'd lua_number \<Rightarrow> 'd lua_number" where
  "start_index F page = lua_add F (lua_mul F (lua_sub F page (LInt 1)) (LInt 15)) (LInt 1)"

text \<open>
  The loop that fills a page. Every pass after the first adds at least the separator to the
  length, which is bounded; so the loop ends, whatever the numbers do.
\<close>

function page_loop ::
    "'d lua_floats \<Rightarrow> string list \<Rightarrow> 'd lua_number \<Rightarrow> nat \<Rightarrow> nat \<Rightarrow> string list \<Rightarrow> string list option" where
  "page_loop F sounds i sounds_added current_length page_sounds =
     (if \<not> lua_le F i (LInt (int (length sounds))) then Some page_sounds
      else case sound_at F sounds i of
             None \<Rightarrow> None
           | Some sound_name \<Rightarrow>
               let test_addition = (if sounds_added > 0 then '', '' @ sound_name else sound_name)
               in if current_length + length test_addition > 450 then Some page_sounds
                  else page_loop F sounds (lua_add F i (LInt 1)) (sounds_added + 1)
                         (current_length + length test_addition) (page_sounds @ [sound_name]))"
  by pat_completeness auto
termination
  by (relation "measure (\<lambda>(F, sounds, i, sounds_added, current_length, page_sounds).
        (if sounds_added = 0 then 1 else 0) + (450 - current_length))") auto

declare page_loop.simps [simp del]

text \<open>
  \<^verbatim>\<open>math.ceil(#sounds / sounds_added)\<close>: the quotient is a float, whose rounding does not reach the next
  integer for a divisor of at most 225.
\<close>

definition total_pages :: "nat \<Rightarrow> nat \<Rightarrow> nat" where
  "total_pages n k = (n + k - 1) div k"

definition c_available :: string where
  "c_available = ''Available sounds: ''"

definition list_reply :: "'d lua_floats \<Rightarrow> 'd lua_number \<Rightarrow> string list \<Rightarrow> string option" where
  "list_reply F page sounds =
     (if sounds = [] then Some (''No sounds found in directory: '' @ c_sound_dir)
      else case page_loop F sounds (start_index F page) 0 (length c_available) [] of
             None \<Rightarrow> None
           | Some [] \<Rightarrow> Some (''Page '' @ lua_tostring F page @ '' is empty. Try a lower page number.'')
           | Some page_sounds \<Rightarrow>
               let total = total_pages (length sounds) (length page_sounds)
               in Some (c_available @ join_with '', '' page_sounds @
                    (if total > 1 then '' (Page '' @ lua_tostring F page @ ''/'' @ show_nat total @ '')'' else [])))"

definition sfx_page :: "'d lua_floats \<Rightarrow> string list \<Rightarrow> 'd lua_number" where
  "sfx_page F args =
     (if length args > 1 then case tonumber F (args ! 1) of None \<Rightarrow> LInt 1 | Some page \<Rightarrow> page else LInt 1)"

definition sfx_list :: "'d lua_floats \<Rightarrow> string list \<Rightarrow> 'v \<Rightarrow> 'v lua_behaviour" where
  "sfx_list F args v =
     lua_call (ListAudioFiles c_sound_dir) v (with_strs v (\<lambda>sounds.
       or_error v (\<lambda>text. reply_and_return text v) (list_reply F (sfx_page F args) sounds)))"

text \<open>The volume: the second argument if it is a number, clamped.\<close>

definition clamp_volume :: "'d lua_floats \<Rightarrow> 'd lua_number \<Rightarrow> 'd lua_number" where
  "clamp_volume F volume = math_max F (LInt 0) (math_min F (LInt 100) volume)"

definition sfx_volume :: "'d lua_floats \<Rightarrow> string list \<Rightarrow> 'd lua_number" where
  "sfx_volume F args =
     (if length args > 1
      then case tonumber F (args ! 1) of None \<Rightarrow> LInt 70 | Some volume \<Rightarrow> clamp_volume F volume
      else LInt 70)"

definition play_and_reply ::
    "'d lua_floats \<Rightarrow> string \<Rightarrow> 'd lua_number \<Rightarrow> string \<Rightarrow> string \<Rightarrow> 'v \<Rightarrow> 'v lua_behaviour" where
  "play_and_reply F filepath volume success failure v =
     lua_call (PlaySound filepath (sol_int F volume)) v (\<lambda>ok.
       reply_and_return (if ok = VBool True then success else failure) v)"

definition sfx_random :: "('d, 'v) lua_std \<Rightarrow> string list \<Rightarrow> 'v \<Rightarrow> 'v lua_behaviour" where
  "sfx_random S args v =
     lua_call (ListAudioFiles c_sound_dir) v (with_strs v (\<lambda>sounds.
       if sounds = [] then reply_and_return ''No sounds available for random selection'' v
       else math_random S (LInt (int (length sounds))) v (\<lambda>r v'.
         or_error v' (\<lambda>random_sound.
           lua_call (FindAudioFile random_sound c_sound_dir) v' (with_str v' (\<lambda>filepath.
             if filepath \<noteq> []
             then play_and_reply (std_floats S) filepath (sfx_volume (std_floats S) args)
                    (''Random sound: '' @ random_sound) (''Failed to play random sound: '' @ random_sound) v'
             else reply_and_return ''Could not find random sound file'' v')))
           (lua_nth sounds r))))"

definition sfx_play :: "('d, 'v) lua_std \<Rightarrow> string \<Rightarrow> string list \<Rightarrow> 'v \<Rightarrow> 'v lua_behaviour" where
  "sfx_play S sound_name args v =
     lua_call (FindAudioFile sound_name c_sound_dir) v (with_str v (\<lambda>filepath.
       if filepath = []
       then reply_and_return (''Sound '' @ [CHR 0x27] @ sound_name @ [CHR 0x27] @ '' not found. Try !sfx list'') v
       else play_and_reply (std_floats S) filepath (sfx_volume (std_floats S) args)
              sound_name (''Failed to play sound: '' @ sound_name) v))"

definition sfx_execute :: "('d, 'v) lua_std \<Rightarrow> string list \<Rightarrow> 'v \<Rightarrow> 'v lua_behaviour" where
  "sfx_execute S args v =
     (if args = [] then reply_and_return ''Usage: !sfx <sound> | !sfx list | !sfx random'' v
      else let command = transform_tolower (args ! 0)
           in if command = ''list'' then sfx_list (std_floats S) args v
              else if command = ''random'' then sfx_random S args v
              else sfx_play S command args v)"

section \<open>Tables and files\<close>

text \<open>
  A literal table is its fields, a list of texts an array. The functions a table holds are named by
  the script that defines them.
\<close>

datatype script = Dice | Flip | Hello | Special | Modcmd | Sfx | VipJoke

datatype lua_field = FStr string | FInt int | FBool bool | FArr "string list" | FFun script

datatype lua_table = TFields "(string \<times> lua_field) list" | TArr "string list"

fun script_table :: "script \<Rightarrow> (string \<times> lua_field) list" where
  "script_table Dice =
     [(''name'', FStr ''dice''), (''aliases'', FArr [''roll'', ''d6'']), (''description'', FStr ''Roll dice''),
      (''usage'', FStr ''!dice [sides]''), (''user_cooldown'', FInt 15), (''max_uses_per_stream'', FInt 50),
      (''execute'', FFun Dice)]"
| "script_table Flip =
     [(''name'', FStr ''flip''), (''aliases'', FArr [''coin'', ''coinflip'']), (''description'', FStr ''Flip a coin''),
      (''usage'', FStr ''!flip''), (''command_cooldown'', FInt 5), (''execute'', FFun Flip)]"
| "script_table Hello =
     [(''name'', FStr ''hello''), (''description'', FStr ''Greet a user''), (''usage'', FStr ''!hello [username]''),
      (''user_cooldown'', FInt 10), (''execute'', FFun Hello)]"
| "script_table Special =
     [(''name'', FStr ''special''), (''description'', FStr ''Special limited command''), (''usage'', FStr ''!special''),
      (''subscriber_only'', FBool True), (''user_cooldown'', FInt 60), (''command_cooldown'', FInt 10),
      (''max_uses_per_stream'', FInt 10), (''execute'', FFun Special)]"
| "script_table Modcmd =
     [(''name'', FStr ''modcmd''), (''description'', FStr ''Moderator only command''), (''usage'', FStr ''!modcmd''),
      (''mod_only'', FBool True), (''execute'', FFun Modcmd)]"
| "script_table Sfx =
     [(''name'', FStr ''sfx''), (''aliases'', FArr [''sound'', ''audio'', ''play'']), (''description'', FStr ''Play sound effects''),
      (''usage'', FStr ''!sfx <soundname> | !sfx list [page] | !sfx random''), (''user_cooldown'', FInt 3),
      (''command_cooldown'', FInt 1), (''execute'', FFun Sfx)]"
| "script_table VipJoke =
     [(''name'', FStr ''vipjoke''), (''description'', FStr ''Tell a VIP joke''), (''usage'', FStr ''!vipjoke''),
      (''vip_only'', FBool True), (''allowed_users'', FArr [''specificfriend'', ''anotherfriend'']),
      (''command_cooldown'', FInt 30), (''execute'', FFun VipJoke)]"

fun script_file :: "script \<Rightarrow> string" where
  "script_file Dice = ''commands/dice.lua''"
| "script_file Flip = ''commands/flip.lua''"
| "script_file Hello = ''commands/hello.lua''"
| "script_file Special = ''commands/limited.lua''"
| "script_file Modcmd = ''commands/modcmd.lua''"
| "script_file Sfx = ''commands/sfx.lua''"
| "script_file VipJoke = ''commands/vip_joke.lua''"

definition all_scripts :: "script list" where
  "all_scripts = [Dice, Flip, Hello, Special, Modcmd, Sfx, VipJoke]"

fun script_execute :: "('d, 'v) lua_std \<Rightarrow> script \<Rightarrow> string list \<Rightarrow> 'v \<Rightarrow> 'v lua_behaviour" where
  "script_execute S Dice = dice_execute S"
| "script_execute S Flip = flip_execute S"
| "script_execute S Hello = hello_execute"
| "script_execute S Special = special_execute"
| "script_execute S Modcmd = modcmd_execute"
| "script_execute S Sfx = sfx_execute S"
| "script_execute S VipJoke = vip_joke_execute S"

fun table_field :: "lua_table \<Rightarrow> string \<Rightarrow> lua_field option" where
  "table_field (TFields fs) k = map_of fs k"
| "table_field (TArr xs) k = None"

fun table_array :: "lua_table \<Rightarrow> string list" where
  "table_array (TFields fs) = []"
| "table_array (TArr xs) = xs"

text \<open>
  The interpreter on these files: running a file gives its table, and the accessors give a field of
  the right kind, the default, or an error.
\<close>

definition shipped_lua :: "('d, 'v) lua_std \<Rightarrow> ('v, script option, lua_table, script) lua_lib" where
  "shipped_lua S =
     \<lparr>lua_open_libraries = (\<lambda>v. v), lua_bind_environment = (\<lambda>v. v),
      lua_script_file = (\<lambda>p v. (Inr (find (\<lambda>s. script_file s = p) all_scripts), v)),
      res_valid = (\<lambda>r. r \<noteq> None), res_is_table = (\<lambda>r. r \<noteq> None),
      res_table = (\<lambda>v r. case r of None \<Rightarrow> Inl (OtherException ''table expected'') | Some s \<Rightarrow> Inr (TFields (script_table s))),
      tbl_valid = (\<lambda>v t k. table_field t k \<noteq> None),
      tbl_string = (\<lambda>v t k. case table_field t k of Some (FStr s) \<Rightarrow> Inr s | _ \<Rightarrow> Inl (OtherException ''string expected'')),
      tbl_table = (\<lambda>v t k. case table_field t k of Some (FArr xs) \<Rightarrow> Inr (TArr xs) | _ \<Rightarrow> Inl (OtherException ''table expected'')),
      tbl_function = (\<lambda>v t k. case table_field t k of Some (FFun f) \<Rightarrow> Inr f | _ \<Rightarrow> Inl (OtherException ''function expected'')),
      tbl_get_or_string = (\<lambda>v t k d. case table_field t k of Some (FStr s) \<Rightarrow> s | _ \<Rightarrow> d),
      tbl_get_or_int = (\<lambda>v t k d. case table_field t k of Some (FInt i) \<Rightarrow> i | _ \<Rightarrow> d),
      tbl_get_or_bool = (\<lambda>v t k d. case table_field t k of Some (FBool b) \<Rightarrow> b | _ \<Rightarrow> d),
      tbl_size = (\<lambda>v t. length (table_array t)),
      tbl_index_valid = (\<lambda>v t i. 1 \<le> i \<and> i \<le> length (table_array t)),
      tbl_index_string = (\<lambda>v t i. if 1 \<le> i \<and> i \<le> length (table_array t) then Inr (table_array t ! (i - 1))
        else Inl (OtherException ''string expected'')),
      fn_valid = (\<lambda>f. True), fn_call = script_execute S\<rparr>"

definition script_entry :: "script \<Rightarrow> dir_entry" where
  "script_entry s = \<lparr>entry_path = script_file s, entry_is_regular = Inr True\<rparr>"

end
