(* ===== verification/Script_Properties.thy ===== *)
theory Script_Properties
  imports Lua_Scripts Lua_Guards
begin

text \<open>
  What the shipped scripts promise: they load and are bound to their names and aliases with the
  limits they declare, and they only play files that the audio system has found.
\<close>

section \<open>Loading\<close>

definition base_meta :: "string \<Rightarrow> string \<Rightarrow> string \<Rightarrow> CommandMetadata" where
  "base_meta n d u =
     \<lparr>meta_name = n, meta_description = d, meta_usage = u, meta_aliases = [], global_cooldown = 0, command_cooldown = 0,
      user_cooldown = 0, mod_only = False, vip_only = False, subscriber_only = False, allowed_users = [],
      meta_enabled = True, max_uses_per_stream = - 1\<rparr>"

fun script_meta :: "script \<Rightarrow> CommandMetadata" where
  "script_meta Dice = (base_meta ''dice'' ''Roll dice'' ''!dice [sides]'')
     \<lparr>meta_aliases := [''roll'', ''d6''], user_cooldown := 15, max_uses_per_stream := 50\<rparr>"
| "script_meta Flip = (base_meta ''flip'' ''Flip a coin'' ''!flip'')
     \<lparr>meta_aliases := [''coin'', ''coinflip''], command_cooldown := 5\<rparr>"
| "script_meta Hello = (base_meta ''hello'' ''Greet a user'' ''!hello [username]'')\<lparr>user_cooldown := 10\<rparr>"
| "script_meta Special = (base_meta ''special'' ''Special limited command'' ''!special'')
     \<lparr>subscriber_only := True, user_cooldown := 60, command_cooldown := 10, max_uses_per_stream := 10\<rparr>"
| "script_meta Modcmd = (base_meta ''modcmd'' ''Moderator only command'' ''!modcmd'')\<lparr>mod_only := True\<rparr>"
| "script_meta Sfx = (base_meta ''sfx'' ''Play sound effects'' ''!sfx <soundname> | !sfx list [page] | !sfx random'')
     \<lparr>meta_aliases := [''sound'', ''audio'', ''play''], user_cooldown := 3, command_cooldown := 1\<rparr>"
| "script_meta VipJoke = (base_meta ''vipjoke'' ''Tell a VIP joke'' ''!vipjoke'')
     \<lparr>vip_only := True, allowed_users := [''specificfriend'', ''anotherfriend''], command_cooldown := 30\<rparr>"

definition script_names :: "script \<Rightarrow> string list" where
  "script_names s = meta_name (script_meta s) # meta_aliases (script_meta s)"

lemma script_names_disjoint: "n \<in> set (script_names s) \<Longrightarrow> n \<in> set (script_names s') \<Longrightarrow> s' = s"
  by (cases s; cases s'; simp add: script_names_def base_meta_def; elim disjE; simp)

lemma script_names_plain: "n \<in> set (script_names s) \<Longrightarrow> n \<noteq> [] \<and> transform_tolower n = n"
  by (cases s) (auto simp: script_names_def base_meta_def transform_tolower_def tolower_def)

lemma find_script: "find (\<lambda>t. script_file t = script_file s) all_scripts = Some s"
  by (cases s) (simp_all add: all_scripts_def)

lemma read_shipped:
  "read_command (shipped_lua S) v (Some s) = Inr (Some (meta_name (script_meta s), script_meta s))"
  by (cases s) (simp_all add: read_command_def parseCommandMetadata_def string_array_def shipped_lua_def base_meta_def
      upt_rec Let_def)

lemma script_file_extension: "path_extension (script_file s) = ''.lua''"
  by (cases s) (simp_all add: path_extension_def path_filename_def Let_def)

lemma load_shipped:
  assumes "env_lua E = shipped_lua S" and "fs_exists (env_fs E) (script_file s) = Inr True" and "engine_initialized eng"
  shows "loadLuaCommand E (script_file s) eng =
    (Inr True, store_command (meta_name (script_meta s)) (script_meta s) (script_file s) eng)"
proof -
  have r: "lua_script_file (shipped_lua S) (script_file s) (m_lua eng) = (Inr (Some s), m_lua eng)"
    by (simp add: shipped_lua_def find_script)
  show ?thesis unfolding loadLuaCommand_def assms(1,2) r by (simp add: assms(3) read_shipped Let_def)
qed

lemma script_entry_fields [simp]:
  "entry_path (script_entry s) = script_file s" "entry_is_regular (script_entry s) = Inr True"
  by (simp_all add: script_entry_def)

lemma store_shipped:
  assumes "nm \<in> set (script_names t)"
  shows "m_command_metadata (store_command (meta_name (script_meta s)) (script_meta s) path eng) nm =
      (if t = s then Some (script_meta s) else m_command_metadata eng nm)"
    and "map_of (m_command_files (store_command (meta_name (script_meta s)) (script_meta s) path eng)) nm =
      (if t = s then Some path else map_of (m_command_files eng) nm)"
proof -
  have "nm \<in> set (meta_name (script_meta s) # meta_aliases (script_meta s)) \<longleftrightarrow> t = s"
    using assms script_names_disjoint [OF assms, of s] by (auto simp: script_names_def)
  then show "m_command_metadata (store_command (meta_name (script_meta s)) (script_meta s) path eng) nm =
      (if t = s then Some (script_meta s) else m_command_metadata eng nm)"
    "map_of (m_command_files (store_command (meta_name (script_meta s)) (script_meta s) path eng)) nm =
      (if t = s then Some path else map_of (m_command_files eng) nm)"
    unfolding store_command_fields by simp_all
qed

lemma store_other:
  assumes "\<And>t. nm \<notin> set (script_names t)"
  shows "map_of (m_command_files (store_command (meta_name (script_meta s)) (script_meta s) path eng)) nm =
    map_of (m_command_files eng) nm"
  using assms [of s] unfolding store_command_fields by (simp add: script_names_def)

text \<open>Each script the loop has passed is stored under its names, and nothing else is in the list of files.\<close>

lemma load_loop_shipped:
  assumes "env_lua E = shipped_lua S" and "\<And>s. fs_exists (env_fs E) (script_file s) = Inr True"
    and "engine_initialized eng" and "load_loop E (map script_entry ss) k eng = (n, eng')"
  shows "n = k + length ss \<and> engine_initialized eng' \<and>
    (\<forall>s nm. nm \<in> set (script_names s) \<longrightarrow>
       m_command_metadata eng' nm = (if s \<in> set ss then Some (script_meta s) else m_command_metadata eng nm) \<and>
       map_of (m_command_files eng') nm = (if s \<in> set ss then Some (script_file s) else map_of (m_command_files eng) nm)) \<and>
    (\<forall>nm. (\<forall>s. nm \<notin> set (script_names s)) \<longrightarrow> map_of (m_command_files eng') nm = map_of (m_command_files eng) nm)"
  using assms(3,4)
proof (induction ss arbitrary: k eng)
  case (Cons s ss)
  let ?eng = "store_command (meta_name (script_meta s)) (script_meta s) (script_file s) eng"
  have "load_loop E (map script_entry ss) (k + 1) ?eng = (n, eng')" "engine_initialized ?eng"
    using Cons.prems
    by (simp_all add: script_file_extension load_shipped [OF assms(1,2)] store_command_fields)
  from Cons.IH [OF this(2,1)] show ?case
    by (auto simp: store_shipped store_other)
qed simp

section \<open>Registration\<close>

definition shipped_entry :: "string \<times> string \<Rightarrow> bool" where
  "shipped_entry = (\<lambda>(n, p). \<exists>s. n \<in> set (script_names s) \<and> p = script_file s)"

lemma set_update: "set (AList.update k v xs) \<subseteq> insert (k, v) (set xs)"
  by (induction xs) auto

lemma alias_loop_entries:
  "set (m_command_files (alias_loop as meta path eng)) \<subseteq> set (map (\<lambda>a. (a, path)) as) \<union> set (m_command_files eng)"
proof (induction as arbitrary: eng)
  case (Cons a as)
  let ?eng = "eng\<lparr>m_command_metadata := (m_command_metadata eng)(a \<mapsto> meta),
    m_command_files := AList.update a path (m_command_files eng)\<rparr>"
  show ?case using Cons [of ?eng] set_update [of a path "m_command_files eng"] by auto
qed simp

lemma load_loop_entries:
  assumes "env_lua E = shipped_lua S" and "\<And>s. fs_exists (env_fs E) (script_file s) = Inr True"
    and "engine_initialized eng" and "list_all shipped_entry (m_command_files eng)"
  shows "list_all shipped_entry (m_command_files (snd (load_loop E (map script_entry ss) k eng)))"
  using assms(3,4)
proof (induction ss arbitrary: k eng)
  case (Cons s ss)
  let ?m = "script_meta s"
  let ?eng = "eng\<lparr>m_command_files := AList.update (meta_name ?m) (script_file s) (m_command_files eng),
    m_command_metadata := (m_command_metadata eng)(meta_name ?m \<mapsto> ?m)\<rparr>"
  have "set (m_command_files (store_command (meta_name ?m) ?m (script_file s) eng)) \<subseteq>
      set (map (\<lambda>a. (a, script_file s)) (script_names s)) \<union> set (m_command_files eng)"
    using alias_loop_entries [of "meta_aliases ?m" ?m "script_file s" ?eng]
      set_update [of "meta_name ?m" "script_file s" "m_command_files eng"]
    by (auto simp: store_command_def script_names_def)
  then have "list_all shipped_entry (m_command_files (store_command (meta_name ?m) ?m (script_file s) eng))"
    using Cons.prems(2) by (fastforce simp: list_all_iff shipped_entry_def)
  with Cons show ?case
    by (simp add: script_file_extension load_shipped [OF assms(1,2)] store_command_fields)
qed simp

definition script_at :: "string \<Rightarrow> script" where
  "script_at p = the (find (\<lambda>t. script_file t = p) all_scripts)"

lemma register_shipped:
  assumes "env_lua E = shipped_lua S"
  shows "register_one E (n, script_file s) (eng, P) = (eng, registerCommand n (Some (LuaHandler s n)) P)"
proof -
  have "map_of (script_table s) ''execute'' = Some (FFun s)" by (cases s) simp_all
  then show ?thesis
    by (simp add: register_one_def assms shipped_lua_def find_script Let_def)
qed

lemma register_all_shipped:
  assumes "env_lua E = shipped_lua S" and "list_all shipped_entry files"
  shows "fold (register_one E) files (eng, P) =
    (eng, fold (\<lambda>(n, h). registerCommand n (Some h)) (map (\<lambda>(n, p). (n, LuaHandler (script_at p) n)) files) P)"
  using assms(2)
proof (induction files arbitrary: P)
  case (Cons x files)
  then obtain n s where x: "x = (n, script_file s)" by (auto simp: shipped_entry_def split: prod.splits)
  have "script_at (script_file s) = s" by (simp add: script_at_def find_script)
  with Cons x register_shipped [OF assms(1)] show ?case by simp
qed simp

lemma registered_shipped:
  assumes "env_lua E = shipped_lua S" and "list_all shipped_entry files"
    and "(nm, script_file s) \<in> set files" and "nm \<in> set (script_names s)"
  shows "parser_lookup (snd (fold (register_one E) files (eng, P))) nm = Some (LuaHandler s nm)"
proof -
  let ?regs = "map (\<lambda>(n, p). (n, LuaHandler (script_at p) n)) files"
  have at: "script_at (script_file t) = t" for t by (simp add: script_at_def find_script)
  have m: "(nm, LuaHandler s nm) \<in> set ?regs"
    unfolding set_map by (rule image_eqI [OF _ assms(3)]) (simp add: at)
  have "snd r = LuaHandler s nm" if mem: "r \<in> set ?regs" and low: "transform_tolower (fst r) = transform_tolower nm" for r
  proof -
    obtain n t where r: "r = (n, LuaHandler t n)" "n \<in> set (script_names t)"
      using mem assms(2) at by (fastforce simp: list_all_iff shipped_entry_def)
    then have "n = nm" using low script_names_plain assms(4) by fastforce
    with r assms(4) script_names_disjoint show ?thesis by fastforce
  qed
  then show ?thesis
    using parser_registry.lookup_register_all_unique [OF m] script_names_plain [OF assms(4)]
    by (simp add: register_all_shipped [OF assms(1,2)])
qed

text \<open>
  The shipped scripts work together with the engine. Loading any of them, in any order, and
  registering what was loaded, in the order of the hash table, gives each script's own metadata and
  function for its name and for each of its aliases, and counts every file.
\<close>

theorem shipped_commands_available:
  assumes "env_lua E = shipped_lua S" and "\<And>s. fs_exists (env_fs E) (script_file s) = Inr True"
    and "\<And>xs. set (env_hash_order E xs) = set xs"
    and "engine_initialized eng" and "m_command_files eng = []"
    and "load_loop E (map script_entry ss) 0 eng = (n, eng')" and "registerWithParser E (eng', P) = (eng'', P')"
    and "s \<in> set ss" and "nm \<in> set (script_names s)"
  shows "n = length ss \<and> m_command_metadata eng'' nm = Some (script_meta s) \<and>
    parser_lookup P' nm = Some (LuaHandler s nm)"
proof -
  note l = load_loop_shipped [OF assms(1,2,4,6)]
  from l assms(8,9) have m: "n = length ss" "engine_initialized eng'" "m_command_metadata eng' nm = Some (script_meta s)"
    "map_of (m_command_files eng') nm = Some (script_file s)" by auto
  let ?files = "env_hash_order E (m_command_files eng')"
  have "list_all shipped_entry (m_command_files eng')"
    using load_loop_entries [OF assms(1,2,4), of ss 0] assms(5,6) by simp
  then have e: "list_all shipped_entry ?files" by (simp add: list_all_iff assms(3))
  have f: "(nm, script_file s) \<in> set ?files" using map_of_SomeD [OF m(4)] by (simp add: assms(3))
  have r: "fold (register_one E) ?files (eng', P) = (eng'', P')"
    using assms(7) m(2) by (simp add: registerWithParser_def)
  then have "eng'' = eng'" using register_all_shipped [OF assms(1) e, of eng' P] by simp
  with m registered_shipped [OF assms(1) e f assms(9), of eng' P] r show ?thesis by simp
qed

definition int_floats :: "int lua_floats" where
  "int_floats = \<lparr>float_strtod = (\<lambda>s. None), float_tostring = (\<lambda>d. show_nat (nat d mod 100) @ ''.0''), float_of_int = (\<lambda>i. i),
     float_add = (+), float_sub = (-), float_mul = (*), float_less = (<), float_le = (\<le>),
     float_to_int = Some, sol_integer = Some\<rparr>"

definition first_std :: "(int, nat) lua_std" where
  "first_std = \<lparr>std_floats = int_floats, std_random = (\<lambda>v n. (1, Suc v))\<rparr>"

definition shipped_env :: "(nat, script option, lua_table, script) lua_env" where
  "shipped_env = \<lparr>env_lua = shipped_lua first_std, env_fs = sample_fs\<lparr>fs_exists := (\<lambda>p. Inr True)\<rparr>, env_ma = sample_ma,
     env_clock = (\<lambda>i. int i * 10 ^ 10), env_hash_order = rev\<rparr>"

theorem shipped_commands_available_witness:
  "let eng = LuaCommandEngine_initialize shipped_env (LuaCommandEngine_new shipped_env 0);
       eng' = snd (load_loop shipped_env (map script_entry all_scripts) 0 eng);
       P' = snd (registerWithParser shipped_env (eng', CommandParser_new))
   in parser_lookup P' ''d6'' = Some (LuaHandler Dice ''d6'')"
proof -
  let ?E = shipped_env
  let ?eng = "LuaCommandEngine_initialize ?E (LuaCommandEngine_new ?E 0)"
  obtain n eng' where l: "load_loop ?E (map script_entry all_scripts) 0 ?eng = (n, eng')" by fastforce
  obtain eng'' P' where r: "registerWithParser ?E (eng', CommandParser_new) = (eng'', P')" by fastforce
  have "engine_initialized ?eng" "m_command_files ?eng = []"
    by (simp_all add: LuaCommandEngine_initialize_def LuaCommandEngine_new_def setupLuaEnvironment_def Let_def)
  moreover have "Dice \<in> set all_scripts" "''d6'' \<in> set (script_names Dice)"
    by (simp_all add: all_scripts_def script_names_def base_meta_def)
  ultimately show ?thesis
    using shipped_commands_available [OF _ _ _ _ _ l r, of first_std Dice "''d6''"] l r
    by (simp add: shipped_env_def Let_def)
qed

section \<open>Sounds\<close>

text \<open>
  Each sound that a call plays is the file that its last search of the sound folder has found, at a
  volume from 0 to 100.
\<close>

fun found_by :: "lua_api \<Rightarrow> exn + lua_value \<Rightarrow> string option \<Rightarrow> string option" where
  "found_by (FindAudioFile n d) (Inr (VStr p)) found = (if d = c_sound_dir then Some p else found)"
| "found_by a r found = found"

fun sound_ok :: "string option \<Rightarrow> lua_api \<Rightarrow> bool" where
  "sound_ok found (PlaySound p (Some vol)) \<longleftrightarrow> found = Some p \<and> p \<noteq> [] \<and> 0 \<le> vol \<and> vol \<le> 100"
| "sound_ok found (PlaySound p None) \<longleftrightarrow> found = Some p \<and> p \<noteq> []"
| "sound_ok found a \<longleftrightarrow> True"

primrec plays_found :: "'v lua_behaviour \<Rightarrow> string option \<Rightarrow> bool" where
  "plays_found (LuaReturn v) = (\<lambda>found. True)"
| "plays_found (LuaError err v) = (\<lambda>found. True)"
| "plays_found (LuaThrow err v) = (\<lambda>found. True)"
| "plays_found (LuaCall a k) = (\<lambda>found. sound_ok found a \<and> (\<forall>r. plays_found (k r) (found_by a r found)))"

lemma plays_lua_call:
  "sound_ok found a \<Longrightarrow> (\<And>x. plays_found (k x) (found_by a (Inr x) found)) \<Longrightarrow> plays_found (lua_call a v k) found"
  by (auto simp: lua_call_def split: sum.split)

lemma plays_reply [simp]: "plays_found (reply_and_return text v) found"
  unfolding reply_and_return_def by (rule plays_lua_call) simp_all

lemma plays_values:
  "(\<And>x. y = VStr x \<Longrightarrow> plays_found (k x) found) \<Longrightarrow> plays_found (with_str v k y) found"
  "(\<And>xs. plays_found (f xs) found) \<Longrightarrow> plays_found (with_strs v f y) found"
  "(\<And>a. plays_found (g a) found) \<Longrightarrow> plays_found (or_error v g z) found"
  "(\<And>r v'. plays_found (h r v') found) \<Longrightarrow> plays_found (math_random S n v h) found"
  by (auto simp: with_str_def with_strs_def or_error_def math_random_def split: lua_value.split option.split prod.split)

definition sol_rounds :: "'d lua_floats \<Rightarrow> bool" where
  "sol_rounds F \<longleftrightarrow>
     (\<forall>d. float_less F (float_of_int F 0) d \<longrightarrow> float_less F d (float_of_int F 100) \<longrightarrow>
        (case sol_integer F d of None \<Rightarrow> True | Some i \<Rightarrow> 0 \<le> i \<and> i \<le> 100))"

lemma sfx_volume_range:
  assumes "sol_rounds F"
  shows "case sol_int F (sfx_volume F args) of None \<Rightarrow> True | Some i \<Rightarrow> 0 \<le> i \<and> i \<le> 100"
proof -
  have "case sol_int F (clamp_volume F n) of None \<Rightarrow> True | Some i \<Rightarrow> 0 \<le> i \<and> i \<le> 100" for n
    using assms by (cases n) (auto simp: clamp_volume_def math_max_def math_min_def sol_rounds_def sol_int_def)
  moreover have "sol_int F (LInt 70) = Some 70" by (simp add: sol_int_def)
  ultimately show ?thesis by (cases "tonumber F (args ! 1)") (simp_all add: sfx_volume_def)
qed

lemma plays_play:
  assumes "sol_rounds F" and "path \<noteq> []"
  shows "plays_found (play_and_reply F path (sfx_volume F args) yes no v) (Some path)"
  unfolding play_and_reply_def
proof (rule plays_lua_call)
  show "sound_ok (Some path) (PlaySound path (sol_int F (sfx_volume F args)))"
    using assms(2) sfx_volume_range [OF assms(1), of args] by (cases "sol_int F (sfx_volume F args)") simp_all
qed simp

lemma plays_after_search:
  assumes "\<And>path. plays_found (k path) (Some path)"
  shows "plays_found (lua_call (FindAudioFile name c_sound_dir) v (with_str v k)) found"
proof (rule plays_lua_call)
  show "plays_found (with_str v k x) (found_by (FindAudioFile name c_sound_dir) (Inr x) found)" for x
    using assms by (intro plays_values(1)) simp
qed simp

text \<open>
  C25: The shipped scripts only play what was looked up: whatever a viewer writes and whatever the
  methods answer, each file that a script plays is not empty and the result of its last search in
  the sound folder, and the volume is between 0 and 100 or, where C++ takes no integer from it, left
  to the default, if the conversion of a float between 0 and 100 to an integer stays there.
\<close>

theorem scripts_play_found_files:
  assumes "sol_rounds (std_floats S)"
  shows "plays_found (script_execute S s args v) None"
proof (cases s)
  case Sfx
  let ?F = "std_floats S"
  have play: "plays_found (sfx_play S name args v) None" for name
    unfolding sfx_play_def by (rule plays_after_search) (simp add: plays_play [OF assms])
  have "plays_found (sfx_random S args v) None"
    unfolding sfx_random_def
  proof (rule plays_lua_call)
    fix x
    show "plays_found (with_strs v (\<lambda>sounds.
       if sounds = [] then reply_and_return ''No sounds available for random selection'' v
       else math_random S (LInt (int (length sounds))) v (\<lambda>r v'.
         or_error v' (\<lambda>random_sound.
           lua_call (FindAudioFile random_sound c_sound_dir) v' (with_str v' (\<lambda>filepath.
             if filepath \<noteq> []
             then play_and_reply ?F filepath (sfx_volume ?F args)
                    (''Random sound: '' @ random_sound) (''Failed to play random sound: '' @ random_sound) v'
             else reply_and_return ''Could not find random sound file'' v')))
           (lua_nth sounds r))) x) (found_by (ListAudioFiles c_sound_dir) (Inr x) None)"
      by (rule plays_values(2)) (auto intro!: plays_values(3,4) plays_after_search simp: plays_play [OF assms])
  qed simp
  moreover have "plays_found (sfx_list ?F args v) None"
    unfolding sfx_list_def by (auto intro!: plays_lua_call plays_values(2,3))
  ultimately show ?thesis using Sfx play by (simp add: sfx_execute_def Let_def)
qed (auto intro!: plays_lua_call plays_values simp: dice_execute_def flip_execute_def hello_execute_def special_execute_def
    modcmd_execute_def vip_joke_execute_def Let_def)

theorem scripts_play_found_files_witness:
  "plays_found (script_execute first_std Sfx [''airhorn'', ''250''] 0) None"
  by (rule scripts_play_found_files) (simp add: sol_rounds_def first_std_def int_floats_def)

end
