(* ===== verification/Sfx_Pages.thy ===== *)
theory Sfx_Pages
  imports Script_Properties
begin

text \<open>
  The listing of \<^verbatim>\<open>src/commands/sfx.lua\<close>: a page is the longest part of the list, from where the page
  starts, that fits a message; the reply is never longer than a chat message may be; and which
  sounds are on some page.
\<close>

section \<open>Pages\<close>

lemma join_with_snoc: "join_with sep (xs @ [x]) = (if xs = [] then x else join_with sep xs @ sep @ x)"
  by (cases xs) (simp_all add: join_with_Cons)

definition fits :: "string list \<Rightarrow> bool" where
  "fits names \<longleftrightarrow> length (c_available @ join_with '', '' names) \<le> 450"

lemma added_length:
  "length (c_available @ join_with '', '' acc) + length (if 0 < length acc then '', '' @ x else x) =
     length (c_available @ join_with '', '' (acc @ [x]))"
  by (simp add: join_with_snoc)

lemma page_loop_step:
  "page_loop F sounds i (length acc) (length (c_available @ join_with '', '' acc)) acc =
     (if \<not> lua_le F i (LInt (int (length sounds))) then Some acc
      else case sound_at F sounds i of
             None \<Rightarrow> None
           | Some x \<Rightarrow>
               if fits (acc @ [x])
               then page_loop F sounds (lua_add F i (LInt 1)) (length (acc @ [x]))
                      (length (c_available @ join_with '', '' (acc @ [x]))) (acc @ [x])
               else Some acc)"
  by (subst page_loop.simps) (simp add: fits_def Let_def join_with_snoc not_le add.assoc split: option.splits)

text \<open>Whatever the index is, a page fits.\<close>

lemma page_loop_fits:
  assumes "page_loop F sounds i a c acc = Some ps" and "a = length acc"
    and "c = length (c_available @ join_with '', '' acc)" and "fits acc"
  shows "fits ps"
  using assms
proof (induction F sounds i a c acc rule: page_loop.induct)
  case (1 F sounds i a c acc)
  let ?c = "\<lambda>acc. length (c_available @ join_with '', '' acc)"
  have "page_loop F sounds i (length acc) (?c acc) acc = Some ps" using "1.prems"(1-3) by metis
  then have run: "(if \<not> lua_le F i (LInt (int (length sounds))) then Some acc
      else case sound_at F sounds i of
             None \<Rightarrow> None
           | Some x \<Rightarrow>
               if fits (acc @ [x])
               then page_loop F sounds (lua_add F i (LInt 1)) (length (acc @ [x])) (?c (acc @ [x])) (acc @ [x])
               else Some acc) = Some ps"
    by (rule page_loop_step [symmetric, THEN trans])
  show ?case
  proof (cases "lua_le F i (LInt (int (length sounds)))")
    case le: True
    show ?thesis
    proof (cases "sound_at F sounds i")
      case (Some x)
      have e: "c + length (if a > 0 then '', '' @ x else x) = length (c_available @ join_with '', '' (acc @ [x]))"
        unfolding "1.prems"(2,3) by (rule added_length)
      show ?thesis
      proof (cases "fits (acc @ [x])")
        case True
        then have "\<not> 450 < c + length (if a > 0 then '', '' @ x else x)" unfolding e fits_def by simp
        moreover have "page_loop F sounds (lua_add F i (LInt 1)) (a + 1) (c + length (if a > 0 then '', '' @ x else x)) (acc @ [x]) = Some ps"
          using run le Some True unfolding e by (simp add: "1.prems"(2) del: append_assoc)
        moreover have "a + 1 = length (acc @ [x])" by (simp add: "1.prems"(2))
        ultimately show ?thesis
          using "1.IH" [OF _ Some refl _ _ _ e True] le by blast
      qed (use run le Some "1.prems"(4) in simp)
    qed (use run le in simp)
  qed (use run "1.prems"(4) in simp)
qed

text \<open>With an integer index, the loop takes names as long as they fit.\<close>

definition longest_fit :: "string list \<Rightarrow> string list \<Rightarrow> string list \<Rightarrow> bool" where
  "longest_fit acc xs ps \<longleftrightarrow>
     (\<exists>n \<le> length xs. ps = acc @ take n xs \<and> fits ps \<and> (n = length xs \<or> \<not> fits (acc @ take (Suc n) xs)))"

lemma longest_fit_Nil: "fits acc \<Longrightarrow> longest_fit acc [] acc"
  by (simp add: longest_fit_def)

lemma longest_fit_stop: "fits acc \<Longrightarrow> \<not> fits (acc @ [x]) \<Longrightarrow> longest_fit acc (x # xs) acc"
  unfolding longest_fit_def by (intro exI [of _ 0]) simp

lemma longest_fit_Cons: "longest_fit (acc @ [x]) xs ps \<Longrightarrow> longest_fit acc (x # xs) ps"
  unfolding longest_fit_def by (elim exE conjE) (rule_tac x = "Suc n" in exI, simp)

lemma page_loop_int:
  assumes "in_range64 (int (length sounds) + 1)" and "fits acc" and "k \<le> length sounds"
  shows "\<exists>ps. page_loop F sounds (LInt (int k + 1)) (length acc) (length (c_available @ join_with '', '' acc)) acc = Some ps \<and>
    longest_fit acc (drop k sounds) ps"
  using assms(2,3)
proof (induction "length sounds - k" arbitrary: k acc)
  case 0
  then have "drop k sounds = []" "\<not> lua_le F (LInt (int k + 1)) (LInt (int (length sounds)))" by simp_all
  with 0 show ?case by (subst page_loop_step) (simp add: longest_fit_Nil)
next
  case (Suc m)
  then have k: "k < length sounds" by simp
  let ?x = "sounds ! k"
  have d: "drop k sounds = ?x # drop (Suc k) sounds" by (rule Cons_nth_drop_Suc [OF k, symmetric])
  have at: "sound_at F sounds (LInt (int k + 1)) = Some ?x" using k by (simp add: sound_at_def sol_int_def lua_nth_def)
  have nxt: "lua_add F (LInt (int k + 1)) (LInt 1) = LInt (int (Suc k) + 1)"
    using assms(1) k by (simp add: wrap64_id in_range64_def)
  have le: "lua_le F (LInt (int k + 1)) (LInt (int (length sounds)))" using k by simp
  show ?case
  proof (cases "fits (acc @ [?x])")
    case True
    have "m = length sounds - Suc k" "Suc k \<le> length sounds" using Suc.hyps(2) k by simp_all
    from Suc.hyps(1) [OF this(1) True this(2)] show ?thesis
      unfolding d by (subst page_loop_step) (auto simp only: le at nxt True simp_thms if_True if_False option.case intro: longest_fit_Cons)
  next
    case False
    with Suc.prems(1) show ?thesis
      unfolding d by (subst page_loop_step) (simp add: at le longest_fit_stop del: lua_le.simps)
  qed
qed

lemma sfx_pages:
  assumes "1 \<le> page" and "page \<le> 2 ^ 58" and "length sounds < 2 ^ 62"
  shows "\<exists>ps. page_loop F sounds (start_index F (LInt page)) 0 (length c_available) [] = Some ps \<and>
    longest_fit [] (drop (nat (15 * (page - 1))) sounds) ps"
proof -
  let ?k = "nat (15 * (page - 1))"
  have s: "start_index F (LInt page) = LInt (int ?k + 1)"
    using assms(1,2) by (simp add: start_index_def wrap64_id in_range64_def)
  have f: "fits []" by (simp add: fits_def c_available_def)
  show ?thesis
  proof (cases "?k \<le> length sounds")
    case True
    have "in_range64 (int (length sounds) + 1)" using assms(3) by (simp add: in_range64_def)
    from page_loop_int [OF this f True, of F] show ?thesis unfolding s by simp
  next
    case False
    then have "int (length sounds) < int ?k" by (simp only: of_nat_less_iff not_le)
    then have "\<not> lua_le F (LInt (int ?k + 1)) (LInt (int (length sounds)))" by (simp only: lua_le.simps)
    then show ?thesis unfolding s using False f by (subst page_loop.simps) (simp add: longest_fit_Nil del: lua_le.simps)
  qed
qed

text \<open>
  What a page of \<^verbatim>\<open>!sfx list\<close> shows. For a page number from 1 on, as long as the arithmetic does
  not overflow, it is the longest part of the sorted list, from entry \<open>15 * (page - 1)\<close> on, that fits
  into 450 characters with its heading.
\<close>

theorem sfx_page_is_longest_fit:
  assumes "1 \<le> page" and "page \<le> 2 ^ 58" and "length sounds < 2 ^ 62"
  shows "\<exists>ps. page_loop F sounds (start_index F (LInt page)) 0 (length c_available) [] = Some ps \<and>
    longest_fit [] (drop (nat (15 * (page - 1))) sounds) ps"
  using assms by (rule sfx_pages)

theorem sfx_page_is_longest_fit_witness:
  "\<exists>ps. page_loop int_floats [''airhorn'', ''drum''] (start_index int_floats (LInt 1)) 0 (length c_available) [] = Some ps \<and>
    longest_fit [] [''airhorn'', ''drum''] ps"
  using sfx_page_is_longest_fit [of 1 "[''airhorn'', ''drum'']" int_floats] by simp

section \<open>The length of a reply\<close>

lemma total_pages_le: "0 < k \<Longrightarrow> total_pages n k \<le> n"
  unfolding total_pages_def by (cases n) (simp_all add: div_le_mono less_eq_div_iff_mult_less_eq flip: Suc_diff_1)

lemma lua_tostring_length:
  assumes "number_ok n" and "\<And>d. length (float_tostring F d) \<le> 21"
  shows "length (lua_tostring F n) \<le> 21"
  using assms show_int_length by (cases n) (auto intro: le_trans [of _ 20])

lemma sfx_page_ok: "number_ok (sfx_page F args)"
  by (auto simp: sfx_page_def in_range64_def tonumber_ok split: option.splits)

text \<open>
  C26: A listing fits a chat message. Whatever the page argument is, an integer of any size, a float or
  no number at all, a reply of \<^verbatim>\<open>!sfx list\<close> has at most 499 characters, if Lua prints a float in at
  most 21, as its format does.
\<close>

theorem sfx_listing_fits_chat:
  assumes "\<And>d. length (float_tostring F d) \<le> 21" and "length sounds < 10 ^ 19"
    and "list_reply F (sfx_page F args) sounds = Some text"
  shows "length text \<le> 499"
proof (cases "sounds = []")
  case True
  with assms(3) show ?thesis by (auto simp: list_reply_def c_sound_dir_def)
next
  case False
  let ?page = "lua_tostring F (sfx_page F args)"
  have p: "length ?page \<le> 21" by (rule lua_tostring_length [OF sfx_page_ok assms(1)])
  obtain ps where ps: "page_loop F sounds (start_index F (sfx_page F args)) 0 (length c_available) [] = Some ps"
    using assms(3) False by (auto simp: list_reply_def split: option.splits)
  show ?thesis
  proof (cases ps)
    case Nil
    with assms(3) False ps p show ?thesis by (auto simp: list_reply_def)
  next
    case (Cons x xs)
    let ?total = "total_pages (length sounds) (length ps)"
    have "fits ps" using page_loop_fits [OF ps] by (simp add: fits_def c_available_def)
    moreover have "length (show_nat ?total) \<le> 19"
      using total_pages_le [of "length ps" "length sounds"] assms(2) Cons by (intro show_nat_length) auto
    moreover have "text = c_available @ join_with '', '' ps @
        (if ?total > 1 then '' (Page '' @ ?page @ ''/'' @ show_nat ?total @ '')'' else [])"
      using assms(3) False ps Cons by (auto simp: list_reply_def Let_def)
    ultimately show ?thesis using p by (simp add: fits_def)
  qed
qed

theorem sfx_listing_fits_chat_witness:
  "length (''Available sounds: airhorn, drum'') \<le> 499"
proof (rule sfx_listing_fits_chat [of int_floats "[''airhorn'', ''drum'']" "[''list'', ''x'']"])
  show "length (float_tostring int_floats d) \<le> 21" for d
    using show_nat_length [of "nat d mod 100" 2] by (simp add: int_floats_def)
  show "length [''airhorn'', ''drum''] < 10 ^ 19" by simp
  show "list_reply int_floats (sfx_page int_floats [''list'', ''x'']) [''airhorn'', ''drum''] =
    Some ''Available sounds: airhorn, drum''" by code_simp
qed

section \<open>Which sounds are listed\<close>

lemma join_with_le: "(\<And>x. x \<in> set xs \<Longrightarrow> length x \<le> k) \<Longrightarrow> length (join_with sep xs) \<le> (k + length sep) * length xs"
proof (induction xs rule: rev_induct)
  case (snoc x xs)
  then have "length (join_with sep xs) \<le> (k + length sep) * length xs" "length x \<le> k" by simp_all
  then show ?case by (simp add: join_with_snoc)
qed simp

lemma join_with_ge:
  "(\<And>x. x \<in> set xs \<Longrightarrow> k \<le> length x) \<Longrightarrow> (k + length sep) * length xs \<le> length (join_with sep xs) + length sep"
proof (induction xs rule: rev_induct)
  case (snoc x xs)
  then have "(k + length sep) * length xs \<le> length (join_with sep xs) + length sep" "k \<le> length x" by simp_all
  then show ?case by (simp add: join_with_snoc)
qed simp

lemma fits_short: "(\<And>x. x \<in> set xs \<Longrightarrow> length x \<le> 26) \<Longrightarrow> length xs \<le> 15 \<Longrightarrow> fits xs"
  using join_with_le [of xs 26 "'', ''"] by (simp add: fits_def c_available_def)

lemma fits_long: "(\<And>x. x \<in> set xs \<Longrightarrow> 60 \<le> length x) \<Longrightarrow> fits xs \<Longrightarrow> length xs \<le> 7"
  using join_with_ge [of xs 60 "'', ''"] by (simp add: fits_def c_available_def)

lemma longest_fit_short:
  assumes "longest_fit [] xs ps" and "\<And>x. x \<in> set xs \<Longrightarrow> length x \<le> 26" and "i < 15" and "i < length xs"
  shows "xs ! i \<in> set ps"
proof -
  obtain n where n: "n \<le> length xs" "ps = take n xs" "n = length xs \<or> \<not> fits (take (Suc n) xs)"
    using assms(1) by (auto simp: longest_fit_def)
  have "i < n"
  proof (rule ccontr)
    assume "\<not> i < n"
    then have "fits (take (Suc n) xs)" using assms(2,3) by (intro fits_short) (auto dest: in_set_takeD)
    with n(3) \<open>\<not> i < n\<close> assms(4) show False by simp
  qed
  with n(1,2) assms(4) show ?thesis by (auto simp: in_set_conv_nth)
qed

text \<open>
  A folder whose names have at most 26 characters is listed completely: the entry with index
  \<open>i\<close> of the sorted list is on page \<open>i div 15 + 1\<close>.
\<close>

theorem sfx_short_names_all_listed:
  assumes "\<And>x. x \<in> set sounds \<Longrightarrow> length x \<le> 26" and "i < length sounds" and "length sounds < 2 ^ 58"
  shows "\<exists>ps. page_loop F sounds (start_index F (LInt (int (i div 15) + 1))) 0 (length c_available) [] = Some ps \<and>
    sounds ! i \<in> set ps"
proof -
  let ?page = "int (i div 15) + 1"
  have "i div 15 \<le> i" by simp
  with assms(2,3) have "?page \<le> 2 ^ 58" by simp
  then obtain ps where ps: "page_loop F sounds (start_index F (LInt ?page)) 0 (length c_available) [] = Some ps"
    "longest_fit [] (drop (nat (15 * (?page - 1))) sounds) ps"
    using sfx_pages [of ?page sounds F] assms(3) by auto
  have k: "nat (15 * (?page - 1)) = 15 * (i div 15)" by (simp add: nat_mult_distrib)
  have "drop (15 * (i div 15)) sounds ! (i mod 15) \<in> set ps"
    using ps(2)[unfolded k] assms(1,2) by (rule_tac longest_fit_short) (auto dest: in_set_dropD simp: minus_mult_div_eq_mod [symmetric])
  then have "sounds ! i \<in> set ps" using assms(2) by simp
  with ps(1) show ?thesis by blast
qed

theorem sfx_short_names_all_listed_witness:
  "\<exists>ps. page_loop int_floats (replicate 16 ''drum'' @ [''horn'']) (start_index int_floats (LInt (int (16 div 15) + 1))) 0
      (length c_available) [] = Some ps \<and> (replicate 16 ''drum'' @ [''horn'']) ! 16 \<in> set ps"
  by (rule sfx_short_names_all_listed) auto

text \<open>
  The start of a page assumes 15 names on every page before it, whether they fitted or not. With
  names of 60 characters and more, seven fit; the entries 7 to 14 are on no page.
\<close>

theorem sfx_long_names_skipped:
  assumes "\<And>x. x \<in> set sounds \<Longrightarrow> 60 \<le> length x" and "distinct sounds" and "length sounds \<le> 15"
    and "7 \<le> i" and "i < length sounds" and "1 \<le> page" and "page \<le> 2 ^ 58"
  shows "\<exists>ps. page_loop F sounds (start_index F (LInt page)) 0 (length c_available) [] = Some ps \<and>
    sounds ! i \<notin> set ps"
proof -
  have "length sounds < 2 ^ 62" using assms(3) by simp
  then obtain ps where ps: "page_loop F sounds (start_index F (LInt page)) 0 (length c_available) [] = Some ps"
    "longest_fit [] (drop (nat (15 * (page - 1))) sounds) ps"
    using sfx_pages [of page sounds F] assms(6,7) by auto
  then obtain n where n: "ps = take n (drop (nat (15 * (page - 1))) sounds)" "fits ps" by (auto simp: longest_fit_def)
  have "sounds ! i \<notin> set ps"
  proof (cases "page = 1")
    case True
    then have t: "ps = take n sounds" using n(1) by simp
    then have "length ps \<le> 7" using n(2) assms(1) by (intro fits_long) (auto dest: in_set_takeD)
    then have "n \<le> 7" using t assms(4,5) by simp
    then show ?thesis using t assms(2,4,5) by (auto simp: in_set_conv_nth nth_eq_iff_index_eq)
  next
    case False
    then have "15 \<le> nat (15 * (page - 1))" using assms(6) by simp
    then show ?thesis using n(1) assms(3) by simp
  qed
  with ps(1) show ?thesis by blast
qed

end
