(* ===== verification/Command_Runs.thy ===== *)
theory Command_Runs
  imports Program_Runs Sfx_Pages
begin

text \<open>
  The command engine and the parser in the runs of the program. Nothing but the message callback
  touches them once the loop runs, so what the callback preserves holds in every state that is
  reached. With the shipped scripts: every command stays bound to its script, and every message
  that names one is answered once.
\<close>

section \<open>Objects that only the message callback touches\<close>

abbreviation kept :: "('x \<Rightarrow> bool) \<Rightarrow> (AppState \<times> 'x) tw_world io \<Rightarrow> bool" where
  "kept I \<equiv> \<lambda>(tr, W). I (snd (tw_app W))"

abbreviation ui_kept :: "('x \<Rightarrow> bool) \<Rightarrow> 'x ui_world uio \<Rightarrow> bool" where
  "ui_kept I \<equiv> \<lambda>(tr, X). I (snd (tw_app (ui_tw X)))"

lemma invA_zoom_kept: "(\<And>x W. tw_app (put x W) = tw_app W) \<Longrightarrow> invA (kept I) (zoomA get put m)"
  by (simp add: invA_def act_simps)

lemma kept_objects: "invA (kept I) (on_auth m)" "invA (kept I) (on_object a m')" "invA (kept I) (on_sender cfg m'')"
  unfolding on_auth_def on_object_def on_sender_def by (simp_all add: invA_zoom_kept update_service_def)

lemma kept_call: "invA (kept I) (call N c)"
  by (auto simp: invA_def act_simps)

lemma snd_app_simps [simp]:
  "tw_app (update_service f W) = tw_app W" "tw_app (co_spawn t W) = tw_app W" "tw_app (setupChatServices W) = tw_app W"
  "tw_app (spawn_subscriptions W) = tw_app W" "tw_app (TwitchService_sendMessage m W) = tw_app W"
  "tw_app (remove_task i W) = tw_app W" "tw_app (put_object a X W) = tw_app W"
  by (simp_all add: update_service_def co_spawn_def setupChatServices_def Let_def spawn_subscriptions_eq
      TwitchService_sendMessage_def remove_task_def put_object_def)

locale commands_kept =
  fixes C :: "(AppState \<times> 'x) tw_callbacks" and I :: "'x \<Rightarrow> bool"
  assumes message_keeps: "invA (kept I) (on_message C m)"
    and status_keeps: "snd (on_status C status x) = snd x"
begin

lemma status_kept [simp]:
  "snd (tw_app (report_status C status W)) = snd (tw_app W)" "snd (tw_app (setState C st status W)) = snd (tw_app W)"
  "snd (tw_app (startLogin C W)) = snd (tw_app W)" "snd (tw_app (disconnect C W)) = snd (tw_app W)"
  by (simp_all add: report_status_def setState_def startLogin_def disconnect_def status_keeps Let_def)

lemma callback_keeps: "invA (kept I) (eventsub_callback J C msg)"
  unfolding eventsub_callback_def handleEventSubMessage_def on_chat_message_def on_ad_break_def Let_def
  by (intro invA_catchA invA_bindA invA_thenA invA_simple invA_if invA_get_obj)
    (auto intro!: inv_intros message_keeps split: option.splits)

lemma read_body_keeps:
  assumes "I (snd (tw_app W))" and "read_body N (eventsub_callback J C) ws (tr, (E, W)) = (r, (tr', (E', W')))"
  shows "I (snd (tw_app W'))"
proof (cases "net_frame N tr")
  case (Inl e)
  with assms show ?thesis by (simp add: read_body_def act_simps)
next
  case (Inr frame)
  let ?s = "snd (eventsub_callback J C (m_buffer E @ frame) (tr @ [WsRead ws], W))"
  have "kept I ?s" using assms(1) by (intro invA_D [OF callback_keeps]) simp
  moreover have "W' = (if m_callback E then snd ?s else W)"
    using assms(2) Inr by (auto simp: read_body_def act_simps Let_def split: if_splits)
  ultimately show ?thesis using assms(1) by (simp add: case_prod_beta)
qed

lemma reading_keeps: "invA (kept I) (reading_task N J C a)"
  unfolding invA_def reading_task_def
  by (auto split: option.splits prod.splits sum.splits dest: read_body_keeps)

lemma resume_keeps: "invA (kept I) (resume N J C t)"
proof (cases t)
  case (ReadingTask a)
  then show ?thesis by (simp add: reading_keeps)
qed (auto simp: login_task_def connectToChat_def connect_opened_def connect_subscribe_def connect_failed_def read_task_def
    send_task_def Let_def
    intro!: invA_catchA invA_bindA invA_thenA invA_simple invA_if invA_get_obj invA_modify_obj kept_objects kept_call)

lemma step_keeps:
  assumes "tw_step N J C (tr, W) ev (Some (tr', W'))" and "ev \<noteq> AppStep" and "I (snd (tw_app W))"
  shows "I (snd (tw_app W'))"
  using assms(1)
proof cases
  case (step_resume i)
  have "kept I (snd (resume N J C (tw_tasks W ! i) (tr, remove_task i W)))"
    using assms(3) by (intro invA_D [OF resume_keeps]) simp
  with step_resume show ?thesis by (metis case_prod_conv)
qed (use assms in simp_all)

lemma frame_models:
  "invA (ui_kept I) (ui_modify (AuthVM_login C))" "invA (ui_kept I) (ui_modify AuthVM_connect)"
  "invA (ui_kept I) (ui_modify AuthVM_syncFrom)" "invA (ui_kept I) (ui_modify (AuthVM_disconnect C))"
  "invA (ui_kept I) (ui_modify (ChatVM_sendMessage m))" "invA (ui_kept I) (ui_modify process_messages)"
  "invA (ui_kept I) (ui_modify (\<lambda>X. DiscordVM_syncTo (url X) X))"
  "invA (ui_kept I) (ui_modify (\<lambda>X. DiscordVM_testMessage (txt X) X))"
  "invA (ui_kept I) (ui_modify (\<lambda>X. X\<lparr>m_message_input := inp X\<rparr>))"
  "invA (ui_kept I) (ui c)" "invA (ui_kept I) ui_get" "invA (ui_kept I) (ui_ask g d)" "invA (ui_kept I) (button U l)"
  by (auto simp: invA_def act_simps button_def AuthVM_login_def AuthVM_connect_def AuthVM_syncFrom_def AuthVM_disconnect_def
      ChatVM_sendMessage_def process_messages_def DiscordVM_syncTo_def DiscordVM_testMessage_def update_tw_def)

lemma frame_input: "(\<And>b X. ui_tw (put b X) = ui_tw X) \<Longrightarrow> invA (ui_kept I) (input_text U l get put)"
  by (auto simp: invA_def act_simps)

lemmas frame_rules = invA_bindA invA_thenA invA_simple invA_if frame_models

lemma frame_parts:
  "invA (ui_kept I) (manageAuth U C)" "invA (ui_kept I) (chat_lines msgs)" "invA (ui_kept I) send_input"
  "invA (ui_kept I) (manageDocking U)" "invA (ui_kept I) manageFloating"
  "invA (ui_kept I) beginFrame" "invA (ui_kept I) endFrame" "invA (ui_kept I) render" "invA (ui_kept I) poll"
  "invA (ui_kept I) swapBuffers"
proof -
  show "invA (ui_kept I) (chat_lines msgs)" by (induction msgs) (simp_all, (rule frame_rules | simp)+)
  show "invA (ui_kept I) (manageAuth U C)"
    unfolding manageAuth_def by (intro frame_rules) (auto intro!: frame_rules split: State.splits)
qed (unfold send_input_def Let_def manageDocking_def manageFloating_def beginFrame_def endFrame_def render_def poll_def
    swapBuffers_def backend_newFrame_def backend_renderDrawData_def, (rule frame_rules)+)

lemma frame_keeps: "invA (ui_kept I) (frame U C)"
proof -
  have "invA (ui_kept I) (manageChat U)"
    unfolding manageChat_def by (rule frame_rules frame_parts frame_input | simp)+
  moreover have "invA (ui_kept I) (manageDiscord U)"
    unfolding manageDiscord_def by (rule frame_rules frame_input | simp)+
  ultimately show ?thesis unfolding frame_def by (intro invA_thenA frame_parts)
qed

lemma program_step_keeps:
  assumes "app_step N J U C s ev (Some s')" and "I (snd (tw_app (ui_tw (snd (snd s)))))"
  shows "I (snd (tw_app (ui_tw (snd (snd s')))))"
  using assms(1)
proof cases
  case (frame_step ur X ur' X' tr)
  have "ui_kept I (snd (frame U C (ur, X)))" using assms(2) frame_step(1) by (intro invA_D [OF frame_keeps]) simp
  with frame_step show ?thesis by simp
next
  case (task_step tr X i tr' W' ur)
  with step_keeps [OF task_step(4)] assms(2) show ?thesis by simp
next
  case (discord_step j X tr r tr' X' ur)
  with discord_task_run(1) [OF discord_step(5)] assms(2) show ?thesis by simp
qed

lemma program_run_keeps:
  assumes "app_run N J U C s evs r" and "I (snd (tw_app (ui_tw (snd (snd s)))))" and "r = Some s'"
  shows "I (snd (tw_app (ui_tw (snd (snd s')))))"
  using assms
proof (induction arbitrary: s')
  case (app_run_step s evs s1 ev r)
  then show ?case using program_step_keeps by blast
qed simp

end

section \<open>The handlers\<close>

text \<open>
  What a handler other than \<open>reload\<close> leaves as it is: the commands and their metadata, the parser,
  and the audio system up to operations of the audio system.
\<close>

definition quiet_engine ::
    "('v, 'r, 't, 'f) lua_env \<Rightarrow> 'v LuaCommandEngine \<Rightarrow> 'v LuaCommandEngine \<Rightarrow> bool" where
  "quiet_engine E eng eng' \<longleftrightarrow>
     m_command_files eng' = m_command_files eng \<and> m_command_metadata eng' = m_command_metadata eng \<and>
     engine_initialized eng' = engine_initialized eng \<and> audio_reached E eng eng'"

definition quiet_step :: "('v, 'r, 't, 'f) lua_env \<Rightarrow> ('v, 'f) app_lua \<Rightarrow> ('v, 'f) app_lua \<Rightarrow> bool" where
  "quiet_step E s s' \<longleftrightarrow> quiet_engine E (fst s) (fst s') \<and> tw_app (snd (snd s')) = tw_app (snd (snd s))"

lemma quiet_engine_audio:
  "\<lbrakk>m_command_files eng' = m_command_files eng; m_command_metadata eng' = m_command_metadata eng;
    engine_initialized eng' = engine_initialized eng; m_audio_system eng' = m_audio_system eng\<rbrakk> \<Longrightarrow> quiet_engine E eng eng'"
  by (simp add: quiet_engine_def audio_reached_refl)

lemma quiet_engine_trans: "quiet_engine E a b \<Longrightarrow> quiet_engine E b c \<Longrightarrow> quiet_engine E a c"
  by (auto simp: quiet_engine_def intro: audio_reached_trans)

interpretation quiet: state_order "quiet_step E" for E
  by unfold_locales (auto simp: quiet_step_def quiet_engine_audio intro: quiet_engine_trans)

interpretation quiet_scripts: script_order "quiet_step E" E for E
proof unfold_locales
  show "relA (quiet_step E) (lua_playSound E path vol)" for path vol
    unfolding relA_def
  proof
    fix s :: "('a, 'd) app_lua"
    have "audio_reached E (fst s) (fst (snd (lua_playSound E path vol s)))" by (rule audio_reached_play)
    then show "quiet_step E s (snd (lua_playSound E path vol s))"
      by (simp add: quiet_step_def quiet_engine_def lua_playSound_def Let_def case_prod_beta)
  qed
qed (simp_all add: quiet_step_def quiet_engine_audio)

lemma app_reply_quiet: "relA (quiet_step E) (app_reply text)"
  by (auto simp: relA_def app_reply_def quiet_step_def quiet_engine_audio)

abbreviation lua_kept :: "(('v, 'f) commands \<Rightarrow> bool) \<Rightarrow> ('v, 'f) app_lua \<Rightarrow> bool" where
  "lua_kept I \<equiv> \<lambda>(eng, (tr, W)). I (eng, parser_of W)"

text \<open>What has to be shown of an invariant: the handler of a script, reloading and registering keep it.\<close>

locale reload_contract =
  fixes E :: "('v, 'r, 't, 'f) lua_env" and I :: "('v, 'f) commands \<Rightarrow> bool"
  assumes reload_keeps: "I (eng, P) \<Longrightarrow> I (snd (reloadAllCommands E eng), P)"
    and register_keeps: "I c \<Longrightarrow> I (registerWithParser E c)"

locale handler_contract = reload_contract E I
  for E :: "('v, 'r, 't, 'f) lua_env" and I :: "('v, 'f) commands \<Rightarrow> bool" +
  assumes handler_keeps: "invA (lua_kept I) (lua_handler E f n (CommandContext_new msg cmd args app_reply))"
begin

lemma reply_kept: "invA (lua_kept I) (ctx_reply (CommandContext_new msg cmd args app_reply) text)"
  unfolding CommandContext_new_def
  by (auto simp: invA_def app_reply_def parser_of_def)

lemma invoke_kept: "invA (lua_kept I) (invoke E h (CommandContext_new msg cmd args app_reply))"
proof (cases h)
  case (LuaHandler f n)
  then show ?thesis unfolding invoke_def by (simp add: handler_keeps)
next
  case ReloadHandler
  have "invA (lua_kept I) (\<lambda>(eng, s). let (r, eng') = reloadAllCommands E eng in (r, (eng', s)))"
    by (auto simp: invA_def Let_def case_prod_beta reload_keeps)
  moreover have "invA (lua_kept I) (modifyA (\<lambda>(eng, (tr, W)).
      let (eng', P) = registerWithParser E (eng, parser_of W) in (eng', (tr, put_parser P W))))"
    using register_keeps by (auto simp: invA_def act_simps put_parser_def parser_of_def Let_def split: prod.splits) (metis fst_conv snd_conv)
  ultimately show ?thesis
    unfolding ReloadHandler invoke_def reload_handler_def handler.case by (intro invA_thenA reply_kept)
next
  case CommandsHandler
  have "invA (lua_kept I) (getsA g)" for g :: "('v, 'f) app_lua \<Rightarrow> string list" by (simp add: invA_def act_simps)
  then show ?thesis
    unfolding CommandsHandler invoke_def commands_handler_def handler.case by (intro invA_bindA invA_if reply_kept)
qed

lemma app_message_keeps: "invA (kept I) (app_message E msg)"
  unfolding invA_def
proof (intro allI impI)
  fix s :: "('v, 'f) app_tw io"
  assume k: "kept I s"
  obtain tr W where s: "s = (tr, W)" by (cases s)
  let ?P = "push_message msg W"
  let ?m = "parseAndExecute (invoke E) (parser_of ?P) msg app_reply"
  obtain cmd args where c: "parseCommand (parser_of ?P) (msg_text msg) = (cmd, args)" by fastforce
  have "invA (lua_kept I) ?m"
    unfolding parseAndExecute_def Let_def c prod.case
    by (intro invA_if invA_simple) (auto intro!: invA_catchA invA_thenA invA_simple invoke_kept split: option.split)
  moreover have "lua_kept I (engine_of ?P, (tr, ?P))"
    using k by (simp add: s push_message_def engine_of_def parser_of_def)
  ultimately have "lua_kept I (snd (?m (engine_of ?P, (tr, ?P))))" by (rule invA_D)
  moreover obtain r eng tr' W' where "?m (engine_of ?P, (tr, ?P)) = (r, (eng, (tr', W')))" by (metis prod.collapse)
  ultimately show "kept I (snd (app_message E msg s))"
    by (cases r) (simp_all add: s app_message_def act_simps with_engine_def put_engine_def)
qed

end

sublocale handler_contract \<subseteq> commands_kept "app_callbacks E" I
  by unfold_locales (simp_all add: app_callbacks_def app_message_keeps app_status_def case_prod_beta)

text \<open>For a fact that quiet steps keep, the handlers of scripts need no more than that.\<close>

locale quiet_contract = reload_contract E I
  for E :: "('v, 'r, 't, 'f) lua_env" and I :: "('v, 'f) commands \<Rightarrow> bool" +
  assumes quiet_keeps: "I (eng, P) \<Longrightarrow> quiet_engine E eng eng' \<Longrightarrow> I (eng', P)"
begin

lemma quiet_kept: "relA (quiet_step E) m \<Longrightarrow> invA (lua_kept I) m"
  unfolding invA_def relA_def
  by (auto simp: quiet_step_def parser_of_def split: prod.splits intro: quiet_keeps) (metis fst_conv snd_conv quiet_keeps)

lemma quiet_handler: "invA (lua_kept I) (lua_handler E f n (CommandContext_new msg cmd args app_reply))"
  by (intro quiet_kept quiet_scripts.handler_rel) (simp add: CommandContext_new_def app_reply_quiet)

end

sublocale quiet_contract \<subseteq> handler_contract
  by unfold_locales (rule quiet_handler)

section \<open>The start of the program\<close>

lemma init_keeps: "invA (ui_kept I) (ImGuiManager_init U)"
  unfolding ImGuiManager_init_def initWindow_def backend_init_def
  by (auto intro!: invA_thenA invA_bindA invA_simple invA_if; auto simp: invA_def act_simps)

lemma setup_run:
  assumes "run_setup E mkdirs (ur, X) = (Inr (), (ur', X'))" and "snd (tw_app (ui_tw X)) = (eng, P)"
  obtains eng1 eng2 P2 where
    "eng1 = LuaCommandEngine_initialize E eng \<and> fs_exists (env_fs E) ''commands'' = Inr False \<or>
     (\<exists>n. loadCommandsFromDirectory E ''commands'' (LuaCommandEngine_initialize E eng) = (Inr n, eng1) \<and>
        fs_exists (env_fs E) ''commands'' = Inr True)"
    and "registerWithParser E (eng1, P) = (eng2, P2)"
    and "snd (tw_app (ui_tw X')) =
      (eng2, registerCommand ''commands'' (Some CommandsHandler) (registerCommand ''reload'' (Some ReloadHandler) P2))"
proof -
  note d = run_setup_def on_engine_def act_simps register_scripts_def register_native_def update_tw_def put_parser_def
    put_engine_def engine_of_def parser_of_def Let_def
  have P: "fst (snd (tw_app (ui_tw X))) = eng" "snd (snd (tw_app (ui_tw X))) = P" using assms(2) by simp_all
  obtain b where b: "fs_exists (env_fs E) ''commands'' = Inr b"
    using assms(1) by (cases "fs_exists (env_fs E) ''commands''") (simp_all add: d)
  show thesis
  proof (cases b)
    case True
    obtain n eng1 where l: "loadCommandsFromDirectory E ''commands'' (LuaCommandEngine_initialize E eng) = (Inr n, eng1)"
      using assms(1) b True P by (auto simp: d split: prod.splits sum.splits)
    obtain eng2 P2 where r: "registerWithParser E (eng1, P) = (eng2, P2)" by fastforce
    show thesis using that [OF _ r] assms(1) b True P l r by (auto simp: d)
  next
    case False
    obtain eng2 P2 where r: "registerWithParser E (LuaCommandEngine_initialize E eng, P) = (eng2, P2)" by fastforce
    show thesis using that [OF _ r] assms(1) b False P r by (auto simp: d split: prod.splits sum.splits)
  qed
qed

lemma started_setup:
  assumes "app_started E U mkdirs v (ur, X)"
  obtains ur1 X1 where "run_setup E mkdirs (ur1, X1) = (Inr (), (ur, X))"
    and "snd (tw_app (ui_tw X1)) = (LuaCommandEngine_new E v, CommandParser_new)"
proof -
  let ?A = "initializeViewmodels (initializeDiscord (initializeServices E v Application_new)) :: ('a, 'd) Application"
  let ?x = "(LuaCommandEngine_new E v, CommandParser_new)"
  obtain r ur1 X1 where i: "ImGuiManager_init U ([], app_world ?A) = (r, (ur1, X1))" by (metis prod.collapse)
  have "ui_kept (\<lambda>x. x = ?x) ([], app_world ?A)"
    by (simp add: app_world_def initializeViewmodels_def initializeDiscord_def initializeServices_def)
  from invA_D [OF init_keeps this, of U] i have "snd (tw_app (ui_tw X1)) = ?x" by simp
  then have "snd (tw_app (ui_tw (setupCallbacks X1))) = ?x"
    by (simp add: setupCallbacks_def update_tw_def setStatusCallback_def setMessageCallback_def)
  moreover have "run_setup E mkdirs (ur1, setupCallbacks X1) = (Inr (), (ur, X))"
    using assms i by (cases r) (simp_all add: app_started_def Application_initialize_def initializeUi_def act_simps Let_def)
  ultimately show thesis using that by blast
qed

section \<open>The audio system\<close>

text \<open>Loading and registering scripts leaves the audio system and the record of uses alone.\<close>

definition lasting :: "'v LuaCommandEngine \<Rightarrow> AudioSystem \<times> CooldownTracker" where
  "lasting eng = (m_audio_system eng, m_cooldown_tracker eng)"

lemma lasting_fields [simp]:
  "lasting (eng\<lparr>m_lua := v\<rparr>) = lasting eng" "lasting (eng\<lparr>m_command_files := fs\<rparr>) = lasting eng"
  "lasting (store_command c meta path eng) = lasting eng"
  by (simp_all add: lasting_def store_command_fields)

lemma load_lasting: "lasting (snd (loadLuaCommand E path eng)) = lasting eng"
  by (auto simp: loadLuaCommand_def store_command_fields Let_def split: sum.splits bool.splits prod.splits option.splits)

lemma load_loop_lasting: "lasting (snd (load_loop E entries k eng)) = lasting eng"
proof (induction entries arbitrary: k eng)
  case (Cons e es)
  obtain r eng1 where l: "loadLuaCommand E (entry_path e) eng = (r, eng1)" by fastforce
  then have "lasting eng1 = lasting eng" using load_lasting [of E "entry_path e" eng] by simp
  with Cons l show ?case by (simp split: sum.split)
qed simp

lemma reload_lasting: "lasting (snd (reloadAllCommands E eng)) = lasting eng"
proof -
  have "lasting (snd (reload_loop E files eng)) = lasting eng" for files eng
  proof (induction files arbitrary: eng)
    case (Cons x files)
    obtain n path where x: "x = (n, path)" by (cases x)
    obtain r eng1 where l: "loadLuaCommand E path eng = (r, eng1)" by fastforce
    then have "lasting eng1 = lasting eng" using load_lasting [of E path eng] by simp
    with Cons [of eng1] show ?case by (cases r) (simp_all add: x l act_simps)
  qed (simp add: act_simps)
  then show ?thesis by (simp add: reloadAllCommands_def Let_def)
qed

lemma register_lasting: "lasting (fst (registerWithParser E c)) = lasting (fst c)"
proof -
  have "lasting (fst (register_one E x c)) = lasting (fst c)" for x c
    by (cases c) (auto simp: register_one_def Let_def split: prod.splits sum.splits)
  then have "lasting (fst (fold (register_one E) files c)) = lasting (fst c)" for files c
    by (induction files arbitrary: c) simp_all
  then show ?thesis by (cases c) (simp add: registerWithParser_def)
qed

text \<open>The audio system is the new one after a sequence of its operations.\<close>

definition audio_kept :: "('v, 'r, 't, 'f) lua_env \<Rightarrow> ('v, 'f) commands \<Rightarrow> bool" where
  "audio_kept E = (\<lambda>(eng, P). audio_reached E (LuaCommandEngine_new E (m_lua eng)) eng)"

lemma audio_kept_cong: "lasting eng' = lasting eng \<Longrightarrow> audio_kept E (eng', P') = audio_kept E (eng, P)"
  by (simp add: lasting_def audio_kept_def audio_reached_def LuaCommandEngine_new_def)

interpretation program_audio: quiet_contract E "audio_kept E" for E
proof
  show "audio_kept E (eng', P)" if "audio_kept E (eng, P)" and "quiet_engine E eng eng'" for eng eng' P
    using that audio_reached_trans [of E "LuaCommandEngine_new E (m_lua eng)" eng eng']
    by (simp add: audio_kept_def quiet_engine_def audio_reached_def LuaCommandEngine_new_def)
  show "audio_kept E (snd (reloadAllCommands E eng), P)" if "audio_kept E (eng, P)" for eng P
    using that audio_kept_cong [OF reload_lasting] by metis
  show "audio_kept E (registerWithParser E c)" if "audio_kept E c" for c
    using that audio_kept_cong [OF register_lasting] by (metis prod.collapse)
qed

lemma started_lasting:
  assumes "app_started E U mkdirs v (ur, X)"
  shows "lasting (fst (snd (tw_app (ui_tw X)))) = (AudioSystem_new (env_ma E) (env_fs E), CooldownTracker_new)"
proof -
  obtain ur1 X1 where r: "run_setup E mkdirs (ur1, X1) = (Inr (), (ur, X))"
    and x: "snd (tw_app (ui_tw X1)) = (LuaCommandEngine_new E v, CommandParser_new)" using assms by (rule started_setup)
  let ?eng = "LuaCommandEngine_initialize E (LuaCommandEngine_new E v)"
  obtain eng1 eng2 P2 where e: "eng1 = ?eng \<or> (\<exists>n. loadCommandsFromDirectory E ''commands'' ?eng = (Inr n, eng1))"
    and g: "registerWithParser E (eng1, CommandParser_new) = (eng2, P2)"
    and X: "fst (snd (tw_app (ui_tw X))) = eng2"
    by (rule setup_run [OF r x]) auto
  have "lasting (snd (loadCommandsFromDirectory E ''commands'' ?eng)) = lasting ?eng"
    by (auto simp: loadCommandsFromDirectory_def act_simps Let_def load_loop_lasting split: sum.splits prod.splits)
      (metis load_loop_lasting snd_conv)
  then have "lasting eng1 = lasting ?eng" using e by auto
  moreover have "lasting eng2 = lasting eng1" using register_lasting [of E "(eng1, CommandParser_new)"] g by simp
  ultimately show ?thesis
    using X by (simp add: lasting_def LuaCommandEngine_initialize_def LuaCommandEngine_new_def setupLuaEnvironment_def Let_def)
qed

lemma started_audio: "app_started E U mkdirs v (ur, X) \<Longrightarrow> audio_kept E (snd (tw_app (ui_tw X)))"
  by (drule started_lasting)
    (auto simp: lasting_def audio_kept_def case_prod_beta LuaCommandEngine_new_def intro: audio_reached_refl)

end
