(* ===== verification/Script_Runs.thy ===== *)
theory Script_Runs
  imports Command_Runs
begin

text \<open>
  The shipped scripts in the runs of the program: from its start on, through reloads and whatever
  viewers write, every command is bound to its script with the limits that it declares.
\<close>

section \<open>Commands stay bound\<close>

lemma context_fields [simp]:
  "ctx_args (CommandContext_new msg c as rep) = as" "ctx_reply (CommandContext_new msg c as rep) = rep"
  "ctx_message (CommandContext_new msg c as rep) = msg"
  by (simp_all add: CommandContext_new_def)

definition shipped_setting ::
    "('d, 'v) lua_std \<Rightarrow> ('v, script option, lua_table, script) lua_env \<Rightarrow> bool" where
  "shipped_setting S E \<longleftrightarrow>
     env_lua E = shipped_lua S \<and> (\<forall>s. fs_exists (env_fs E) (script_file s) = Inr True) \<and>
     (\<forall>xs. set (env_hash_order E xs) = set xs)"

definition stored :: "script \<Rightarrow> 'v LuaCommandEngine \<Rightarrow> bool" where
  "stored s eng \<longleftrightarrow>
     (\<forall>nm \<in> set (script_names s).
        map_of (m_command_files eng) nm = Some (script_file s) \<and> m_command_metadata eng nm = Some (script_meta s))"

definition bound :: "script \<Rightarrow> script handler CommandParser \<Rightarrow> bool" where
  "bound s P \<longleftrightarrow> (\<forall>nm \<in> set (script_names s). parser_lookup P nm = Some (LuaHandler s nm))"

definition native_bound :: "'f handler CommandParser \<Rightarrow> bool" where
  "native_bound P \<longleftrightarrow>
     parser_lookup P ''reload'' = Some ReloadHandler \<and> parser_lookup P ''commands'' = Some CommandsHandler"

definition engine_holds :: "script list \<Rightarrow> 'v LuaCommandEngine \<Rightarrow> bool" where
  "engine_holds ss eng \<longleftrightarrow>
     engine_initialized eng \<and> list_all shipped_entry (m_command_files eng) \<and> (\<forall>s \<in> set ss. stored s eng)"

definition scripts_bound :: "script list \<Rightarrow> ('v, script) commands \<Rightarrow> bool" where
  "scripts_bound ss = (\<lambda>(eng, P).
     engine_holds ss eng \<and> m_prefix P = ''!'' \<and> native_bound P \<and> (\<forall>s \<in> set ss. bound s P))"

lemma load_loop_holds:
  assumes "shipped_setting S E" and "engine_initialized eng" and "list_all shipped_entry (m_command_files eng)"
    and "load_loop E (map script_entry ss) k eng = (n, eng')" and "\<And>s. s \<in> set rs \<Longrightarrow> s \<in> set ss"
  shows "engine_holds rs eng'"
proof -
  have E: "env_lua E = shipped_lua S" "\<And>s. fs_exists (env_fs E) (script_file s) = Inr True"
    using assms(1) by (simp_all add: shipped_setting_def)
  from load_loop_shipped [OF E assms(2,4)] load_loop_entries [OF E assms(2,3), of ss k] assms(4,5) show ?thesis
    by (auto simp: engine_holds_def stored_def)
qed

text \<open>Reloading loads the files of the commands there are.\<close>

lemma reload_is_load:
  assumes "shipped_setting S E" and "engine_initialized eng" and "list_all shipped_entry files"
  shows "reload_loop E files eng =
    (Inr (), snd (load_loop E (map script_entry (map (\<lambda>(n, p). script_at p) files)) k eng))"
  using assms(2,3)
proof (induction files arbitrary: eng k)
  case (Cons x files)
  obtain n s where x: "x = (n, script_file s)" using Cons.prems(2) by (auto simp: shipped_entry_def split: prod.splits)
  have E: "env_lua E = shipped_lua S" "fs_exists (env_fs E) (script_file s) = Inr True"
    using assms(1) by (simp_all add: shipped_setting_def)
  have a: "script_at (script_file s) = s" by (simp add: script_at_def find_script)
  let ?eng = "store_command (meta_name (script_meta s)) (script_meta s) (script_file s) eng"
  have "reload_loop E files ?eng =
      (Inr (), snd (load_loop E (map script_entry (map (\<lambda>(n, p). script_at p) files)) (k + 1) ?eng))"
    using Cons by (simp add: store_command_fields)
  with x a load_shipped [OF E Cons.prems(1)] script_file_extension [of s] show ?case by (simp add: act_simps)
qed (simp add: act_simps)

lemma reload_holds:
  assumes "shipped_setting S E" and "engine_holds ss eng"
  shows "engine_holds ss (snd (reloadAllCommands E eng))"
proof -
  let ?files = "env_hash_order E (m_command_files eng)"
  let ?eng = "eng\<lparr>m_command_files := []\<rparr>" and ?rs = "map (\<lambda>(n, p). script_at p) ?files"
  have f: "set ?files = set (m_command_files eng)" using assms(1) by (simp add: shipped_setting_def)
  then have e: "list_all shipped_entry ?files" "engine_initialized ?eng"
    using assms(2) by (simp_all add: engine_holds_def list_all_iff)
  obtain n eng' where l: "load_loop E (map script_entry ?rs) 0 ?eng = (n, eng')" by fastforce
  have "s \<in> set ?rs" if "s \<in> set ss" for s
  proof -
    have "(meta_name (script_meta s), script_file s) \<in> set ?files"
      using that assms(2) f by (auto simp: engine_holds_def stored_def script_names_def dest: map_of_SomeD)
    moreover have "script_at (script_file s) = s" by (simp add: script_at_def find_script)
    ultimately show ?thesis by force
  qed
  from load_loop_holds [OF assms(1) e(2) _ l this] reload_is_load [OF assms(1) e(2,1), of 0] l show ?thesis
    by (simp add: reloadAllCommands_def Let_def)
qed

text \<open>Registering binds the scripts there are and no other name.\<close>

lemma register_prefix:
  "m_prefix (fold (\<lambda>(n, h). registerCommand n (Some h)) regs P) = m_prefix P"
  by (induction regs arbitrary: P) (simp_all add: case_prod_beta)

lemma register_other_name:
  assumes "\<And>n h. (n, h) \<in> set regs \<Longrightarrow> transform_tolower n \<noteq> transform_tolower k"
  shows "parser_lookup (fold (\<lambda>(n, h). registerCommand n (Some h)) regs P) k = parser_lookup P k"
proof -
  have "find (\<lambda>(n, h). n \<noteq> [] \<and> transform_tolower n = transform_tolower k) (rev regs) = None"
    using assms by (auto simp: find_None_iff)
  then show ?thesis by (simp add: parser_registry.lookup_register_all)
qed

lemma native_not_shipped: "n \<in> set (script_names s) \<Longrightarrow> n \<noteq> ''reload'' \<and> n \<noteq> ''commands''"
  by (cases s) (auto simp: script_names_def base_meta_def)

lemma native_lower: "transform_tolower ''reload'' = ''reload''" "transform_tolower ''commands'' = ''commands''"
  by (simp_all add: transform_tolower_def tolower_def)

lemma register_holds:
  assumes "shipped_setting S E" and "engine_holds ss eng"
  obtains P' where "registerWithParser E (eng, P) = (eng, P')" and "m_prefix P' = m_prefix P"
    and "native_bound P \<Longrightarrow> native_bound P'" and "\<forall>s \<in> set ss. bound s P'"
proof -
  let ?files = "env_hash_order E (m_command_files eng)"
  let ?regs = "map (\<lambda>(n, p). (n, LuaHandler (script_at p) n)) ?files"
  let ?P = "fold (\<lambda>(n, h). registerCommand n (Some h)) ?regs P"
  have E: "env_lua E = shipped_lua S" and f: "set ?files = set (m_command_files eng)"
    using assms(1) by (simp_all add: shipped_setting_def)
  have e: "list_all shipped_entry ?files" using assms(2) f by (simp add: engine_holds_def list_all_iff)
  have r: "fold (register_one E) ?files (eng, P) = (eng, ?P)" by (rule register_all_shipped [OF E e])
  have i: "engine_initialized eng" using assms(2) by (simp add: engine_holds_def)
  show thesis
  proof (rule that)
    show "registerWithParser E (eng, P) = (eng, ?P)" using i r by (simp add: registerWithParser_def)
    show "m_prefix ?P = m_prefix P" by (rule register_prefix)
    have "transform_tolower n \<noteq> transform_tolower k" if mem: "(n, h) \<in> set ?regs" and k: "k \<in> {''reload'', ''commands''}" for n h k
    proof -
      obtain s where "n \<in> set (script_names s)" using mem e by (auto simp: list_all_iff shipped_entry_def)
      with native_not_shipped script_names_plain k native_lower show ?thesis by fastforce
    qed
    then have "parser_lookup ?P k = parser_lookup P k" if "k \<in> {''reload'', ''commands''}" for k
      using that by (intro register_other_name) blast
    then show "native_bound ?P" if "native_bound P" using that by (simp add: native_bound_def)
    show "\<forall>s \<in> set ss. bound s ?P"
      unfolding bound_def
    proof (intro ballI)
      fix s nm assume "s \<in> set ss" "nm \<in> set (script_names s)"
      moreover then have "(nm, script_file s) \<in> set ?files"
        using assms(2) f by (auto simp: engine_holds_def stored_def dest: map_of_SomeD)
      ultimately show "parser_lookup ?P nm = Some (LuaHandler s nm)"
        using registered_shipped [OF E e, of nm s eng P] r by simp
    qed
  qed
qed

interpretation shipped: quiet_contract E "\<lambda>c. shipped_setting S E \<longrightarrow> scripts_bound ss c" for E S ss
proof
  show "shipped_setting S E \<longrightarrow> scripts_bound ss (eng', P)"
    if "shipped_setting S E \<longrightarrow> scripts_bound ss (eng, P)" and "quiet_engine E eng eng'" for eng eng' P
    using that by (simp add: scripts_bound_def quiet_engine_def engine_holds_def stored_def)
  show "shipped_setting S E \<longrightarrow> scripts_bound ss (snd (reloadAllCommands E eng), P)"
    if "shipped_setting S E \<longrightarrow> scripts_bound ss (eng, P)" for eng P
    using that reload_holds by (auto simp: scripts_bound_def)
  show "shipped_setting S E \<longrightarrow> scripts_bound ss (registerWithParser E c)"
    if k: "shipped_setting S E \<longrightarrow> scripts_bound ss c" for c
  proof
    assume s: "shipped_setting S E"
    obtain eng P where c: "c = (eng, P)" by (cases c)
    then have "engine_holds ss eng" using k s by (simp add: scripts_bound_def)
    then obtain P' where "registerWithParser E (eng, P) = (eng, P')" "m_prefix P' = m_prefix P"
      "native_bound P \<Longrightarrow> native_bound P'" "\<forall>s \<in> set ss. bound s P'"
      using register_holds [OF s, of ss eng P] by metis
    then show "scripts_bound ss (registerWithParser E c)" using k s by (simp add: c scripts_bound_def)
  qed
qed

section \<open>From the start\<close>

lemma started_scripts_bound:
  assumes "shipped_setting S E" and "app_started E U mkdirs v (ur, X)"
    and "fs_exists (env_fs E) ''commands'' = Inr True" and "fs_is_directory (env_fs E) ''commands'' = Inr True"
    and "fst (fs_directory_iterator (env_fs E) ''commands'') = map script_entry ss"
  shows "scripts_bound ss (snd (tw_app (ui_tw X)))"
proof -
  obtain ur1 X1 where r: "run_setup E mkdirs (ur1, X1) = (Inr (), (ur, X))"
    and x: "snd (tw_app (ui_tw X1)) = (LuaCommandEngine_new E v, CommandParser_new)" using assms(2) by (rule started_setup)
  let ?eng = "LuaCommandEngine_initialize E (LuaCommandEngine_new E v)"
  have i: "engine_initialized ?eng" "m_command_files ?eng = []"
    by (simp_all add: LuaCommandEngine_initialize_def LuaCommandEngine_new_def setupLuaEnvironment_def Let_def)
  obtain n eng1 where l: "load_loop E (map script_entry ss) 0 ?eng = (n, eng1)" by fastforce
  then have d: "loadCommandsFromDirectory E ''commands'' ?eng = (Inr n, eng1)"
    by (simp add: loadCommandsFromDirectory_def act_simps assms(3-5) Let_def)
  obtain eng2 P2 where g: "registerWithParser E (eng1, CommandParser_new) = (eng2, P2)"
    and X: "snd (tw_app (ui_tw X)) =
      (eng2, registerCommand ''commands'' (Some CommandsHandler) (registerCommand ''reload'' (Some ReloadHandler) P2))"
    by (rule setup_run [OF r x]) (use d assms(3) in auto)
  have "engine_holds ss eng1" using load_loop_holds [OF assms(1) i(1) _ l] i(2) by simp
  with assms(1) obtain P' where p: "registerWithParser E (eng1, CommandParser_new) = (eng1, P')"
    "m_prefix P' = m_prefix (CommandParser_new :: script handler CommandParser)" "\<forall>s \<in> set ss. bound s P'"
    using register_holds by metis
  have "transform_tolower nm \<noteq> ''reload'' \<and> transform_tolower nm \<noteq> ''commands''" if "nm \<in> set (script_names s)" for nm s
    using that script_names_plain native_not_shipped by metis
  with p g X \<open>engine_holds ss eng1\<close> show ?thesis
    by (auto simp: scripts_bound_def native_bound_def bound_def parser_lookup_register native_lower CommandParser_new_def)
qed

section \<open>A program for the witnesses\<close>

definition folder_env :: "(nat, script option, lua_table, script) lua_env" where
  "folder_env = shipped_env\<lparr>env_fs := (env_fs shipped_env)
     \<lparr>fs_is_directory := (\<lambda>p. Inr True), fs_directory_iterator := (\<lambda>p. (map script_entry all_scripts, None))\<rparr>\<rparr>"

lemma folder_setting: "shipped_setting first_std folder_env"
  by (simp add: shipped_setting_def folder_env_def shipped_env_def)

lemma folder_listing:
  "fs_exists (env_fs folder_env) ''commands'' = Inr True" "fs_is_directory (env_fs folder_env) ''commands'' = Inr True"
  "fst (fs_directory_iterator (env_fs folder_env) ''commands'') = map script_entry all_scripts"
  by (simp_all add: folder_env_def shipped_env_def)

lemma setup_returns:
  assumes "fs_exists (env_fs E) ''commands'' = Inr True" and "fs_is_directory (env_fs E) ''commands'' = Inr True"
  shows "fst (run_setup E mkdirs s) = Inr ()"
  by (cases s) (simp add: run_setup_def on_engine_def act_simps loadCommandsFromDirectory_def assms Let_def split: prod.split)

lemma folder_started: "\<exists>ur X. app_started folder_env test_keys (\<lambda>p. Inr True) 0 (ur, X)"
proof -
  have "\<exists>s0. Application_initialize folder_env test_keys 0 Application_new = (Inr True, s0)"
    by (simp add: Application_initialize_def initializeUi_def ImGuiManager_init_def initWindow_def backend_init_def
        act_simps Let_def test_keys_def sample_keys_def)
  then obtain s0 where "Application_initialize folder_env test_keys 0 Application_new = (Inr True, s0)" by blast
  moreover have "fst (run_setup folder_env (\<lambda>p. Inr True) s0) = Inr ()" by (rule setup_returns) (simp_all add: folder_listing)
  ultimately show ?thesis
    by (cases "run_setup folder_env (\<lambda>p. Inr True) s0") (auto simp: app_started_def)
qed

end
