(* ===== verification/Script_Limits.thy ===== *)
theory Script_Limits
  imports Script_Runs
begin

text \<open>
  The limits on uses in the runs of the program: no reload, no message and no other step lets the
  recorded uses of a shipped command get past the limit that its script declares.
\<close>

definition within_limits :: "script list \<Rightarrow> CooldownTracker \<Rightarrow> bool" where
  "within_limits ss T \<longleftrightarrow>
     (\<forall>s \<in> set ss. max_uses_per_stream (script_meta s) > 0 \<longrightarrow>
        (\<forall>nm \<in> set (script_names s). current_uses nm T \<le> max_uses_per_stream (script_meta s)))"

lemma app_reply_ok: "reply_ok (CommandContext_new msg cmd args app_reply)"
  by (auto simp: reply_ok_def CommandContext_new_def app_reply_def)

lemma handler_within_limits:
  assumes "engine_holds ss (fst s)" and "within_limits ss (m_cooldown_tracker (fst s))"
  shows "within_limits ss
    (m_cooldown_tracker (fst (snd (lua_handler E f n (CommandContext_new msg cmd args app_reply) s))))"
proof -
  let ?ctx = "CommandContext_new msg cmd args app_reply" and ?T = "m_cooldown_tracker (fst s)"
  obtain eng' w' where h: "lua_handler E f n ?ctx s = (Inr (), (eng', w'))"
    "m_cooldown_tracker eng' = (if verdict_of E n ?ctx s = Execute
       then recordUsage (env_clock E (Suc (clock_reads (fst s)))) n (msg_user msg) ?T else ?T)"
    by (rule handler_run [OF app_reply_ok [of msg cmd args], of E f n s], rule that, assumption, simp)
  have "current_uses nm (m_cooldown_tracker eng') \<le> max_uses_per_stream (script_meta t)"
    if t: "t \<in> set ss" "nm \<in> set (script_names t)" "max_uses_per_stream (script_meta t) > 0" for t nm
  proof (cases "verdict_of E n ?ctx s = Execute \<and> nm = n")
    case True
    moreover have "m_command_metadata (fst s) nm = Some (script_meta t)"
      using assms(1) t by (simp add: engine_holds_def stored_def)
    ultimately have "current_uses nm ?T < max_uses_per_stream (script_meta t)"
      using t(3) by (auto simp: verdict_Execute)
    with True h(2) show ?thesis by (simp add: current_uses_recordUsage)
  next
    case False
    then have "current_uses nm (m_cooldown_tracker eng') = current_uses nm ?T"
      using h(2) by (auto simp: current_uses_recordUsage)
    with assms(2) t show ?thesis by (simp add: within_limits_def)
  qed
  with h(1) show ?thesis by (simp add: within_limits_def)
qed

text \<open>The commands are bound and within their limits.\<close>

definition limits_kept :: "script list \<Rightarrow> ('v, script) commands \<Rightarrow> bool" where
  "limits_kept ss c \<longleftrightarrow> scripts_bound ss c \<and> within_limits ss (m_cooldown_tracker (fst c))"

interpretation limited: handler_contract E "\<lambda>c. shipped_setting S E \<longrightarrow> limits_kept ss c" for E S ss
proof
  show "shipped_setting S E \<longrightarrow> limits_kept ss (snd (reloadAllCommands E eng), P)"
    if "shipped_setting S E \<longrightarrow> limits_kept ss (eng, P)" for eng and P :: "script handler CommandParser"
    using that shipped.reload_keeps [of S E ss eng P] reload_lasting [of E eng] by (auto simp: limits_kept_def lasting_def)
  show "shipped_setting S E \<longrightarrow> limits_kept ss (registerWithParser E c)"
    if "shipped_setting S E \<longrightarrow> limits_kept ss c" for c
    using that shipped.register_keeps [of S E ss c] register_lasting [of E c] by (auto simp: limits_kept_def lasting_def)
  show "invA (lua_kept (\<lambda>c. shipped_setting S E \<longrightarrow> limits_kept ss c))
      (lua_handler E f n (CommandContext_new msg cmd args app_reply))" for f n msg cmd args
    unfolding invA_def
  proof (intro allI impI)
    fix s :: "('a, script) app_lua"
    let ?s' = "snd (lua_handler E f n (CommandContext_new msg cmd args app_reply) s)"
    assume k: "lua_kept (\<lambda>c. shipped_setting S E \<longrightarrow> limits_kept ss c) s"
    then have "lua_kept (\<lambda>c. shipped_setting S E \<longrightarrow> scripts_bound ss c) s" by (auto simp: limits_kept_def split: prod.splits)
    then have "lua_kept (\<lambda>c. shipped_setting S E \<longrightarrow> scripts_bound ss c) ?s'"
      by (rule invA_D [OF shipped.handler_keeps])
    moreover have "shipped_setting S E \<longrightarrow> within_limits ss (m_cooldown_tracker (fst ?s'))"
      using k handler_within_limits [of ss s E f n msg cmd args]
      by (auto simp: limits_kept_def scripts_bound_def split: prod.splits)
    ultimately show "lua_kept (\<lambda>c. shipped_setting S E \<longrightarrow> limits_kept ss c) ?s'"
      by (auto simp: limits_kept_def split: prod.splits)
  qed
qed

lemma started_within_limits:
  assumes "app_started E U mkdirs v (ur, X)"
  shows "within_limits ss (m_cooldown_tracker (fst (snd (tw_app (ui_tw X)))))"
  using started_lasting [OF assms] by (simp add: lasting_def within_limits_def current_uses_def CooldownTracker_new_def)

end
