(* ===== verification/Script_Answers.thy ===== *)
theory Script_Answers
  imports Script_Runs
begin

text \<open>
  What the bot says. Each message that names a shipped command is answered once, and the text of
  an answer is not a command: an answer that comes back as a chat message is queued for the chat
  window and does nothing else, with one exception, the name of a sound.
\<close>

section \<open>One answer\<close>

text \<open>
  A call that replies once before it returns, and not before it fails: the engine answers for a call
  that fails.
\<close>

primrec answers :: "'v lua_behaviour \<Rightarrow> bool \<Rightarrow> bool" where
  "answers (LuaReturn v) = (\<lambda>replied. replied)"
| "answers (LuaError err v) = (\<lambda>replied. \<not> replied)"
| "answers (LuaThrow err v) = (\<lambda>replied. \<not> replied)"
| "answers (LuaCall a k) = (\<lambda>replied.
     case a of
       Reply text \<Rightarrow> \<not> replied \<and> (\<forall>x. answers (k (Inr x)) True)
     | _ \<Rightarrow> \<forall>r. answers (k r) replied)"

lemma answers_lua_call [simp]:
  "answers (lua_call a v k) replied \<longleftrightarrow>
     (case a of Reply text \<Rightarrow> \<not> replied \<and> (\<forall>x. answers (k x) True) | _ \<Rightarrow> \<not> replied \<and> (\<forall>x. answers (k x) replied))"
proof -
  have "(\<forall>r. answers (case r of Inl e \<Rightarrow> LuaError (what e) v | Inr x \<Rightarrow> k x) replied) \<longleftrightarrow>
      \<not> replied \<and> (\<forall>x. answers (k x) replied)"
    by (auto split: sum.split)
  then show ?thesis by (auto simp: lua_call_def split: lua_api.split)
qed

lemma answers_reply [simp]: "answers (reply_and_return text v) False"
  by (simp add: reply_and_return_def)

lemma answers_values [simp]:
  "(\<And>x. answers (k x) False) \<Longrightarrow> answers (with_str v k y) False"
  "(\<And>xs. answers (f xs) False) \<Longrightarrow> answers (with_strs v f y) False"
  "(\<And>a. answers (g a) False) \<Longrightarrow> answers (or_error v g z) False"
  "(\<And>r v'. answers (h r v') False) \<Longrightarrow> answers (math_random S n v h) False"
  by (auto simp: with_str_def with_strs_def or_error_def math_random_def split: lua_value.split option.split prod.split)

lemma script_answers: "answers (script_execute S s args v) False"
  by (cases s) (simp_all add: dice_execute_def flip_execute_def hello_execute_def special_execute_def modcmd_execute_def
      vip_joke_execute_def sfx_execute_def sfx_list_def sfx_random_def sfx_play_def play_and_reply_def Let_def)

text \<open>What happens to a service that is made to send these texts.\<close>

definition sent :: "string list \<Rightarrow> ('v, 'f) app_lua \<Rightarrow> ('v, 'f) app_lua \<Rightarrow> bool" where
  "sent ms s s' \<longleftrightarrow>
     tw_service (snd (snd s')) = tw_service (snd (snd s)) \<and> tw_objects (snd (snd s')) = tw_objects (snd (snd s)) \<and>
     fst (snd s') = fst (snd s) \<and> tw_tasks (snd (snd s')) = tw_tasks (snd (snd s)) @ map SendTask ms"

lemma sent_Nil: "snd s' = snd s \<Longrightarrow> sent [] s s'"
  by (simp add: sent_def)

lemma sent_trans: "sent ms s s1 \<Longrightarrow> sent ns s1 s2 \<Longrightarrow> sent (ms @ ns) s s2"
  by (simp add: sent_def)

lemma sent_service: "sent ms s s' \<Longrightarrow> canSendMessages (snd (snd s')) = canSendMessages (snd (snd s))"
  by (simp add: sent_def canSendMessages_def)

lemma app_reply_sent:
  "canSendMessages (snd (snd s)) \<Longrightarrow> fst (app_reply t s) = Inr () \<and> sent [t] s (snd (app_reply t s))"
  by (cases s) (auto simp: app_reply_def sent_def canSendMessages_def TwitchService_sendMessage_def co_spawn_def)

lemma method_world:
  assumes "\<And>t. a \<noteq> Reply t"
  shows "snd (snd (lua_method E ctx a s)) = snd s"
proof (cases a)
  case (Reply t)
  with assms show ?thesis by blast
qed (simp_all add: act_simps lua_playSound_def Let_def split: prod.split sum.split)

lemma exec_sent:
  assumes "answers b replied" and "canSendMessages (snd (snd s))"
    and "lua_exec E (CommandContext_new msg c as app_reply) b s = (r, s')"
  shows "\<exists>ms. sent ms s s' \<and> length ms = (if r = Inr True \<and> \<not> replied then 1 else 0) \<and> (replied \<longrightarrow> r = Inr True)"
  using assms
proof (induction b arbitrary: s replied)
  case (LuaCall a k)
  let ?ctx = "CommandContext_new msg c as app_reply"
  obtain x s1 where m: "lua_method E ?ctx a s = (x, s1)" by (metis prod.collapse)
  then have run: "lua_exec E ?ctx (k x) s1 = (r, s')" using LuaCall.prems(3) by simp
  show ?case
  proof (cases "\<exists>t. a = Reply t")
    case True
    then obtain t where a: "a = Reply t" by blast
    have rep: "fst (app_reply t s) = Inr ()" "sent [t] s (snd (app_reply t s))"
      using app_reply_sent LuaCall.prems(2) by blast+
    then have x: "x = Inr VNil" "s1 = snd (app_reply t s)"
      using m by (auto simp: a act_simps CommandContext_new_def split: prod.splits sum.splits)
    have "sent [] s1 s' \<and> r = Inr True"
      using LuaCall.IH [of "k x" True s1] LuaCall.prems(1,2) a x run rep sent_service by fastforce
    with sent_trans [of "[t]" s s1 "[]" s'] rep x LuaCall.prems(1) a show ?thesis by (intro exI [of _ "[t]"]) simp
  next
    case False
    then have w: "sent [] s s1" using method_world [of a E ?ctx s] m by (simp add: sent_Nil)
    have "answers (k x) replied" using LuaCall.prems(1) False by (cases a) auto
    with LuaCall.IH [of "k x" replied s1] w run sent_service LuaCall.prems(2)
    obtain ms where "sent ms s1 s'" "length ms = (if r = Inr True \<and> \<not> replied then 1 else 0)" "replied \<longrightarrow> r = Inr True"
      by fastforce
    with sent_trans [OF w] show ?thesis by (intro exI [of _ ms]) simp
  qed
qed (auto intro!: exI [of _ "[]"] simp: sent_Nil)

lemma execute_sent:
  assumes "env_lua E = shipped_lua S" and "canSendMessages (snd (snd s))"
  shows "\<exists>s' t. executeLuaCommand E f (CommandContext_new msg c as app_reply) s = (Inr (), s') \<and> sent [t] s s'"
proof -
  let ?ctx = "CommandContext_new msg c as app_reply"
  let ?b = "script_execute S f as (m_lua (fst s))"
  obtain r s1 where x: "lua_exec E ?ctx ?b s = (r, s1)" by (metis prod.collapse)
  obtain ms where s1: "sent ms s s1" "length ms = (if r = Inr True then 1 else 0)"
    using exec_sent [OF script_answers assms(2) x] by auto
  have b: "fn_call (env_lua E) f as v = script_execute S f as v" for v by (simp add: assms(1) shipped_lua_def)
  show ?thesis
  proof (cases "r = Inr True")
    case True
    with s1(2) obtain t where "ms = [t]" by (auto simp: length_Suc_conv)
    with True x s1 b show ?thesis by (intro exI [of _ s1] exI [of _ t]) (simp add: executeLuaCommand_def act_simps)
  next
    case False
    let ?m = "if r = Inr False then ''Command error occured - check logs'' else ''Command execution failed''"
    have "fst (app_reply ?m s1) = Inr ()" "sent [?m] s1 (snd (app_reply ?m s1))"
      using app_reply_sent assms(2) sent_service [OF s1(1)] by blast+
    moreover have "executeLuaCommand E f ?ctx s = app_reply ?m s1"
      using False x b by (cases r; cases s1) (auto simp: executeLuaCommand_def act_simps app_reply_def)
    ultimately have "executeLuaCommand E f ?ctx s = (Inr (), snd (app_reply ?m s1))" "sent ([] @ [?m]) s (snd (app_reply ?m s1))"
      using sent_trans [of "[]" s s1 "[?m]" "snd (app_reply ?m s1)"] s1 False by (simp_all add: prod_eq_iff)
    then show ?thesis by auto
  qed
qed

lemma handler_sent:
  assumes "env_lua E = shipped_lua S" and "canSendMessages (snd (snd s))"
    and "m_command_metadata (fst s) n = Some meta" and "meta_enabled meta"
  shows "\<exists>s' t. lua_handler E f n (CommandContext_new msg c as app_reply) s = (Inr (), s') \<and> sent [t] s s'"
proof -
  let ?ctx = "CommandContext_new msg c as app_reply"
  obtain v k where c: "check_command E n ?ctx s = (Inr v, ((fst s)\<lparr>clock_reads := k\<rparr>, snd s))"
    using check_command_run by blast
  let ?s1 = "((fst s)\<lparr>clock_reads := k\<rparr>, snd s)"
  have v: "v \<noteq> Disabled"
    using c assms(3,4) check_command_eq [of E n ?ctx "fst s" "snd s"] by (simp split: if_splits)
  have s1: "sent [] s ?s1" "canSendMessages (snd (snd ?s1))" using assms(2) by (simp_all add: sent_Nil)
  have "\<exists>s' t. run_command E f n ?ctx v ?s1 = (Inr (), s') \<and> sent [t] ?s1 s'"
  proof (cases "v = Execute")
    case True
    obtain s2 t where x: "executeLuaCommand E f ?ctx ?s1 = (Inr (), s2)" "sent [t] ?s1 s2"
      using execute_sent [OF assms(1) s1(2)] by blast
    obtain eng w where s2: "s2 = (eng, w)" by (cases s2)
    let ?eng = "eng\<lparr>clock_reads := Suc (clock_reads eng), m_cooldown_tracker :=
      recordUsage (env_clock E (clock_reads eng)) n (msg_user msg) (m_cooldown_tracker eng)\<rparr>"
    have r: "run_command E f n ?ctx v ?s1 = (Inr (), (?eng, w))"
      using True x(1) by (simp add: run_command_def act_simps steady_now_def s2)
    have "sent [] s2 (?eng, w)" by (rule sent_Nil) (simp add: s2)
    from sent_trans [OF x(2) this] r show ?thesis by (intro exI [of _ "(?eng, w)"] exI [of _ t]) simp
  next
    case False
    then have "\<exists>t. run_command E f n ?ctx v ?s1 = app_reply t ?s1" using v by (cases v) (auto simp: run_command_def)
    then obtain t where "run_command E f n ?ctx v ?s1 = app_reply t ?s1" by blast
    with app_reply_sent [OF s1(2), of t] show ?thesis
      by (intro exI [of _ "snd (app_reply t ?s1)"] exI [of _ t]) (simp add: prod_eq_iff)
  qed
  then obtain s' t where "run_command E f n ?ctx v ?s1 = (Inr (), s')" "sent [t] ?s1 s'" by blast
  with c sent_trans [OF s1(1)] show ?thesis
    by (intro exI [of _ s'] exI [of _ t]) (auto simp: lua_handler_def act_simps)
qed

lemma script_meta_enabled: "meta_enabled (script_meta s)"
  by (cases s) (simp_all add: base_meta_def)

lemma command_answered:
  assumes "shipped_setting S E" and "scripts_bound ss (snd (tw_app W))" and "canSendMessages W"
    and "s \<in> set ss" and "transform_tolower c \<in> set (script_names s)" and "[] \<notin> set args"
    and "msg_text msg = ''!'' @ print_line (c # args)"
  shows "\<exists>W' text. app_message E msg (tr, W) = (Inr (), (tr, W')) \<and> tw_service W' = tw_service W \<and>
    tw_objects W' = tw_objects W \<and> tw_tasks W' = tw_tasks W @ [SendTask text]"
proof -
  let ?W = "push_message msg W" and ?nm = "transform_tolower c"
  let ?P = "parser_of ?W" and ?s = "(engine_of ?W, (tr, ?W))"
  have W: "engine_of ?W = fst (snd (tw_app W))" "?P = snd (snd (tw_app W))" "canSendMessages (snd (snd ?s))"
    "tw_tasks ?W = tw_tasks W" "tw_service ?W = tw_service W" "tw_objects ?W = tw_objects W"
    using assms(3) by (simp_all add: push_message_def engine_of_def parser_of_def canSendMessages_def)
  have p: "m_prefix ?P = ''!''" and e: "m_command_metadata (engine_of ?W) ?nm = Some (script_meta s)"
    and h: "parser_lookup ?P ?nm = Some (LuaHandler s ?nm)"
    using assms(2,4,5) W by (auto simp: scripts_bound_def engine_holds_def stored_def bound_def case_prod_beta)
  have n: "?nm \<noteq> []" "transform_tolower ?nm = ?nm" using script_names_plain [OF assms(5)] by auto
  then have c: "c \<noteq> []" by auto
  have pc: "parseCommand ?P (msg_text msg) = (c, args)"
    using c assms(6,7) p by (intro parseCommand_print_line) simp_all
  then have "isCommand ?P (msg_text msg)" using c by (auto simp: parseCommand_def split: if_splits)
  moreover have "parser_lookup ?P c = Some (LuaHandler s ?nm)" using h n(2) by (simp add: parser_lookup_def)
  moreover have "env_lua E = shipped_lua S" using assms(1) by (simp add: shipped_setting_def)
  from handler_sent [OF this W(3), of ?nm "script_meta s" s msg c args] e script_meta_enabled [of s]
  obtain s' t where "lua_handler E s ?nm (CommandContext_new msg c args app_reply) ?s = (Inr (), s')" "sent [t] ?s s'"
    by (metis fst_conv)
  ultimately have "parseAndExecute (invoke E) ?P msg app_reply ?s = (Inr True, s')" "sent [t] ?s s'"
    using pc c by (simp_all add: parseAndExecute_known invoke_def)
  moreover obtain eng tr' W' where "s' = (eng, (tr', W'))" by (metis prod.collapse)
  ultimately show ?thesis
    using W(4-6) by (intro exI [of _ "put_engine eng W'"] exI [of _ t])
      (simp add: app_message_def act_simps with_engine_def sent_def put_engine_def)
qed

section \<open>Answers are not commands\<close>

text \<open>
  What a command with these arguments may have the bot say: a text that does not start with the
  prefix, or the first argument in lower case, which \<^verbatim>\<open>sfx\<close> says when it plays the sound of this
  name.
\<close>

definition harmless :: "string list \<Rightarrow> string \<Rightarrow> bool" where
  "harmless args t \<longleftrightarrow> \<not> starts_with t ''!'' \<or> (args \<noteq> [] \<and> t = transform_tolower (args ! 0))"

lemma harmless_Cons: "c \<noteq> CHR ''!'' \<Longrightarrow> harmless args (c # t)"
  by (simp add: harmless_def starts_with_def)

lemma says_lua_call [simp]:
  "says Q (lua_call a v k) \<longleftrightarrow> (case a of Reply text \<Rightarrow> Q text | _ \<Rightarrow> True) \<and> (\<forall>x. says Q (k x))"
proof -
  have "(\<forall>r. says Q (case r of Inl e \<Rightarrow> LuaError (what e) v | Inr x \<Rightarrow> k x)) \<longleftrightarrow> (\<forall>x. says Q (k x))"
    by (auto split: sum.split)
  then show ?thesis by (simp add: lua_call_def)
qed

lemma says_reply [simp]: "says Q (reply_and_return text v) \<longleftrightarrow> Q text"
  by (simp add: reply_and_return_def)

lemma says_values [simp]:
  "(\<And>x. says Q (k x)) \<Longrightarrow> says Q (with_str v k y)"
  "(\<And>xs. says Q (f xs)) \<Longrightarrow> says Q (with_strs v f y)"
  "(\<And>a. z = Some a \<Longrightarrow> says Q (g a)) \<Longrightarrow> says Q (or_error v g z)"
  "(\<And>r v'. says Q (h r v')) \<Longrightarrow> says Q (math_random S n v h)"
  by (auto simp: with_str_def with_strs_def or_error_def math_random_def split: lua_value.split option.split prod.split)

lemma list_reply_harmless: "list_reply F page sounds = Some t \<Longrightarrow> harmless args t"
  by (auto simp: list_reply_def c_available_def harmless_Cons Let_def split: if_splits option.splits list.splits)

lemma script_harmless: "says (harmless args) (script_execute S s args v)"
proof (cases s)
  case Sfx
  have "args \<noteq> [] \<Longrightarrow> harmless args (transform_tolower (args ! 0))" by (simp add: harmless_def)
  with Sfx show ?thesis
    by (simp add: sfx_execute_def sfx_list_def sfx_random_def sfx_play_def play_and_reply_def Let_def harmless_Cons
        list_reply_harmless)
qed (simp_all add: dice_execute_def flip_execute_def hello_execute_def special_execute_def modcmd_execute_def
    vip_joke_execute_def Let_def harmless_Cons)

text \<open>All that is spawned is that harmless texts are sent.\<close>

definition spoke :: "(string \<Rightarrow> bool) \<Rightarrow> ('v, 'f) app_lua \<Rightarrow> ('v, 'f) app_lua \<Rightarrow> bool" where
  "spoke Q s s' \<longleftrightarrow> (\<exists>ms. list_all Q ms \<and> tw_tasks (snd (snd s')) = tw_tasks (snd (snd s)) @ map SendTask ms)"

lemma spoke_same: "tw_tasks (snd (snd s')) = tw_tasks (snd (snd s)) \<Longrightarrow> spoke Q s s'"
  unfolding spoke_def by (intro exI [of _ "[]"]) simp

lemma spoke_trans: "spoke Q s1 s2 \<Longrightarrow> spoke Q s2 s3 \<Longrightarrow> spoke Q s1 s3"
proof -
  assume "spoke Q s1 s2" "spoke Q s2 s3"
  then obtain ms ns where "list_all Q ms" "tw_tasks (snd (snd s2)) = tw_tasks (snd (snd s1)) @ map SendTask ms"
    "list_all Q ns" "tw_tasks (snd (snd s3)) = tw_tasks (snd (snd s2)) @ map SendTask ns"
    unfolding spoke_def by blast
  then show ?thesis unfolding spoke_def by (intro exI [of _ "ms @ ns"]) simp
qed

interpretation speaking: state_order "spoke Q" for Q
  by unfold_locales (auto simp: spoke_same intro: spoke_trans)

interpretation speaking_scripts: script_order "spoke Q" E for Q E
  by unfold_locales (auto simp: spoke_same relA_def lua_playSound_def Let_def split: prod.splits)

lemma app_reply_spoke: "Q t \<Longrightarrow> relA (spoke Q) (app_reply t)"
proof (unfold relA_def, rule allI)
  fix s :: "('a, 'b) app_lua"
  assume "Q t"
  then show "spoke Q s (snd (app_reply t s))"
    unfolding spoke_def by (intro exI [of _ "if m_state (tw_service (snd (snd s))) = ChatConnected then [t] else []"])
      (simp add: app_reply_def TwitchService_sendMessage_def co_spawn_def case_prod_beta)
qed

lemma invoke_harmless:
  assumes "env_lua E = shipped_lua S"
  shows "relA (spoke (harmless args)) (invoke E h (CommandContext_new msg c args app_reply))"
proof (cases h)
  case (LuaHandler f n)
  have "relA (spoke (harmless args)) (lua_handler E f n (CommandContext_new msg c args app_reply))"
    by (rule speaking_scripts.handler_says_rel [of "harmless args"])
      (simp_all add: app_reply_spoke engine_texts_def harmless_Cons assms shipped_lua_def script_harmless)
  with LuaHandler show ?thesis by (simp add: invoke_def)
next
  case ReloadHandler
  have "relA (spoke (harmless args)) (\<lambda>(eng, s). let (r, eng') = reloadAllCommands E eng in (r, (eng', s)))"
    by (auto simp: relA_def spoke_same split: prod.splits)
  moreover have "relA (spoke (harmless args)) (modifyA (\<lambda>(eng, (tr, W)).
      let (eng', P) = registerWithParser E (eng, parser_of W) in (eng', (tr, put_parser P W))))"
    by (auto simp: relA_def act_simps put_parser_def spoke_same split: prod.splits)
  ultimately show ?thesis
    unfolding ReloadHandler invoke_def reload_handler_def handler.case context_fields
    by (intro speaking.rel_rules app_reply_spoke) (simp_all add: harmless_Cons)
next
  case CommandsHandler
  show ?thesis
    unfolding CommandsHandler invoke_def commands_handler_def handler.case context_fields
    by (intro speaking.rel_rules app_reply_spoke) (simp_all add: harmless_Cons sep_loop_join)
qed

lemma plain_message:
  assumes "\<not> starts_with (msg_text msg) ''!''" and "m_prefix (parser_of W) = ''!''"
  shows "app_message E msg (tr, W) = (Inr (), (tr, push_message msg W))"
proof -
  have "parser_of (push_message msg W) = parser_of W" by (simp add: push_message_def parser_of_def)
  with assms show ?thesis
    by (simp add: app_message_def act_simps with_engine_def parseAndExecute_def isCommand_def put_engine_def
        engine_of_def parser_of_def)
qed

lemma answers_harmless:
  assumes "env_lua E = shipped_lua S" and "parseCommand (parser_of W) (msg_text msg) = (c, args)"
    and "app_message E msg (tr, W) = (r, (tr', W'))"
  shows "\<exists>ms. list_all (harmless args) ms \<and> tw_tasks W' = tw_tasks W @ map SendTask ms"
proof -
  let ?W = "push_message msg W"
  let ?m = "parseAndExecute (invoke E) (parser_of W) msg app_reply"
  have W: "parser_of ?W = parser_of W" "tw_tasks ?W = tw_tasks W" by (simp_all add: push_message_def parser_of_def)
  obtain b eng tr1 W1 where m: "?m (engine_of ?W, (tr, ?W)) = (Inr b, (eng, (tr1, W1)))"
    using parse_returns by (metis prod.collapse)
  have "relA (spoke (harmless args)) ?m"
    unfolding parseAndExecute_def assms(2) Let_def prod.case
    by (intro speaking.rel_rules invoke_harmless [OF assms(1)])
  then have "spoke (harmless args) (engine_of ?W, (tr, ?W)) (eng, (tr1, W1))"
    using m unfolding relA_def by (metis snd_conv)
  moreover have "W' = put_engine eng W1" using assms(3) m by (simp add: app_message_def act_simps with_engine_def W)
  ultimately show ?thesis by (simp add: spoke_def W put_engine_def)
qed

section \<open>Properties\<close>

text \<open>
  C20: The bot does not talk to itself. Whatever a viewer writes and whatever command it names, each text that the
  message makes the bot send is the name of the sound asked for, or is no command: when the text
  comes back as a chat message, by whomever and in whatever state, it is queued for the chat window, and nothing is
  looked up, run or sent.
\<close>

theorem answers_are_not_commands:
  assumes "env_lua E = shipped_lua S" and "parseCommand (parser_of W) (msg_text msg) = (c, args)"
    and "app_message E msg (tr, W) = (r, (tr', W'))"
  shows "\<exists>ms. tw_tasks W' = tw_tasks W @ map SendTask ms \<and>
    (\<forall>t \<in> set ms. args \<noteq> [] \<and> t = transform_tolower (args ! 0) \<or>
       (\<forall>msg2 tr2 W2. msg_text msg2 = t \<longrightarrow> m_prefix (parser_of W2) = ''!'' \<longrightarrow>
          app_message E msg2 (tr2, W2) = (Inr (), (tr2, push_message msg2 W2))))"
proof -
  obtain ms where ms: "list_all (harmless args) ms" "tw_tasks W' = tw_tasks W @ map SendTask ms"
    using answers_harmless [OF assms] by blast
  moreover have "harmless args t" if "t \<in> set ms" for t using ms(1) that by (simp add: list_all_iff)
  ultimately show ?thesis
    using plain_message [of _ _ E] by (intro exI [of _ ms]) (auto simp: harmless_def)
qed

text \<open>A service that is connected to the chat and waits for a frame, and what the shipped scripts make of the rest.\<close>

definition chat_world :: "'w \<Rightarrow> 'w tw_world" where
  "chat_world x =
     \<lparr>tw_service = (TwitchService_new ClientConfig_default)\<lparr>m_state := ChatConnected, m_eventsub := Some 0,
        m_chat_read := Some 0, m_chat_send := Some ClientConfig_default, m_message_callback := True\<rparr>,
      tw_objects = [(EventSub_new ClientConfig_default)\<lparr>m_wss := Some 0, m_callback := True\<rparr>],
      tw_tasks = [ReadingTask 0], tw_app = x\<rparr>"

lemma folder_commands:
  obtains x :: "AppState \<times> (nat, script) commands" where "scripts_bound all_scripts (snd (tw_app (chat_world x)))"
proof -
  obtain ur X where a: "app_started folder_env test_keys (\<lambda>p. Inr True) 0 (ur, X)" using folder_started by blast
  show ?thesis
    by (rule that [of "tw_app (ui_tw X)"])
      (use started_scripts_bound [OF folder_setting a folder_listing] in \<open>simp add: chat_world_def\<close>)
qed

lemma chat_world_sends: "canSendMessages (chat_world x)"
  by (simp add: chat_world_def canSendMessages_def)

theorem answers_are_not_commands_witness:
  "\<exists>x W' t. let W = chat_world x in m_prefix (parser_of W) = ''!'' \<and>
     app_message folder_env \<lparr>msg_user = ''ann'', msg_text = ''!'' @ print_line [''Hello''], msg_color = [], msg_badges = []\<rparr> ([], W) =
       (Inr (), ([], W')) \<and> tw_tasks W' = tw_tasks W @ [SendTask t] \<and>
     (\<forall>msg2. msg_text msg2 = t \<longrightarrow> app_message folder_env msg2 ([], W) = (Inr (), ([], push_message msg2 W)))"
proof -
  obtain x :: "AppState \<times> (nat, script) commands" where b: "scripts_bound all_scripts (snd (tw_app (chat_world x)))" by (rule folder_commands)
  let ?W = "chat_world x"
  let ?msg = "\<lparr>msg_user = ''ann'', msg_text = ''!'' @ print_line [''Hello''], msg_color = [], msg_badges = []\<rparr>"
  have "transform_tolower ''Hello'' = ''hello''" by code_simp
  then have n: "Hello \<in> set all_scripts" "transform_tolower ''Hello'' \<in> set (script_names Hello)"
    by (simp_all add: all_scripts_def script_names_def base_meta_def)
  obtain W' t where r: "app_message folder_env ?msg ([], ?W) = (Inr (), ([], W'))" "tw_tasks W' = tw_tasks ?W @ [SendTask t]"
    using command_answered [OF folder_setting b chat_world_sends n, of "[]" ?msg "[]"] by auto
  have p: "m_prefix (parser_of ?W) = ''!''" using b by (simp add: scripts_bound_def parser_of_def case_prod_beta)
  have "parseCommand (parser_of ?W) (msg_text ?msg) = (''Hello'', [])"
    by (rule parseCommand_print_line) (simp_all add: p)
  moreover have "env_lua folder_env = shipped_lua first_std" using folder_setting by (simp add: shipped_setting_def)
  ultimately show ?thesis
    using answers_are_not_commands [of folder_env first_std ?W ?msg "''Hello''" "[]" "[]" "Inr ()" "[]" W'] r p
    by (intro exI [of _ x] exI [of _ W'] exI [of _ t]) (auto simp: Let_def)
qed

end
