(* ===== verification/Session_Path.thy ===== *)
theory Session_Path
  imports Service_Runs
begin

text \<open>
  The way of the service into the chat, if the network is up and the servers do their part: the
  login with its polls for the token, the web socket with its welcome message, the subscription,
  and the read loop.
\<close>

section \<open>Requests over a network that is up\<close>

text \<open>
  Every call succeeds up to the response; a server that closes its side early may fail the
  shutdown.
\<close>

definition net_up :: "net_env \<Rightarrow> bool" where
  "net_up N \<longleftrightarrow>
     (\<forall>tr c. net_fails N tr c = None \<or>
        (\<exists>s code w. c = TlsShutdown s \<and> net_fails N tr c = Some (SystemError code w))) \<and>
     (\<forall>tr. net_sni_ok N tr) \<and> (\<forall>tr. \<exists>res. net_response N tr = Inr res)"

lemma net_up_fails:
  assumes "net_up N"
  shows "(\<And>s. c \<noteq> TlsShutdown s) \<Longrightarrow> net_fails N tr c = None"
    and "net_fails N tr c = None \<or> (\<exists>code w. net_fails N tr c = Some (SystemError code w))"
  using assms unfolding net_up_def by blast+

lemma net_up_calls:
  assumes "net_up N"
  shows "net_fails N tr (Resolve h p) = None" "net_fails N tr (TcpConnect i h p) = None"
    "net_fails N tr (TlsHandshake i) = None" "net_fails N tr (HttpWrite i req) = None"
    "net_fails N tr (TimerWait t) = None" "net_fails N tr (LaunchProcess cmd) = None"
    "net_fails N tr (WsHandshake i h p) = None" "net_sni_ok N tr"
  using assms by (simp_all add: net_up_fails) (simp add: net_up_def)

text \<open>What the server answers to a request, by the trace up to its writing.\<close>

lemma exchange_up:
  assumes "net_up N"
  obtains res where "net_response N ((tr @ connect_calls (length tr) host port @ [TlsHandshake (length tr)]) @
      [HttpWrite (length tr) req]) = Inr res"
    and "exchange N host port req (tr, x) = (Inr res, (tr @ exchange_calls (length tr) host port req, x))"
proof -
  let ?tr = "(tr @ connect_calls (length tr) host port @ [TlsHandshake (length tr)]) @ [HttpWrite (length tr) req]"
  obtain res where res: "net_response N ?tr = Inr res" using assms unfolding net_up_def by blast
  from net_up_fails(2) [OF assms, of "?tr @ [HttpRead (length tr)]" "TlsShutdown (length tr)"] res
  have "exchange N host port req (tr, x) = (Inr res, (tr @ exchange_calls (length tr) host port req, x))"
    by (auto simp: exchange_def makeSslStreamAsync_def act_simps net_up_calls [OF assms] exchange_calls_def connect_calls_def)
  with res show ?thesis by (rule that)
qed

lemma post_up:
  assumes "net_up N"
  shows "\<exists>b. httpsPostAsync N host port target body headers (tr, x) =
    (Inr b, (tr @ exchange_calls (length tr) host port (post_request host target body headers), x))"
proof -
  obtain res where "exchange N host port (post_request host target body headers) (tr, x) =
      (Inr res, (tr @ exchange_calls (length tr) host port (post_request host target body headers), x))"
    using exchange_up [OF assms] by metis
  then show ?thesis by (simp add: https_exchange act_simps)
qed

text \<open>Every request for a target that begins like this is answered like that.\<close>

definition responds :: "net_env \<Rightarrow> string \<Rightarrow> (http_response \<Rightarrow> bool) \<Rightarrow> bool" where
  "responds N path P \<longleftrightarrow>
     (\<forall>tr s req. prefix path (req_target req) \<longrightarrow> (\<exists>res. net_response N (tr @ [HttpWrite s req]) = Inr res \<and> P res))"

lemma exchange_responds:
  assumes "net_up N" and "responds N path P" and "prefix path (req_target req)"
  shows "\<exists>res. P res \<and> exchange N host port req (tr, x) = (Inr res, (tr @ exchange_calls (length tr) host port req, x))"
proof -
  obtain res where r: "net_response N ((tr @ connect_calls (length tr) host port @ [TlsHandshake (length tr)]) @
      [HttpWrite (length tr) req]) = Inr res"
    "exchange N host port req (tr, x) = (Inr res, (tr @ exchange_calls (length tr) host port req, x))"
    by (rule exchange_up [OF assms(1)])
  with assms(2,3) have "P res" unfolding responds_def by (metis sum.inject(2))
  with r(2) show ?thesis by blast
qed

section \<open>The login\<close>

text \<open>
  The bot's OAuth server: it knows the client id and, after the first \<open>k\<close> polls, the tokens, which
  it has when the user has agreed, and then who the user is.
\<close>

definition token_response :: "'j json_lib \<Rightarrow> string \<Rightarrow> string \<Rightarrow> http_response \<Rightarrow> bool" where
  "token_response J tok ref res \<longleftrightarrow>
     res_status res = 200 \<and>
     (\<exists>j t. json_parse J (res_body res) = Inr j \<and> json_dump J j = Inr t \<and>
        bindE (json_at J j ''access_token'') (json_get_string J) = Inr tok \<and>
        bindE (json_at J j ''refresh_token'') (json_get_string J) = Inr ref)"

definition client_response :: "'j json_lib \<Rightarrow> string \<Rightarrow> http_response \<Rightarrow> bool" where
  "client_response J cid res \<longleftrightarrow>
     res_status res = 200 \<and>
     (\<exists>j. json_parse J (res_body res) = Inr j \<and> bindE (json_at J j ''client_id'') (json_get_string J) = Inr cid)"

definition user_response :: "'j json_lib \<Rightarrow> TwitchUserInfo \<Rightarrow> http_response \<Rightarrow> bool" where
  "user_response J info res \<longleftrightarrow>
     res_status res = 200 \<and> (\<exists>j. json_parse J (res_body res) = Inr j \<and> parseTwitchUser J j = Inr info)"

definition auth_server ::
    "net_env \<Rightarrow> 'j json_lib \<Rightarrow> nat \<Rightarrow> string \<Rightarrow> string \<Rightarrow> string \<Rightarrow> TwitchUserInfo \<Rightarrow> bool" where
  "auth_server N J k cid tok ref info \<longleftrightarrow>
     responds N ''/client_id'' (client_response J cid) \<and> responds N ''/auth_url'' (\<lambda>res. res_status res = 200) \<and>
     (\<forall>tr s req. prefix ''/token?state='' (req_target req) \<longrightarrow>
        (\<exists>res. net_response N (tr @ [HttpWrite s req]) = Inr res \<and>
           (if token_requests tr < k then res_status res = 404 else token_response J tok ref res))) \<and>
     responds N ''/user_info'' (user_response J info)"

lemma token_requests_calls:
  "token_requests (connect_calls s h p) = 0" "token_requests [TlsHandshake s] = 0" "token_requests [TimerWait t] = 0"
  "token_requests [LaunchProcess cmd] = 0"
  "token_requests (exchange_calls s h p req) = (if prefix ''/token?state='' (req_target req) then 1 else 0)"
  by (simp_all add: connect_calls_def exchange_calls_def token_requests_def)

lemma auth_get_responds:
  assumes "net_up N" and "responds N path P" and "prefix path url" and "\<And>res. P res \<Longrightarrow> res_status res = 200"
    and "\<not> prefix ''/token?state='' url"
  obtains res tr' where "P res" and "getHttpAsync N url (tr, A) = (Inr (res_body res), (tr', A))"
    and "token_requests tr' = token_requests tr"
proof -
  let ?req = "auth_request (m_url_base A) url"
  let ?tr' = "tr @ exchange_calls (length tr) (m_url_base A) ''443'' ?req"
  obtain res where r: "P res" "exchange N (m_url_base A) ''443'' ?req (tr, A) = (Inr res, (?tr', A))"
    using exchange_responds [OF assms(1,2), of ?req "m_url_base A" "''443''" tr A] assms(3) by auto
  show ?thesis
  proof (rule that [OF r(1)])
    show "getHttpAsync N url (tr, A) = (Inr (res_body res), (?tr', A))"
      using r assms(4) by (simp add: getHttpAsync_def act_simps check_response_def)
    show "token_requests ?tr' = token_requests tr" using assms(5) by (simp add: token_requests_calls)
  qed
qed

lemma request_token_up:
  assumes "net_up N" and "auth_server N J k cid tok ref info"
  obtains tr' e where "token_requests tr' = Suc (token_requests tr)"
    and "requestTokenAsync N J (tr, A) =
      (if token_requests tr < k then (Inl e, (tr', A))
       else (Inr (), (tr', A\<lparr>m_access_token := tok, m_refresh_token := ref\<rparr>)))"
proof -
  let ?url = "''/token?state='' @ auth_state A"
  let ?req = "auth_request (m_url_base A) ?url"
  let ?pre = "tr @ connect_calls (length tr) (m_url_base A) ''443'' @ [TlsHandshake (length tr)]"
  let ?tr' = "tr @ exchange_calls (length tr) (m_url_base A) ''443'' ?req"
  have p: "prefix ''/token?state='' (req_target ?req)" by simp
  have t: "token_requests ?pre = token_requests tr" "token_requests ?tr' = Suc (token_requests tr)"
    using p by (simp_all only: token_requests_append token_requests_calls if_True)
  obtain res where r: "net_response N (?pre @ [HttpWrite (length tr) ?req]) = Inr res"
    and x: "exchange N (m_url_base A) ''443'' ?req (tr, A) = (Inr res, (?tr', A))"
    by (rule exchange_up [OF assms(1)])
  have c: "if token_requests tr < k then res_status res = 404 else token_response J tok ref res"
    using assms(2) r p t(1) unfolding auth_server_def by (metis sum.inject(2))
  show ?thesis
  proof (cases "token_requests tr < k")
    case True
    with c x have q: "requestTokenAsync N J (tr, A) = (Inl (RuntimeError (''HTTP request failed with status: '' @ show_nat 404)), (?tr', A))"
      by (simp add: requestTokenAsync_def getHttpAsync_def act_simps check_response_def)
    show ?thesis by (rule that [OF t(2)]) (simp only: q True if_True)
  next
    case False
    with c x have q: "requestTokenAsync N J (tr, A) = (Inr (), (?tr', A\<lparr>m_access_token := tok, m_refresh_token := ref\<rparr>))"
      by (auto simp: token_response_def requestTokenAsync_def getHttpAsync_def act_simps check_response_def
          storeToken_def storeRefreshToken_def)
    show ?thesis by (rule that [OF t(2)]) (simp only: q False if_False)
  qed
qed

lemma poll_succeeds:
  assumes "net_up N" and "auth_server N J k cid tok ref info" and "token_requests tr = a" and "a \<le> k" and "k < 10"
  shows "\<exists>tr'. poll_loop N J a (tr, A) = (Inr True, (tr', A\<lparr>m_access_token := tok, m_refresh_token := ref\<rparr>))"
  using assms(3,4)
proof (induction "k - a" arbitrary: a tr)
  case (0 a)
  obtain tr' e where "requestTokenAsync N J (tr @ [TimerWait 300], A) =
      (if token_requests (tr @ [TimerWait 300]) < k then (Inl e, (tr', A))
       else (Inr (), (tr', A\<lparr>m_access_token := tok, m_refresh_token := ref\<rparr>)))"
    by (rule request_token_up [OF assms(1,2)])
  with 0 assms(5) show ?case
    by (subst poll_loop.simps) (simp add: act_simps net_up_calls [OF assms(1)] token_requests_calls)
next
  case (Suc n a)
  let ?w = "TimerWait (if a + 1 \<ge> 4 then 300 * int (a + 1) else 300)"
  obtain tr1 e where r: "token_requests tr1 = Suc (token_requests (tr @ [TimerWait 300]))"
    "requestTokenAsync N J (tr @ [TimerWait 300], A) =
      (if token_requests (tr @ [TimerWait 300]) < k then (Inl e, (tr1, A))
       else (Inr (), (tr1, A\<lparr>m_access_token := tok, m_refresh_token := ref\<rparr>)))"
    by (rule request_token_up [OF assms(1,2)])
  have "token_requests (tr1 @ [?w]) = Suc a" using r(1) Suc.prems(1) by (simp add: token_requests_calls)
  then obtain tr' where "poll_loop N J (Suc a) (tr1 @ [?w], A) =
      (Inr True, (tr', A\<lparr>m_access_token := tok, m_refresh_token := ref\<rparr>))"
    using Suc.hyps(1) [of "Suc a" "tr1 @ [?w]"] Suc.hyps(2) by fastforce
  moreover have "a < k" using Suc.hyps(2) by simp
  ultimately show ?case
    using r(2) Suc.prems(1) assms(5)
    by (subst poll_loop.simps) (simp add: act_simps net_up_calls [OF assms(1)] token_requests_calls)
qed

lemma login_up:
  assumes "net_up N" and "auth_server N J k cid tok ref info" and "token_requests tr = 0" and "k < 10"
  obtains tr' st where "loginAsync N J (tr, A) =
    (Inr (), (tr', A\<lparr>m_client_id := cid, auth_state := st, m_access_token := tok, m_refresh_token := ref\<rparr>))"
proof -
  have s: "responds N ''/client_id'' (client_response J cid)" "responds N ''/auth_url'' (\<lambda>res. res_status res = 200)"
    using assms(2) by (simp_all add: auth_server_def)
  obtain res tr1 where c: "client_response J cid res" "getHttpAsync N ''/client_id'' (tr, A) = (Inr (res_body res), (tr1, A))"
    and t1: "token_requests tr1 = token_requests tr"
    by (rule auth_get_responds [OF assms(1) s(1), of "''/client_id''" tr A]) (simp_all add: client_response_def)
  let ?A1 = "A\<lparr>m_client_id := cid\<rparr>"
  have f: "fetchClientIdAsync N J (tr, A) = (Inr cid, (tr1, ?A1))"
    using c by (auto simp: fetchClientIdAsync_def act_simps client_response_def)
  obtain st where g: "generateState N (tr1, ?A1) = (Inr st, (tr1 @ replicate 16 Random, ?A1))"
    using generateState_run [of N tr1 ?A1] by blast
  let ?A2 = "?A1\<lparr>auth_state := st\<rparr>" and ?tr2 = "tr1 @ replicate 16 Random"
  have p: "prefix ''/auth_url'' (''/auth_url?state='' @ st)" "\<not> prefix ''/token?state='' (''/auth_url?state='' @ st)"
    by simp_all
  obtain res2 :: http_response and tr3 where "res_status res2 = 200" and u: "getHttpAsync N (''/auth_url?state='' @ st) (?tr2, ?A2) = (Inr (res_body res2), (tr3, ?A2))"
    and t3: "token_requests tr3 = token_requests ?tr2"
    by (rule auth_get_responds [OF assms(1) s(2) p(1) _ p(2), of ?tr2 ?A2]) blast+
  have a: "getAuthUrlAsync N (tr1, ?A1) = (Inr (res_body res2), (tr3, ?A2))"
    using g u by (simp add: getAuthUrlAsync_def act_simps)
  let ?tr4 = "tr3 @ [LaunchProcess (''xdg-open '' @ [CHR 0x22] @ res_body res2 @ [CHR 0x22])]"
  have "token_requests ?tr4 = 0" using t1 t3 assms(3) by (simp add: token_requests_calls)
  from poll_succeeds [OF assms(1,2) this _ assms(4), of ?A2]
  obtain tr' where "poll_loop N J 0 (?tr4, ?A2) = (Inr True, (tr', ?A2\<lparr>m_access_token := tok, m_refresh_token := ref\<rparr>))" by auto
  with f a have "loginAsync N J (tr, A) = (Inr (), (tr', ?A2\<lparr>m_access_token := tok, m_refresh_token := ref\<rparr>))"
    by (simp add: loginAsync_def act_simps net_up_calls [OF assms(1)])
  then show ?thesis by (rule that)
qed

lemma login_task_up:
  assumes "net_up N" and "auth_server N J k cid tok ref info" and "token_requests tr = 0" and "k < 10"
  obtains tr' W' where "login_task N J C (tr, W) = (Inr (), (tr', W'))" and "m_state (tw_service W') = LoggedIn"
    and "m_config (tw_service W') =
      (m_config (tw_service W))\<lparr>cfg_access_token := tok, cfg_broadcaster_id := ui_id info, cfg_client_id := cid\<rparr>"
    and "m_current_user (tw_service W') = ui_display_name info" and "tw_objects W' = tw_objects W" and "tw_tasks W' = tw_tasks W"
    and "m_message_callback (tw_service W') = m_message_callback (tw_service W)"
proof -
  let ?A = "ts_auth (tw_service W)"
  obtain tr1 st where l: "loginAsync N J (tr, ?A) =
      (Inr (), (tr1, ?A\<lparr>m_client_id := cid, auth_state := st, m_access_token := tok, m_refresh_token := ref\<rparr>))"
    by (rule login_up [OF assms])
  let ?A1 = "?A\<lparr>m_client_id := cid, auth_state := st, m_access_token := tok, m_refresh_token := ref\<rparr>"
  have s: "responds N ''/user_info'' (user_response J info)" using assms(2) by (simp add: auth_server_def)
  obtain res tr2 where "user_response J info res"
    "getHttpAsync N (''/user_info?state='' @ auth_state ?A1) (tr1, ?A1) = (Inr (res_body res), (tr2, ?A1))"
    by (rule auth_get_responds [OF assms(1) s, of "''/user_info?state='' @ auth_state ?A1" tr1 ?A1])
      (simp_all add: user_response_def)
  then have "fetchUserInfoAsync N J (tr1, ?A1) = (Inr info, (tr2, ?A1))"
    by (auto simp: fetchUserInfoAsync_def act_simps user_response_def)
  with l have "login_task N J C (tr, W) = (Inr (), (tr2,
      setState C LoggedIn (''Logged in as '' @ ui_display_name info)
        (update_service (store_login info) (update_service (\<lambda>S. S\<lparr>ts_auth := ?A1\<rparr>) W))))"
    by (simp add: login_task_def on_auth_def zoomA_def act_simps update_service_def store_login_def Let_def)
  then show ?thesis
    by (rule that) (simp_all add: update_service_def store_login_def setState_def report_status_def accessToken_def
        clientId_def Let_def)
qed

section \<open>The connection\<close>

text \<open>
  The EventSub server welcomes a web socket with the id of its session, and the API accepts
  subscriptions, whose text the JSON library can write.
\<close>

definition chat_server :: "net_env \<Rightarrow> 'j json_lib \<Rightarrow> bool" where
  "chat_server N J \<longleftrightarrow>
     (\<forall>tr s h p. \<exists>w j sid. net_frame N (tr @ [WsHandshake s h p]) = Inr w \<and> json_parse J w = Inr j \<and> session_id_of J j = Inr sid) \<and>
     responds N ''/helix/eventsub/subscriptions''
       (\<lambda>res. \<exists>j. json_parse J (res_body res) = Inr j \<and> \<not> json_contains J j ''error'') \<and>
     (\<forall>E type version. \<exists>t. json_dump J (subscription_request J E type version) = Inr t)"

lemma header_loop_target: "req_target (header_loop hs req) = req_target req"
  by (induction hs arbitrary: req) (simp_all add: req_set_def)

lemma post_request_target [simp]: "req_target (post_request host target body hs) = target"
  by (simp add: post_request_def header_loop_target req_set_def Let_def)

lemma subscribe_up:
  assumes "net_up N" and "chat_server N J"
  obtains tr' where "subscribe N J type version (tr, E) = (Inr (), (tr', E))"
proof -
  let ?cfg = "es_cfg E" and ?hs = "api_headers (es_cfg E) @ [(''Content-Type'', ''application/json'')]"
  obtain body where b: "json_dump J (subscription_request J E type version) = Inr body"
    using assms(2) unfolding chat_server_def by blast
  let ?req = "post_request (helix_host ?cfg) ''/helix/eventsub/subscriptions'' body ?hs"
  have "responds N ''/helix/eventsub/subscriptions''
      (\<lambda>res. \<exists>j. json_parse J (res_body res) = Inr j \<and> \<not> json_contains J j ''error'')"
    using assms(2) by (simp add: chat_server_def)
  then obtain res j where "json_parse J (res_body res) = Inr j" "\<not> json_contains J j ''error''"
    "exchange N (helix_host ?cfg) (helix_port ?cfg) ?req (tr, E) =
       (Inr res, (tr @ exchange_calls (length tr) (helix_host ?cfg) (helix_port ?cfg) ?req, E))"
    using exchange_responds [OF assms(1), of _ _ ?req "helix_host ?cfg" "helix_port ?cfg" tr E] by fastforce
  then have "subscribe N J type version (tr, E) = (Inr (),
      ((tr @ exchange_calls (length tr) (helix_host ?cfg) (helix_port ?cfg) ?req) @ [TimerWait 300], E))"
    using b by (simp add: subscribe_def act_simps Let_def https_exchange net_up_calls [OF assms(1)])
  then show ?thesis by (rule that)
qed

lemma connect_up:
  assumes "net_up N" and "chat_server N J"
  obtains tr' sid where "EventSub_connect N J (tr, E) =
    (Inr (), (tr', E\<lparr>m_stream := Some (length tr), m_wss := Some (length tr), m_session_id := sid\<rparr>))"
proof -
  let ?h = "cfg_host (es_cfg E)" and ?p = "cfg_port (es_cfg E)"
  let ?tr = "(tr @ connect_calls (length tr) ?h ?p @ [TlsHandshake (length tr)]) @ [WsHandshake (length tr) ?h ''/ws'']"
  obtain w j sid where "net_frame N ?tr = Inr w" "json_parse J w = Inr j" "session_id_of J j = Inr sid"
    using assms(2) unfolding chat_server_def by blast
  then have "EventSub_connect N J (tr, E) = (Inr (), (?tr @ [WsRead (length tr)],
      E\<lparr>m_stream := Some (length tr), m_wss := Some (length tr), m_session_id := sid\<rparr>))"
    by (simp add: EventSub_connect_def makeSslStreamAsync_def act_simps net_up_calls [OF assms(1)] connect_calls_def)
  then show ?thesis by (rule that)
qed

section \<open>From the start to the chat\<close>

lemma resume_run:
  assumes "tw_run N J C s evs (Some (tr, W))" and "i < length (tw_tasks W)" and "pointers_ok (tw_tasks W ! i) W"
    and "resume N J C (tw_tasks W ! i) (tr, remove_task i W) = (r, s')"
  shows "tw_run N J C s (evs @ [Resume i]) (Some s')"
  using run_step [OF assms(1) step_resume [OF assms(2,3)]] assms(4) by simp

text \<open>What matters of a world on the way.\<close>

definition stands :: "TwitchService \<Rightarrow> EventSub list \<Rightarrow> task list \<Rightarrow> 'w tw_world \<Rightarrow> bool" where
  "stands S es ts W \<longleftrightarrow> tw_service W = S \<and> tw_objects W = es \<and> tw_tasks W = ts"

lemma connect_step:
  assumes "tw_run N J C s evs (Some (tr, W))" and "stands S [] [] W" and "m_state S = LoggedIn"
    and "S' = S\<lparr>m_state := ConnectingToChat, m_eventsub := Some 0, m_chat_read := Some 0, m_chat_send := Some (m_config S)\<rparr>"
  obtains W' where "tw_run N J C s (evs @ [Connect, Resume 0]) (Some (tr, W'))"
    and "stands S' [EventSub_new (m_config S)] [OpenTask 0] W'"
proof -
  let ?W = "co_spawn ConnectTask W"
  have r: "tw_run N J C s (evs @ [Connect]) (Some (tr, ?W))" by (rule run_step [OF assms(1) step_connect])
  let ?W' = "co_spawn (OpenTask 0) (setupChatServices (setState C ConnectingToChat ''Connecting to chat...'' W))"
  have W: "remove_task 0 ?W = W" using assms(2) by (simp add: remove_task_def co_spawn_def stands_def)
  have t: "0 < length (tw_tasks ?W)" "tw_tasks ?W ! 0 = ConnectTask"
    using assms(2) by (simp_all add: co_spawn_def stands_def)
  have "connectToChat C (tr, W) = (Inr (), (tr, ?W'))"
    using assms(2,3) by (simp add: connectToChat_def act_simps stands_def setupChatServices_def update_service_def Let_def)
  then have "tw_run N J C s ((evs @ [Connect]) @ [Resume 0]) (Some (tr, ?W'))"
    using resume_run [OF r t(1), of "Inr ()"] by (simp add: t(2) W)
  then have "tw_run N J C s (evs @ [Connect, Resume 0]) (Some (tr, ?W'))" by simp
  then show ?thesis
    by (rule that) (use assms(2,4) in \<open>simp add: stands_def co_spawn_def setupChatServices_def update_service_def Let_def\<close>)
qed

lemma open_step:
  assumes "net_up N" and "chat_server N J"
    and "tw_run N J C s evs (Some (tr, W))" and "stands S [E] [OpenTask 0] W" and "m_eventsub S = Some 0"
  obtains tr' W' sid where "tw_run N J C s (evs @ [Resume 0]) (Some (tr', W'))"
    and "stands S [E\<lparr>m_stream := Some (length tr), m_wss := Some (length tr), m_session_id := sid\<rparr>]
      [ReadTask, StartTask 0, SubscribeChatTask] W'"
proof -
  obtain tr' sid where c: "EventSub_connect N J (tr, E) =
      (Inr (), (tr', E\<lparr>m_stream := Some (length tr), m_wss := Some (length tr), m_session_id := sid\<rparr>))"
    by (rule connect_up [OF assms(1,2)])
  let ?E = "E\<lparr>m_stream := Some (length tr), m_wss := Some (length tr), m_session_id := sid\<rparr>"
  let ?W = "W\<lparr>tw_objects := [?E], tw_tasks := [ReadTask, StartTask 0, SubscribeChatTask]\<rparr>"
  have "connect_opened N J C 0 (tr, remove_task 0 W) = (Inr (), (tr', ?W))"
    using c assms(4,5) by (simp add: connect_opened_def on_object_def zoomA_def act_simps stands_def remove_task_def co_spawn_def)
  then have "tw_run N J C s (evs @ [Resume 0]) (Some (tr', ?W))"
    using assms(4,5) by (intro resume_run [OF assms(3), of 0 "Inr ()"]) (simp_all add: stands_def alive_def)
  then show ?thesis by (rule that) (use assms(4) in \<open>simp add: stands_def\<close>)
qed

lemma subscribe_step:
  assumes "net_up N" and "chat_server N J"
    and "tw_run N J C s evs (Some (tr, W))" and "stands S [E] [ReadTask, StartTask 0, SubscribeChatTask] W"
    and "m_eventsub S = Some 0" and "m_chat_read S = Some 0"
  obtains tr' W' where "tw_run N J C s (evs @ [Resume 2]) (Some (tr', W'))"
    and "stands (S\<lparr>m_state := ChatConnected\<rparr>) [E]
      ([ReadTask, StartTask 0] @ map (\<lambda>(type, version). SubscribeTask 0 type version) c_subscriptions) W'"
proof -
  obtain tr' where c: "subscribe N J ''channel.chat.message'' ''1'' (tr @ [TimerWait 500], E) = (Inr (), (tr', E))"
    by (rule subscribe_up [OF assms(1,2)])
  let ?W = "setState C ChatConnected ''Connected to chat'' (spawn_subscriptions ((remove_task 2 W)\<lparr>tw_objects := [E]\<rparr>))"
  have "connect_subscribe N J C (tr, remove_task 2 W) = (Inr (), (tr', ?W))"
    using c assms(4-6) by (simp add: connect_subscribe_def on_object_def zoomA_def act_simps stands_def remove_task_def
        requestSubscription_def net_up_calls [OF assms(1)])
  then have "tw_run N J C s (evs @ [Resume 2]) (Some (tr', ?W))"
    using assms(4-6) by (intro resume_run [OF assms(3), of 2 "Inr ()"]) (simp_all add: stands_def numeral_2_eq_2)
  then show ?thesis
    by (rule that) (use assms(4,5) in \<open>simp add: stands_def spawn_subscriptions_eq remove_task_def numeral_2_eq_2\<close>)
qed

lemma reading_step:
  assumes "tw_run N J C s evs (Some (tr, W))" and "stands S [E] ([ReadTask, StartTask 0] @ ts) W"
    and "m_eventsub S = Some 0" and "m_wss E = Some ws"
  obtains W' where "tw_run N J C s (evs @ [Resume 1, Resume 0]) (Some (tr, W'))"
    and "stands S [E\<lparr>m_callback := True\<rparr>] (ts @ [ReadingTask 0]) W'"
proof -
  let ?W1 = "W\<lparr>tw_objects := [E\<lparr>m_callback := True\<rparr>], tw_tasks := ReadTask # ts\<rparr>"
  have "on_object 0 EventSub_start (tr, remove_task 1 W) = (Inr (), (tr, ?W1))"
    using assms(2) by (simp add: on_object_def zoomA_def EventSub_start_def act_simps stands_def remove_task_def)
  then have r: "tw_run N J C s (evs @ [Resume 1]) (Some (tr, ?W1))"
    using assms(2,3) by (intro resume_run [OF assms(1), of 1 "Inr ()"]) (simp_all add: stands_def alive_def)
  let ?W2 = "?W1\<lparr>tw_tasks := ts @ [ReadingTask 0]\<rparr>"
  have "read_task (tr, remove_task 0 ?W1) = (Inr (), (tr, ?W2))"
    using assms(2-4) by (simp add: read_task_def act_simps stands_def remove_task_def co_spawn_def)
  then have "tw_run N J C s ((evs @ [Resume 1]) @ [Resume 0]) (Some (tr, ?W2))"
    using assms(2,3) by (intro resume_run [OF r, of 0 "Inr ()"]) (simp_all add: stands_def)
  then have "tw_run N J C s (evs @ [Resume 1, Resume 0]) (Some (tr, ?W2))" by simp
  then show ?thesis by (rule that) (use assms(2) in \<open>simp add: stands_def\<close>)
qed

lemma login_step:
  assumes "net_up N" and "auth_server N J k cid tok ref info" and "k < 10"
  obtains tr W S where "tw_run N J C ([], tw_initial cfg x) [Login, Resume 0] (Some (tr, W))" and "stands S [] [] W"
    and "m_state S = LoggedIn" and "m_current_user S = ui_display_name info" and "m_message_callback S"
    and "m_config S = cfg\<lparr>cfg_access_token := tok, cfg_broadcaster_id := ui_id info, cfg_client_id := cid\<rparr>"
proof -
  let ?W0 = "tw_initial cfg x" and ?W1 = "startLogin C (tw_initial cfg x)"
  have r: "tw_run N J C ([], ?W0) [Login] (Some ([], ?W1))" using run_step [OF run_nil step_login] by simp
  note i = tw_initial_def setStatusCallback_def setMessageCallback_def update_service_def TwitchService_new_def
    startLogin_def co_spawn_def
  have W1: "tw_tasks ?W1 = [LoginTask]" "tw_objects ?W1 = []" "m_message_callback (tw_service ?W1)" "m_config (tw_service ?W1) = cfg"
    by (simp_all add: i)
  obtain tr W where w: "login_task N J C ([], remove_task 0 ?W1) = (Inr (), (tr, W))" "m_state (tw_service W) = LoggedIn"
    "m_config (tw_service W) = (m_config (tw_service (remove_task 0 ?W1)))
       \<lparr>cfg_access_token := tok, cfg_broadcaster_id := ui_id info, cfg_client_id := cid\<rparr>"
    "m_current_user (tw_service W) = ui_display_name info" "tw_objects W = tw_objects (remove_task 0 ?W1)"
    "tw_tasks W = tw_tasks (remove_task 0 ?W1)"
    "m_message_callback (tw_service W) = m_message_callback (tw_service (remove_task 0 ?W1))"
    by (rule login_task_up [OF assms(1,2) _ assms(3), of "[]"]) (simp add: token_requests_def, blast)
  have "tw_run N J C ([], ?W0) ([Login] @ [Resume 0]) (Some (tr, W))"
    using w(1) by (intro resume_run [OF r, of 0 "Inr ()"]) (simp_all add: W1)
  then have "tw_run N J C ([], ?W0) [Login, Resume 0] (Some (tr, W))" by simp
  then show ?thesis
    by (rule that [of _ _ "tw_service W"]) (use w(2-) W1 in \<open>simp_all add: stands_def remove_task_def\<close>)
qed

section \<open>Properties\<close>


text \<open>
  One JSON value with all the fields that the servers send, and a network on which the first two
  polls for the token fail.
\<close>

definition session_json :: "jval json_lib" where
  "session_json = jval_lib (\<lambda>s. Some (JObj
     [(''client_id'', JStr ''c1''), (''access_token'', JStr ''t1''), (''refresh_token'', JStr ''r1''),
      (''data'', JArr [JObj [(''id'', JStr ''42''), (''display_name'', JStr ''Ann'')]]),
      (''payload'', JObj [(''session'', JObj [(''id'', JStr ''s1'')])])]))"

definition session_user :: TwitchUserInfo where
  "session_user = \<lparr>ui_id = ''42'', ui_login = [], ui_display_name = ''Ann'', ui_broadcaster_type = [], ui_description = [],
     ui_created_at = 0, ui_profile_image_url = [], ui_view_count = 0, ui_offline_image_url = Some [], ui_email = Some []\<rparr>"

definition session_net :: net_env where
  "session_net = sample_net\<lparr>net_response := (\<lambda>tr.
     Inr \<lparr>res_status = (if tr \<noteq> [] \<and> is_token_request (last tr) \<and> token_requests (butlast tr) < 2 then 404 else 200),
          res_location = [], res_body = ''{}''\<rparr>)\<rparr>"

lemma session_net_up: "net_up session_net"
  by (auto simp: net_up_def session_net_def sample_net_def split: net_call.splits)

lemma session_responds:
  "\<not> prefix ''/token?state='' path \<Longrightarrow> \<not> prefix path ''/token?state='' \<Longrightarrow>
   P \<lparr>res_status = 200, res_location = [], res_body = ''{}''\<rparr> \<Longrightarrow> responds session_net path P"
  by (auto simp: responds_def session_net_def dest: prefix_same_cases)

lemma session_parts:
  "json_parse session_json w = Inr (JObj
     [(''client_id'', JStr ''c1''), (''access_token'', JStr ''t1''), (''refresh_token'', JStr ''r1''),
      (''data'', JArr [JObj [(''id'', JStr ''42''), (''display_name'', JStr ''Ann'')]]),
      (''payload'', JObj [(''session'', JObj [(''id'', JStr ''s1'')])])])"
  by (simp add: session_json_def jval_lib_def)

lemma session_auth: "auth_server session_net session_json 2 ''c1'' ''t1'' ''r1'' session_user"
  unfolding auth_server_def
proof (intro conjI)
  show "responds session_net ''/client_id'' (client_response session_json ''c1'')"
    by (rule session_responds) (simp_all add: client_response_def session_parts, simp_all add: session_json_def jval_lib_def)
  show "responds session_net ''/auth_url'' (\<lambda>res. res_status res = 200)"
    by (rule session_responds) simp_all
  show "responds session_net ''/user_info'' (user_response session_json session_user)"
    by (rule session_responds) (simp_all add: user_response_def session_parts parseTwitchUser_def session_user_def,
        simp_all add: session_json_def jval_lib_def)
  show "\<forall>tr s req. prefix ''/token?state='' (req_target req) \<longrightarrow>
      (\<exists>res. net_response session_net (tr @ [HttpWrite s req]) = Inr res \<and>
         (if token_requests tr < 2 then res_status res = 404 else token_response session_json ''t1'' ''r1'' res))"
    by (auto simp: session_net_def token_response_def session_parts) (simp_all add: session_json_def jval_lib_def)
qed

lemma session_chat: "chat_server session_net session_json"
  unfolding chat_server_def
proof (intro conjI)
  show "responds session_net ''/helix/eventsub/subscriptions''
      (\<lambda>res. \<exists>j. json_parse session_json (res_body res) = Inr j \<and> \<not> json_contains session_json j ''error'')"
    by (rule session_responds) (simp_all add: session_parts, simp_all add: session_json_def jval_lib_def)
qed (simp_all add: session_parts session_id_of_def, simp_all add: session_net_def sample_net_def session_json_def jval_lib_def)


end
