(* ===== verification/Chat_Path.thy ===== *)
theory Chat_Path
  imports Script_Answers Session_Path
begin

text \<open>
  The way of a command through the program: the frame that the read loop takes from the EventSub
  socket, the notification in it, the message callback, the script, and the request that sends the
  answer.
\<close>

section \<open>Sending over a network that is up\<close>

text \<open>The request that sends a text to the chat.\<close>

definition chat_request :: "ClientConfig \<Rightarrow> string \<Rightarrow> http_request" where
  "chat_request cfg body = post_request (helix_host cfg) ''/helix/chat/messages'' body (api_headers cfg)"

definition chat_body :: "'j json_lib \<Rightarrow> ClientConfig \<Rightarrow> string \<Rightarrow> 'j" where
  "chat_body J cfg text =
     json_object J [(''broadcaster_id'', json_string J (cfg_broadcaster_id cfg)),
       (''message'', json_string J text), (''sender_id'', json_string J (cfg_broadcaster_id cfg))]"

lemma send_task_up:
  assumes "net_up N" and "m_chat_send (tw_service W) = Some (m_config (tw_service W))"
    and "json_dump J (chat_body J (m_config (tw_service W)) text) = Inr body"
  shows "send_task N J C text (tr, W) =
    (Inr (), (tr @ exchange_calls (length tr) (helix_host (m_config (tw_service W))) (helix_port (m_config (tw_service W)))
       (chat_request (m_config (tw_service W)) body), W))"
proof -
  let ?cfg = "m_config (tw_service W)"
  obtain b where "httpsPostAsync N (helix_host ?cfg) (helix_port ?cfg) ''/helix/chat/messages'' body (api_headers ?cfg) (tr, ?cfg) =
      (Inr b, (tr @ exchange_calls (length tr) (helix_host ?cfg) (helix_port ?cfg) (chat_request ?cfg body), ?cfg))"
    using post_up [OF assms(1), of "helix_host ?cfg" "helix_port ?cfg" "''/helix/chat/messages''" body "api_headers ?cfg" tr ?cfg]
    unfolding chat_request_def by (elim exE)
  with assms(2,3) show ?thesis
    by (simp add: send_task_def on_sender_def Send_message_def zoomA_def act_simps Let_def chat_body_def)
qed

section \<open>From the socket to the callback\<close>

text \<open>A read is pending on an open socket, and the next frame is a notification of this chat message.\<close>

definition message_arrives ::
    "net_env \<Rightarrow> 'j json_lib \<Rightarrow> net_call list \<Rightarrow> 'w tw_world \<Rightarrow> nat \<Rightarrow> stream \<Rightarrow> ChatMessage \<Rightarrow> bool" where
  "message_arrives N J tr W a ws msg \<longleftrightarrow>
     (let E = tw_objects W ! a
      in m_wss E = Some ws \<and> m_callback E \<and> m_buffer E = [] \<and> net_is_open N tr \<and> m_message_callback (tw_service W) \<and>
         (\<exists>frame raw. net_frame N tr = Inr frame \<and> is_notification J frame raw ''channel.chat.message'' \<and>
            chat_notification J raw = Inr (Some msg)))"

lemma put_object_same: "tw_objects W ! a = E \<Longrightarrow> put_object a E W = W"
  by (auto simp: put_object_def)

lemma reading_delivers:
  assumes "message_arrives N J tr W a ws msg"
    and "on_message C msg (tr @ [WsRead ws], W) = (Inr (), (tr @ [WsRead ws], W'))" and "tw_objects W' = tw_objects W"
  shows "reading_task N J C a (tr, W) = (Inr (), (tr @ [WsRead ws], co_spawn (ReadingTask a) W'))"
proof -
  let ?E = "tw_objects W ! a"
  obtain frame raw where m: "m_wss ?E = Some ws" "m_callback ?E" "m_buffer ?E = []" "net_is_open N tr"
    "m_message_callback (tw_service W)" "net_frame N tr = Inr frame" "is_notification J frame raw ''channel.chat.message''"
    "chat_notification J raw = Inr (Some msg)"
    using assms(1) by (auto simp: message_arrives_def Let_def)
  have "handleEventSubMessage J C frame (tr @ [WsRead ws], W) = (Inr (), (tr @ [WsRead ws], W'))"
    unfolding notification_run [OF m(7,5)] by (simp add: notify_def on_chat_message_def act_simps m(8) assms(2))
  then have "eventsub_callback J C frame (tr @ [WsRead ws], W) = (Inr (), (tr @ [WsRead ws], W'))"
    by (simp add: eventsub_callback_def act_simps)
  moreover have "?E\<lparr>m_buffer := []\<rparr> = ?E" using m(3) by simp
  ultimately have "read_body N (eventsub_callback J C) ws (tr, (?E, W)) = (Inr (), (tr @ [WsRead ws], (?E, W')))"
    using m by (simp add: read_body_def act_simps zoomA_def Let_def)
  with m(1,4) assms(3) show ?thesis by (simp add: reading_task_def put_object_same)
qed

lemma command_path:
  assumes "shipped_setting S E" and "scripts_bound ss (snd (tw_app W))" and "tw_inv W" and "canSendMessages W" and "net_up N"
    and "i < length (tw_tasks W)" and "tw_tasks W ! i = ReadingTask a" and "alive a W"
    and "message_arrives N J tr W a ws msg"
    and "s \<in> set ss" and "transform_tolower c \<in> set (script_names s)" and "[] \<notin> set args"
    and "msg_text msg = ''!'' @ print_line (c # args)"
  obtains t W1 where "tw_step N J (app_callbacks E) (tr, W) (Resume i) (Some (tr @ [WsRead ws], W1))"
    and "tw_service W1 = tw_service W"
    and "tw_tasks W1 = take i (tw_tasks W) @ drop (Suc i) (tw_tasks W) @ [SendTask t, ReadingTask a]"
proof -
  let ?W = "remove_task i W" and ?C = "app_callbacks E"
  have W: "tw_app ?W = tw_app W" "canSendMessages ?W" "message_arrives N J tr ?W a ws msg" "tw_service ?W = tw_service W"
    using assms(4,9) by (simp_all add: remove_task_def canSendMessages_def message_arrives_def)
  obtain W' t where m: "app_message E msg (tr @ [WsRead ws], ?W) = (Inr (), (tr @ [WsRead ws], W'))"
    "tw_service W' = tw_service ?W" "tw_objects W' = tw_objects ?W" "tw_tasks W' = tw_tasks ?W @ [SendTask t]"
    using command_answered [OF assms(1) _ W(2) assms(10-13)] assms(2) W(1) by metis
  have "reading_task N J ?C a (tr, ?W) = (Inr (), (tr @ [WsRead ws], co_spawn (ReadingTask a) W'))"
    by (rule reading_delivers [OF W(3) _ m(3)]) (simp add: app_callbacks_def m(1))
  then have "tw_step N J ?C (tr, W) (Resume i) (Some (tr @ [WsRead ws], co_spawn (ReadingTask a) W'))"
    using step_resume [OF assms(6), of N J ?C tr] assms(7,8) by simp
  then show ?thesis
    by (rule that [of _ t]) (simp_all add: co_spawn_def m(2,4) W(4) remove_task_def)
qed

section \<open>Properties\<close>


definition hello_notification :: jval where
  "hello_notification = JObj
     [(''metadata'', JObj [(''message_type'', JStr ''notification''), (''subscription_type'', JStr ''channel.chat.message'')]),
      (''payload'', JObj [(''event'', JObj
         [(''chatter_user_name'', JStr ''ann''), (''message'', JObj [(''text'', JStr (''!'' @ print_line [''Hello'', ''bob'']))]),
          (''color'', JStr ''#FF0000''), (''badges'', JArr [])])])]"

definition hello_json :: "jval json_lib" where
  "hello_json = jval_lib (\<lambda>s. if s = ''{}'' then Some hello_notification else None)"

lemma hello_arrives:
  "message_arrives sample_net hello_json [] (chat_world x) 0 0
     \<lparr>msg_user = ''ann'', msg_text = ''!'' @ print_line [''Hello'', ''bob''], msg_color = ''#FF0000'', msg_badges = []\<rparr>"
proof -
  note d = hello_json_def jval_lib_def hello_notification_def json_string_at_def
  have "is_notification hello_json ''{}'' hello_notification ''channel.chat.message''"
    by (simp add: is_notification_def d)
  moreover have "chat_notification hello_json hello_notification =
      Inr (Some \<lparr>msg_user = ''ann'', msg_text = ''!'' @ print_line [''Hello'', ''bob''], msg_color = ''#FF0000'', msg_badges = []\<rparr>)"
    by (simp add: chat_notification_def d)
  ultimately show ?thesis
    by (auto simp: message_arrives_def chat_world_def sample_net_def EventSub_new_def TwitchService_new_def Let_def)
qed


end
