(* ===== verification/Spec2Isabelle.thy ===== *)
theory Spec2Isabelle
  imports Script_Limits Chat_Path
begin

text \<open>
  A model of SeraphBot, a Twitch chat bot with a desktop window, and what it promises.

  \<^bold>\<open>The program.\<close> \<^verbatim>\<open>main\<close> creates an \<^verbatim>\<open>Application\<close>, which owns all other objects. A pool of threads
  (\<^verbatim>\<open>ConnectionManager\<close>) runs the coroutines of the \<^verbatim>\<open>TwitchService\<close>: it logs in through an OAuth server
  (\<^verbatim>\<open>tw::Auth\<close>), opens a web socket (\<^verbatim>\<open>tw::EventSub\<close>), subscribes to chat, reads notifications and sends
  messages (\<^verbatim>\<open>tw::chat\<close>). A chat message goes to the message callback of the application: it is queued for
  the window (\<^verbatim>\<open>AppState\<close>) and given to the \<^verbatim>\<open>CommandParser\<close>, whose handlers run Lua scripts under the
  guards of the \<^verbatim>\<open>LuaCommandEngine\<close>, seven of which come with the program (\<^verbatim>\<open>src/commands\<close>); scripts may play
  sounds from whitelisted directories
  (\<^verbatim>\<open>AudioSystem\<close>, \<^verbatim>\<open>MiniaudioPlayer\<close>). The main thread draws frames (\<^verbatim>\<open>ImGuiManager\<close>, the view models), in
  which the user logs in, connects, chats and sends notifications to Discord. \<^verbatim>\<open>OBSService\<close> controls OBS.

  \<^bold>\<open>Theories and sources.\<close> Paths are relative to the root of the repository; the headers are those
  of the same name under \<^verbatim>\<open>include/seraphbot\<close>. Definitions carry the names of the source, with the
  class as a prefix where a name is not unique.

  \<^item> \<^verbatim>\<open>Prelude\<close>: exceptions as values, code with a state (\<open>act\<close>), character functions, loops with
    separators; \<open>state_order\<close>, the rules for code that relates its states by a preorder.
  \<^item> \<^verbatim>\<open>Logging\<close> (\<^verbatim>\<open>src/core/logging.cpp\<close>), \<^verbatim>\<open>App_State\<close> (\<^verbatim>\<open>src/core/app_state.cpp\<close>), \<^verbatim>\<open>Command_Parser\<close>
    (\<^verbatim>\<open>src/core/command_parser.cpp\<close>): logger, message queue, tokenizer and registry of commands.
  \<^item> \<^verbatim>\<open>Float32\<close>, \<^verbatim>\<open>Miniaudio_Player\<close> (\<^verbatim>\<open>src/core/miniaudio_player.cpp\<close>), \<^verbatim>\<open>Std_Filesystem\<close>, \<^verbatim>\<open>Audio_System\<close>
    (\<^verbatim>\<open>src/core/audio_system.cpp\<close>): binary32 arithmetic, the audio engine, paths, the whitelist.
  \<^item> \<^verbatim>\<open>Lua_Engine\<close>, \<^verbatim>\<open>Lua_Guards\<close> (\<^verbatim>\<open>src/core/lua_command_engine.cpp\<close>): loading, registering, guarding and
    running scripts; what the guards promise over any sequence of commands.
  \<^item> \<^verbatim>\<open>Lua_Numbers\<close>, \<^verbatim>\<open>Lua_Scripts\<close> (\<^verbatim>\<open>src/commands/*.lua\<close>), \<^verbatim>\<open>Script_Properties\<close>, \<^verbatim>\<open>Sfx_Pages\<close>: the numbers of
    Lua, the shipped scripts as behaviours and as files an interpreter loads, which sounds they play,
    and the listing of \<^verbatim>\<open>!sfx list\<close>.
  \<^item> \<^verbatim>\<open>Network\<close> (\<^verbatim>\<open>src/core/connection_manager.cpp\<close>), \<^verbatim>\<open>Http_Client\<close> (\<^verbatim>\<open>src/tw/config.cpp\<close>), \<^verbatim>\<open>Std_Time\<close>,
    \<^verbatim>\<open>Twitch_Auth\<close> (\<^verbatim>\<open>src/tw/auth.cpp\<close>), \<^verbatim>\<open>Event_Sub\<close> (\<^verbatim>\<open>src/tw/eventsub.cpp\<close>, \<^verbatim>\<open>src/tw/chat\<close>): recorded network
    calls, HTTPS requests, time stamps, login, web socket and chat.
  \<^item> \<^verbatim>\<open>Twitch_Service\<close> (\<^verbatim>\<open>src/core/twitch_service.cpp\<close>), \<^verbatim>\<open>Service_Runs\<close>, \<^verbatim>\<open>Service_Safety\<close>: the service as
    a set of tasks over objects with addresses, the step relation of its runs, their invariant, the
    state machine, and where tokens go.
  \<^item> \<^verbatim>\<open>Discord\<close> (\<^verbatim>\<open>src/discord/notifications.cpp\<close>), \<^verbatim>\<open>Obs_Service\<close> (\<^verbatim>\<open>include/seraphbot/obs/obsservice.hpp\<close>).
  \<^item> \<^verbatim>\<open>Colors\<close>, \<^verbatim>\<open>Ui\<close>, \<^verbatim>\<open>Ui_Frames\<close> (\<^verbatim>\<open>src/ui/imgui_manager.cpp\<close>, \<^verbatim>\<open>include/seraphbot/ui\<close>,
    \<^verbatim>\<open>include/seraphbot/viewmodels\<close>): the windows as the library calls they make and their effect on the
    view models.
  \<^item> \<^verbatim>\<open>Application\<close> (\<^verbatim>\<open>src/application.cpp\<close>, \<^verbatim>\<open>src/main.cpp\<close>), \<^verbatim>\<open>Program_Runs\<close>: the callbacks, start and frame
    loop, and the runs of the whole program.
  \<^item> \<^verbatim>\<open>Command_Runs\<close>, \<^verbatim>\<open>Script_Runs\<close>, \<^verbatim>\<open>Script_Limits\<close>, \<^verbatim>\<open>Script_Answers\<close>: engine, parser and audio system in
    these runs, for any scripts and for the shipped ones; their limits, and what the bot says.
  \<^item> \<^verbatim>\<open>Session_Path\<close>, \<^verbatim>\<open>Chat_Path\<close>: the two paths through all of the service, from the start to the read loop
    of a connected chat, and from a frame of the socket to the request that answers a command.

  \<^bold>\<open>State and effects.\<close> A class is a record with the members of the source, and a method a function
  on it; code that may throw returns \<open>Inl\<close> of the exception, and a \<^verbatim>\<open>catch\<close> is \<open>catchA\<close>. Code that talks
  to the network or the window works on a trace of the calls made so far together with its objects.
  A coroutine that the program spawns is a task; resuming it runs it to the next suspension that
  matters for the order of effects. Frames and resumptions are single steps of a run, in any order.
  Calls to the logger are left out unless their arguments can throw.

  \<^bold>\<open>Parameters.\<close> What is not in the repository is a parameter: the network and the clock (\<open>net_env\<close>),
  JSON (\<open>json_lib\<close>), the file system (\<open>fs\<close>), miniaudio (\<open>ma_lib\<close>), the Lua interpreter (\<open>lua_lib\<close>) with
  its floats and random numbers (\<open>lua_floats\<close>, \<open>lua_std\<close>), Dear ImGui and GLFW (\<open>ui_env\<close>). Their answers
  are arbitrary functions of what happened before; a theorem that needs more says so in a hypothesis,
  and its witness gives an instance. In the theorems about the shipped scripts the interpreter is
  \<open>shipped_lua\<close>, which gives each file its table and its function.

  \<^bold>\<open>What is shown.\<close>
  \<^item> Chat and commands: messages are delivered once and in order, from the socket to the log;
    commands reach their handler with their arguments; native commands are bound; nothing that a
    viewer writes makes the parser throw.
  \<^item> Scripts: cooldowns, limits and permissions hold over every sequence of commands; only sounds
    inside the whitelisted directories are played, in every run of the program. The shipped scripts
    stay bound to their names and within their limits in every run, each use of one is answered by
    one request to the chat, no answer is itself a command unless it is the name of a sound, they
    play only what was found, at a volume from 0 to 100 or the default one, and a listing fits a chat
    message and misses no short name.
  \<^item> Network: the protocol of a request, login in bounded time, the session of a subscription,
    frames of the socket handled in order; tokens only go to the API host over TLS, in every run.
  \<^item> Service: an invariant of objects and tasks, the state machine, that transient states are left,
    that login and connection succeed if the network is up and the servers do their part,
    that no pointer dangles unless the user disconnects, and that it does when they do.
  \<^item> Window: balanced library calls, at most one message per frame, colours in range, and that a
    frame acts on the service only through steps that the service allows.

  Interfaces are locales, each interpreted on the definitions it is about: \<open>context_stack\<close> (logging
  scopes), \<open>message_buffer\<close> (producers and the window), \<open>command_registry\<close>, \<open>audio_backend\<close>,
  \<open>directory_sandbox\<close>, \<open>https_transport\<close> (what the API clients rely on in the request functions),
  \<open>message_callback\<close> (what the service relies on in its callback, interpreted on that of the
  application), \<open>commands_kept\<close> (which facts about engine and parser survive a run) with the contracts that
  give it, \<open>reload_contract\<close>, \<open>handler_contract\<close> and \<open>quiet_contract\<close>, interpreted on the audio system, the bound
  commands and their limits, \<open>state_order\<close> and \<open>script_order\<close>.

  \<^bold>\<open>Bounds and fuel.\<close> Loops over data are recursive and total. The read loop of the socket and the
  frame loop may run forever; they take fuel, one unit per pass, and the theorems about them say how
  much is enough. The loop over the sounds of a page ends because a message is full, whatever its index
  is. Login makes a fixed number of polls, as in the source. Machine integers are words
  or are shown to stay in range; \<^verbatim>\<open>float\<close> is exact arithmetic followed by rounding at 24 bits.

  \<^bold>\<open>Not modelled.\<close> The bytes of the embedded font; build files; sizes, flags and positions of windows.
  Two threads inside one frame or between two suspensions of a coroutine are not interleaved: the
  sources have no synchronisation there apart from the queue of messages, and data races have no
  defined meaning in C++. Declared functions without a definition (\<^verbatim>\<open>setPrefix\<close>, \<^verbatim>\<open>processLoginResult\<close>, the sound commands of
  \<^verbatim>\<open>Application\<close>) have nothing to model.
\<close>

section \<open>Runs of the program\<close>

text \<open>
  C2: Credentials stay with Twitch. In every run of the program, with any schedule of frames, tasks
  and notifications, any input and any answers of the network, each HTTP request that carries a
  bearer token is written to a stream that was connected to \<^verbatim>\<open>api.twitch.tv\<close> and to nothing else, that
  names this host for its certificate, and whose TLS handshake has been made.
\<close>

theorem program_tokens_confined:
  assumes "app_started E U mkdirs v (ur, X)"
    and "app_run N J U (app_callbacks E) ([], ur, X) evs (Some (tr', ur', X'))"
  shows "confined ''api.twitch.tv'' tr'"
  using app_run_ok [OF assms(2) started_ok(1) [OF assms(1)] refl] by (simp add: program_ok_def)

theorem program_tokens_confined_witness:
  "\<exists>ur X tr' ur' X'. app_started sample_env test_keys (\<lambda>p. Inr True) 0 (ur, X) \<and>
     app_run sample_net (jval_lib (\<lambda>s. None)) test_keys (app_callbacks sample_env) ([], ur, X) [Frame, DiscordTask 0]
       (Some (tr', ur', X')) \<and> confined ''api.twitch.tv'' tr'"
proof -
  obtain ur X tr' ur' X' where s: "app_started sample_env test_keys (\<lambda>p. Inr True) 0 (ur, X)"
    and r: "app_run sample_net (jval_lib (\<lambda>s. None)) test_keys (app_callbacks sample_env) ([], ur, X) [Frame, DiscordTask 0]
       (Some (tr', ur', X'))" by (rule sample_run)
  from program_tokens_confined [OF s r] s r show ?thesis by blast
qed



lemma folder_run:
  obtains ur X ur' X' where "app_started folder_env test_keys (\<lambda>p. Inr True) 0 (ur, X)"
    and "app_run sample_net (jval_lib (\<lambda>s. None)) test_keys (app_callbacks folder_env) ([], ur, X) [Frame]
      (Some ([], ur', X'))"
proof -
  let ?C = "app_callbacks folder_env"
  obtain ur X where s: "app_started folder_env test_keys (\<lambda>p. Inr True) 0 (ur, X)" using folder_started by blast
  obtain ur' X' where f: "frame test_keys ?C (ur, X) = (Inr (), (ur', X'))"
    using test_frame [OF started_disconnected [OF s]] by blast
  have "app_run sample_net (jval_lib (\<lambda>s. None)) test_keys ?C ([], ur, X) [Frame] (Some ([], ur', X'))"
    using app_run_step [OF app_run_nil frame_step [OF f]] by simp
  with s that show ?thesis by blast
qed

text \<open>
  C12: Commands stay what they are. If the folder \<^verbatim>\<open>commands\<close> holds shipped scripts when the program
  starts, then in every state of every run, whatever viewers write, reloads included, each name and
  alias of these scripts is bound to its script and has the limits that the script declares, and
  \<open>reload\<close> and \<open>commands\<close> are bound to the program's own handlers.
\<close>

theorem program_commands_stay_bound:
  assumes "shipped_setting S E" and "app_started E U mkdirs v (ur, X)"
    and "fs_exists (env_fs E) ''commands'' = Inr True" and "fs_is_directory (env_fs E) ''commands'' = Inr True"
    and "fst (fs_directory_iterator (env_fs E) ''commands'') = map script_entry ss"
    and "app_run N J U (app_callbacks E) ([], ur, X) evs (Some (tr', ur', X'))"
  shows "scripts_bound ss (snd (tw_app (ui_tw X')))"
  using shipped.program_run_keeps [OF assms(6), of S ss] started_scripts_bound [OF assms(1-5)] assms(1) by simp

theorem program_commands_stay_bound_witness:
  "\<exists>ur X ur' X'. app_started folder_env test_keys (\<lambda>p. Inr True) 0 (ur, X) \<and>
     app_run sample_net (jval_lib (\<lambda>s. None)) test_keys (app_callbacks folder_env) ([], ur, X) [Frame] (Some ([], ur', X')) \<and>
     scripts_bound all_scripts (snd (tw_app (ui_tw X')))"
proof -
  obtain ur X ur' X' where s: "app_started folder_env test_keys (\<lambda>p. Inr True) 0 (ur, X)"
    and r: "app_run sample_net (jval_lib (\<lambda>s. None)) test_keys (app_callbacks folder_env) ([], ur, X) [Frame]
      (Some ([], ur', X'))" by (rule folder_run)
  from program_commands_stay_bound [OF folder_setting s folder_listing r] s r show ?thesis by blast
qed

text \<open>
  C9: Limits hold for the whole stream. If the folder \<^verbatim>\<open>commands\<close> holds shipped scripts when the program
  starts, then in every state of every run, whatever viewers write, reloads included, the uses that
  are recorded for a command whose script declares a limit are at most that limit, for each of its
  names.
\<close>

theorem program_limits_respected:
  assumes "shipped_setting S E" and "app_started E U mkdirs v (ur, X)"
    and "fs_exists (env_fs E) ''commands'' = Inr True" and "fs_is_directory (env_fs E) ''commands'' = Inr True"
    and "fst (fs_directory_iterator (env_fs E) ''commands'') = map script_entry ss"
    and "app_run N J U (app_callbacks E) ([], ur, X) evs (Some (tr', ur', X'))"
    and "s \<in> set ss" and "nm \<in> set (script_names s)" and "0 < max_uses_per_stream (script_meta s)"
  shows "current_uses nm (m_cooldown_tracker (engine_of (ui_tw X'))) \<le> max_uses_per_stream (script_meta s)"
proof -
  have "limits_kept ss (snd (tw_app (ui_tw X)))"
    using started_scripts_bound [OF assms(1-5)] started_within_limits [OF assms(2)] by (simp add: limits_kept_def)
  then have "limits_kept ss (snd (tw_app (ui_tw X')))"
    using limited.program_run_keeps [OF assms(6), of S ss] assms(1) by simp
  with assms(7-9) show ?thesis by (simp add: limits_kept_def within_limits_def engine_of_def)
qed

theorem program_limits_respected_witness:
  "\<exists>ur X ur' X'. app_started folder_env test_keys (\<lambda>p. Inr True) 0 (ur, X) \<and>
     app_run sample_net (jval_lib (\<lambda>s. None)) test_keys (app_callbacks folder_env) ([], ur, X) [Frame] (Some ([], ur', X')) \<and>
     current_uses ''roll'' (m_cooldown_tracker (engine_of (ui_tw X'))) \<le> 50"
proof -
  obtain ur X ur' X' where s: "app_started folder_env test_keys (\<lambda>p. Inr True) 0 (ur, X)"
    and r: "app_run sample_net (jval_lib (\<lambda>s. None)) test_keys (app_callbacks folder_env) ([], ur, X) [Frame]
      (Some ([], ur', X'))" by (rule folder_run)
  have d: "Dice \<in> set all_scripts" "''roll'' \<in> set (script_names Dice)" "max_uses_per_stream (script_meta Dice) = 50"
    by (simp_all add: all_scripts_def script_names_def base_meta_def)
  from program_limits_respected [OF folder_setting s folder_listing r d(1,2)] d(3) s r show ?thesis by auto
qed




definition silent_callbacks :: "unit tw_callbacks" where
  "silent_callbacks = \<lparr>on_message = (\<lambda>m. ret ()), on_status = (\<lambda>status x. x)\<rparr>"


text \<open>
  C18: The frames implement the service's interface. Whatever a frame does, also when it ends in an
  exception, its effect on the service is that of a sequence of the service's own steps; in particular it
  calls \<open>disconnect\<close> only in the states in which the service accepts it.
\<close>

theorem frame_refines_service:
  "\<exists>evs. tw_run N J C (tr, ui_tw X) evs (Some (tr, ui_tw (snd (snd (frame U C (ur, X)))))) \<and> (\<forall>i. Resume i \<notin> set evs)"
proof -
  obtain r ur' X' where f: "frame U C (ur, X) = (r, (ur', X'))" by (metis prod.collapse)
  from frame_calls [of True, OF _ f] show ?thesis by (auto simp: f)
qed

text \<open>
  C11: The service follows its state machine. In every run, whatever the order of tasks and calls, a
  step leaves the state as it is or takes one edge: from \<open>Disconnected\<close> to \<open>LoggingIn\<close>, from there
  to \<open>LoggedIn\<close> or \<open>ErrorState\<close>, and so on.
\<close>

theorem service_follows_state_machine:
  assumes "tw_run N J (app_callbacks E) ([], tw_initial cfg x) evs (Some s)" and "tw_step N J (app_callbacks E) s ev (Some s')"
  shows "m_state (tw_service (snd s')) = m_state (tw_service (snd s)) \<or>
    state_edge (m_state (tw_service (snd s))) (m_state (tw_service (snd s')))"
  using app.step_edge [OF assms(2)] app.run_inv [OF assms(1)] by (simp add: initial_inv)

definition login_world :: "(nat, unit) app_tw" where
  "login_world = startLogin (app_callbacks sample_env)
     (tw_initial ClientConfig_default (AppState_new, (LuaCommandEngine_new sample_env 0, CommandParser_new)))"

lemma login_world_run:
  "tw_run N J (app_callbacks sample_env)
     ([], tw_initial ClientConfig_default (AppState_new, (LuaCommandEngine_new sample_env 0, CommandParser_new)))
     [Login] (Some ([], login_world))"
  using run_step [OF run_nil step_login] unfolding login_world_def by (metis append_Nil)

lemma login_world_state: "m_state (tw_service login_world) = LoggingIn"
  by (simp add: login_world_def tw_initial_def setStatusCallback_def setMessageCallback_def update_service_def
      TwitchService_new_def startLogin_def co_spawn_def)

theorem service_follows_state_machine_witness:
  "\<exists>s'. tw_step sample_net (jval_lib (\<lambda>s. None)) (app_callbacks sample_env) ([], login_world) (Resume 0) (Some s') \<and>
    (m_state (tw_service (snd s')) = LoggingIn \<or> state_edge LoggingIn (m_state (tw_service (snd s'))))"
proof -
  have t: "0 < length (tw_tasks login_world)" "tw_tasks login_world ! 0 = LoginTask"
    by (simp_all add: login_world_def tw_initial_def setStatusCallback_def setMessageCallback_def update_service_def
        TwitchService_new_def startLogin_def co_spawn_def)
  then have "pointers_ok (tw_tasks login_world ! 0) login_world" by simp
  from step_resume [OF t(1) this, of sample_net "jval_lib (\<lambda>s. None)" "app_callbacks sample_env" "[]"]
  obtain s' where s: "tw_step sample_net (jval_lib (\<lambda>s. None)) (app_callbacks sample_env) ([], login_world) (Resume 0) (Some s')"
    by blast
  from service_follows_state_machine [OF login_world_run s] s show ?thesis
    using login_world_state by (intro exI [of _ s']) simp
qed

text \<open>
  C14: The service does not get stuck. In every world a run can reach in the state \<open>LoggingIn\<close> or
  \<open>ConnectingToChat\<close>, there is a task, or one and its successor, whose resumption ends that state in
  \<open>LoggedIn\<close>, \<open>ChatConnected\<close> or \<open>ErrorState\<close>, whatever the network answers.
\<close>

theorem transient_states_are_left:
  assumes "tw_run N J (app_callbacks E) ([], tw_initial cfg x) evs0 (Some (tr, W))"
    and "m_state (tw_service W) = LoggingIn \<or> m_state (tw_service W) = ConnectingToChat"
  shows "\<exists>evs s'. length evs \<le> 2 \<and> list_all (\<lambda>e. \<exists>i. e = Resume i) evs \<and>
    tw_run N J (app_callbacks E) (tr, W) evs (Some s') \<and>
    (m_state (tw_service (snd s')) = LoggedIn \<or> m_state (tw_service (snd s')) = ChatConnected \<or>
     m_state (tw_service (snd s')) = ErrorState)"
proof -
  have inv: "tw_inv W" using app.run_inv [OF assms(1)] by (simp add: initial_inv)
  show ?thesis
  proof (cases "m_state (tw_service W) = LoggingIn")
    case True
    then obtain i s' where s: "tw_step N J (app_callbacks E) (tr, W) (Resume i) (Some s')"
      and "m_state (tw_service (snd s')) = LoggedIn \<or> m_state (tw_service (snd s')) = ErrorState"
      using app.login_leaves [OF inv] by blast
    then show ?thesis using run_step [OF run_nil s] by (intro exI [of _ "[Resume i]"] exI [of _ s']) (simp, blast)
  next
    case False
    then show ?thesis using app.connecting_leaves [OF inv] assms(2) by blast
  qed
qed

theorem transient_states_are_left_witness:
  "\<exists>evs s'. length evs \<le> 2 \<and>
    tw_run sample_net (jval_lib (\<lambda>s. None)) (app_callbacks sample_env) ([], login_world) evs (Some s') \<and>
    (m_state (tw_service (snd s')) = LoggedIn \<or> m_state (tw_service (snd s')) = ChatConnected \<or>
     m_state (tw_service (snd s')) = ErrorState)"
  using transient_states_are_left [OF login_world_run, of sample_net "jval_lib (\<lambda>s. None)"] login_world_state by blast

text \<open>
  C16: The objects of the service fit together in every world of every run of the program: the reader and
  the sender belong to the current connection and to the configuration in use, they exist exactly
  in the states that use them, there is one login task while logging in and none otherwise, and one
  task that opens the connection while connecting and none otherwise.
\<close>

theorem service_well_formed:
  assumes "app_started E U mkdirs v (ur, X)"
    and "app_run N J U (app_callbacks E) ([], ur, X) evs (Some (tr', ur', X'))"
  shows "tw_inv (ui_tw X')"
  using app_run_ok [OF assms(2) started_ok(1) [OF assms(1)] refl] by (simp add: program_ok_def)

theorem service_well_formed_witness:
  "\<exists>ur X tr' ur' X'. app_started sample_env test_keys (\<lambda>p. Inr True) 0 (ur, X) \<and>
     app_run sample_net (jval_lib (\<lambda>s. None)) test_keys (app_callbacks sample_env) ([], ur, X) [Frame, DiscordTask 0]
       (Some (tr', ur', X')) \<and> tw_inv (ui_tw X')"
proof -
  obtain ur X tr' ur' X' where s: "app_started sample_env test_keys (\<lambda>p. Inr True) 0 (ur, X)"
    and r: "app_run sample_net (jval_lib (\<lambda>s. None)) test_keys (app_callbacks sample_env) ([], ur, X) [Frame, DiscordTask 0]
       (Some (tr', ur', X'))" by (rule sample_run)
  from service_well_formed [OF s r] s r show ?thesis by blast
qed

text \<open>
  C33: A frame that returns leaves the UI library balanced: every window, child, menu, wrap position and
  style variable it begins is ended, each as the innermost one, in whatever state the program is
  and whatever the user does.
\<close>

theorem frame_calls_nest:
  assumes "frame U C (ur, X) = (Inr (), (ur', X'))"
  shows "\<exists>cs. ur' = ur @ cs \<and> nest cs ([], 0) = Some ([], 0)"
  using nests_frame [of "[]" 0 U C] assms unfolding nests_def by blast

theorem frame_calls_nest_witness:
  "\<exists>ur X ur' X'. app_started sample_env test_keys (\<lambda>p. Inr True) 0 (ur, X) \<and>
     frame test_keys (app_callbacks sample_env) (ur, X) = (Inr (), (ur', X')) \<and>
     (\<exists>cs. ur' = ur @ cs \<and> nest cs ([], 0) = Some ([], 0))"
proof -
  obtain ur X where s: "app_started sample_env test_keys (\<lambda>p. Inr True) 0 (ur, X)" using sample_started by blast
  obtain ur' X' where f: "frame test_keys (app_callbacks sample_env) (ur, X) = (Inr (), (ur', X'))"
    using test_frame [OF started_disconnected [OF s]] by blast
  from frame_calls_nest [OF f] s f show ?thesis by blast
qed

end
